(* ===== verification/Elkeid_Prelude.thy ===== *)
theory Elkeid_Prelude
  imports Main "HOL-Library.Word" "HOL-Library.Sublist"
begin

unbundle bit_operations_syntax

section \<open>Shared types, results and list lemmas\<close>

text \<open>
  The vocabulary of the development. A Rust \<open>u8\<close> is an \<^typ>\<open>8 word\<close>, a byte slice or \<open>Vec<u8>\<close>
  a list of them; \<open>u32\<close> and \<open>u64\<close> keep their width; \<open>usize\<close> values that only count elements of
  slices in memory are \<^typ>\<open>nat\<close>. A Rust call either panics, returns an error value or returns
  a result: the sum type \<open>'a res\<close> below, with \<open>Inl Panic\<close> for a panic and \<open>Inl (Err e)\<close> for an
  \<open>Err\<close>. The named collections gather the facts that the component theories hand to \<open>simp\<close>.
\<close>

type_synonym byte = "8 word"
type_synonym bytes = "8 word list"
type_synonym u32 = "32 word"
type_synonym u64 = "64 word"

datatype error =
    WriteZero                \<comment> \<open>\<open>ErrorKind::WriteZero\<close>: the output buffer is too small\<close>
  | UnknownDataType u32      \<comment> \<open>\<open>anyhow!("unknown data type: ...")\<close>\<close>
  | ParseError               \<comment> \<open>a \<open>FromStr\<close> or UTF-8 error\<close>
  | IoError                  \<comment> \<open>an error of the operating system\<close>
  | HttpError "nat option"    \<comment> \<open>a \<open>reqwest::Error\<close>, with the status if it has one\<close>
  | Message string           \<comment> \<open>an \<open>anyhow!\<close> message\<close>

datatype failure = Panic | Err error

type_synonym 'a res = "failure + 'a"

definition bind_res :: "'a res \<Rightarrow> ('a \<Rightarrow> 'b res) \<Rightarrow> 'b res" where
  "bind_res m f = (case m of Inl e \<Rightarrow> Inl e | Inr x \<Rightarrow> f x)"

named_theorems res_simps \<open>evaluation of results\<close>
named_theorems wire_simps \<open>facts on the record encoder\<close>
named_theorems kmod_simps \<open>facts on the kernel module filters\<close>
named_theorems cache_simps \<open>facts on the caches\<close>

lemma bind_res_Inr [simp, res_simps]: "bind_res (Inr x) f = f x"
  by (simp add: bind_res_def)

lemma bind_res_Inl [simp, res_simps]: "bind_res (Inl e) f = Inl e"
  by (simp add: bind_res_def)

lemma bind_res_eq_Inr [res_simps]:
  "bind_res m f = Inr y \<longleftrightarrow> (\<exists>x. m = Inr x \<and> f x = Inr y)"
  by (cases m) auto

lemma bind_res_eq_Inl:
  "bind_res m f = Inl e \<longleftrightarrow> m = Inl e \<or> (\<exists>x. m = Inr x \<and> f x = Inl e)"
  by (cases m) auto

lemma bind_res_assoc: "bind_res (bind_res m f) g = bind_res m (\<lambda>x. bind_res (f x) g)"
  by (cases m) auto

text \<open>\<open>usize\<close> subtraction: it panics below zero (with overflow checks off it wraps to an index
  that the next slice access refuses, which panics as well).\<close>

definition usub :: "nat \<Rightarrow> nat \<Rightarrow> nat res" where
  "usub a b = (if b \<le> a then Inr (a - b) else Inl Panic)"

lemma usub_ok [simp]: "b \<le> a \<Longrightarrow> usub a b = Inr (a - b)"
  by (simp add: usub_def)

subsection \<open>Byte literals\<close>

text \<open>A Rust byte string literal \<open>b"..."\<close>.\<close>

definition ascii :: "string \<Rightarrow> bytes" where
  "ascii s = map of_char s"

lemma ascii_Nil [simp]: "ascii [] = []"
  by (simp add: ascii_def)

lemma ascii_Cons [simp]: "ascii (c # s) = of_char c # ascii s"
  by (simp add: ascii_def)

lemma length_ascii [simp]: "length (ascii s) = length s"
  by (simp add: ascii_def)

subsection \<open>Writing into a buffer\<close>

text \<open>\<open>dst[i..i + src.len()].copy_from_slice(src)\<close>, and the single byte store \<open>dst[i] = b\<close>.\<close>

definition copy_from_slice :: "bytes \<Rightarrow> nat \<Rightarrow> bytes \<Rightarrow> bytes res" where
  "copy_from_slice dst i src =
     (if i + length src \<le> length dst
      then Inr (take i dst @ src @ drop (i + length src) dst) else Inl Panic)"

definition store :: "bytes \<Rightarrow> nat \<Rightarrow> byte \<Rightarrow> bytes res" where
  "store dst i b = (if i < length dst then Inr (dst[i := b]) else Inl Panic)"

lemma store_copy: "store dst i b = copy_from_slice dst i [b]"
  by (simp add: store_def copy_from_slice_def upd_conv_take_nth_drop)

lemma copy_from_slice_split:
  assumes "length src = length mid" "i = length pre"
  shows "copy_from_slice (pre @ mid @ post) i src = Inr (pre @ src @ post)"
  using assms by (simp add: copy_from_slice_def)

lemma length_copy_from_slice:
  "copy_from_slice dst i src = Inr d \<Longrightarrow> length d = length dst"
  by (auto simp: copy_from_slice_def split: if_splits)


subsection \<open>Stateful calls\<close>

text \<open>A method with \<open>&mut self\<close>: the result and the new state; the state changes of a call that fails
  stay. \<open>outcome I m X\<close> says that, from every state with \<open>I\<close>, the call ends in a state with \<open>I\<close> and with a
  result in \<open>X\<close>; \<open>total I m\<close> that it neither panics nor errs. The rules in \<open>outcome_intros\<close> follow
  the structure of a program.\<close>

type_synonym ('s, 'a) prog = "'s \<Rightarrow> 'a res \<times> 's"

definition bind_st :: "('s, 'a) prog \<Rightarrow> ('a \<Rightarrow> ('s, 'b) prog) \<Rightarrow> ('s, 'b) prog" where
  "bind_st m f = (\<lambda>s. case m s of (Inl e, s') \<Rightarrow> (Inl e, s') | (Inr x, s') \<Rightarrow> f x s')"

definition return_st :: "'a \<Rightarrow> ('s, 'a) prog" where
  "return_st x = (\<lambda>s. (Inr x, s))"

definition lift_res :: "'a res \<Rightarrow> ('s, 'a) prog" where
  "lift_res r = (\<lambda>s. (r, s))"

definition pure_st :: "('s \<Rightarrow> 'a \<times> 's) \<Rightarrow> ('s, 'a) prog" where
  "pure_st f = (\<lambda>s. case f s of (x, s') \<Rightarrow> (Inr x, s'))"

named_theorems outcome_intros \<open>rules for the outcome of stateful calls\<close>

definition outcome :: "('s \<Rightarrow> bool) \<Rightarrow> ('s, 'a) prog \<Rightarrow> ('a res \<Rightarrow> bool) \<Rightarrow> bool" where
  "outcome I m X \<longleftrightarrow> (\<forall>s. I s \<longrightarrow> X (fst (m s)) \<and> I (snd (m s)))"

definition total :: "('s \<Rightarrow> bool) \<Rightarrow> ('s, 'a) prog \<Rightarrow> bool" where
  "total I m \<longleftrightarrow> outcome I m (\<lambda>r. \<exists>x. r = Inr x)"

lemma outcomeI: "(\<And>s. I s \<Longrightarrow> X (fst (m s)) \<and> I (snd (m s))) \<Longrightarrow> outcome I m X"
  by (simp add: outcome_def)

lemma outcomeD: "outcome I m X \<Longrightarrow> I s \<Longrightarrow> X (fst (m s)) \<and> I (snd (m s))"
  by (simp add: outcome_def)

lemma outcome_bind [outcome_intros]:
  "total I m \<Longrightarrow> (\<And>x. outcome I (f x) X) \<Longrightarrow> outcome I (bind_st m f) X"
  unfolding outcome_def total_def bind_st_def by (force split: prod.splits sum.splits)

lemma outcome_return [outcome_intros]: "X (Inr x) \<Longrightarrow> outcome I (return_st x) X"
  by (simp add: outcome_def return_st_def)

lemma outcome_lift [outcome_intros]: "X r \<Longrightarrow> outcome I (lift_res r) X"
  by (simp add: outcome_def lift_res_def)

lemma outcome_if [outcome_intros]:
  "(b \<Longrightarrow> outcome I m X) \<Longrightarrow> (\<not> b \<Longrightarrow> outcome I m' X) \<Longrightarrow> outcome I (if b then m else m') X"
  by simp

lemma total_pure [outcome_intros]: "(\<And>s. I s \<Longrightarrow> I (snd (f s))) \<Longrightarrow> total I (pure_st f)"
  by (force simp: total_def outcome_def pure_st_def split: prod.splits)

lemma total_return [outcome_intros]: "total I (return_st x)"
  by (simp add: total_def outcome_def return_st_def)

lemma total_if [outcome_intros]:
  "(b \<Longrightarrow> total I m) \<Longrightarrow> (\<not> b \<Longrightarrow> total I m') \<Longrightarrow> total I (if b then m else m')"
  by simp

lemma total_bind [outcome_intros]: "total I m \<Longrightarrow> (\<And>x. total I (f x)) \<Longrightarrow> total I (bind_st m f)"
  unfolding total_def by (rule outcome_bind[unfolded total_def])

lemma bind_st_return [simp]: "bind_st (return_st x) f = f x"
  by (simp add: bind_st_def return_st_def)

lemma bind_st_assoc: "bind_st (bind_st m f) g = bind_st m (\<lambda>x. bind_st (f x) g)"
  by (auto simp: bind_st_def fun_eq_iff split: prod.splits sum.splits)

subsection \<open>Step relations\<close>

text \<open>An invariant of the threads of a program, whose steps interleave.\<close>

locale step_invariant =
  fixes step :: "'s \<Rightarrow> 's \<Rightarrow> bool" and inv :: "'s \<Rightarrow> bool"
  assumes kept: "inv s \<Longrightarrow> step s s' \<Longrightarrow> inv s'"
begin

lemma reachable: "step\<^sup>*\<^sup>* s s' \<Longrightarrow> inv s \<Longrightarrow> inv s'"
  by (induction rule: rtranclp_induct) (auto intro: kept)

end

end
