(* ===== verification/Driver_Wire.thy ===== *)
theory Driver_Wire
  imports Elkeid_Prelude
begin

unbundle bit_operations_syntax

section \<open>The record encoder of the driver plugin\<close>

text \<open>
  \<open>encode_varint\<close>, \<open>encoded_varint_len\<close> and \<open>protobuf_encode\<close> of
  \<^verbatim>\<open>src/plugins/driver/src/transformer.rs\<close>. The encoder fills its buffer from the end: it computes the
  frame's length, then walks backwards with \<open>index\<close>, writing values, keys, entry headers, the
  record header and last the four length bytes. The lemmas show that every backward write is a
  \<open>prepend\<close>, that the frame is the protocol buffer encoding of the record (the specification
  \<open>frame\<close>), and that a decoder of that format returns the record.
\<close>

subsection \<open>Varints\<close>

text \<open>The \<open>while\<close> loop of \<open>encode_varint\<close>; \<open>i\<close> is the loop variable, \<open>dst\<close> the slice.\<close>

lemma unat_drop7: "unat (drop_bit 7 (n :: u64)) = unat n div 128"
  by (simp add: drop_bit_eq_div unat_div)

function encode_varint_loop :: "u64 \<Rightarrow> bytes \<Rightarrow> nat \<Rightarrow> (bytes \<times> nat) res" where
  "encode_varint_loop n dst i =
     (if 128 \<le> n
      then bind_res (store dst i (128 OR ucast n)) (\<lambda>dst. encode_varint_loop (drop_bit 7 n) dst (i + 1))
      else bind_res (store dst i (ucast n)) (\<lambda>dst. Inr (dst, i + 1)))"
  by pat_completeness auto
termination
  by (relation "measure (\<lambda>(n, dst, i). unat n)") (auto simp: unat_drop7 word_le_nat_alt)

declare encode_varint_loop.simps [simp del]

definition encode_varint :: "u64 \<Rightarrow> bytes \<Rightarrow> (bytes \<times> nat) res" where
  "encode_varint n dst = encode_varint_loop n dst 0"

text \<open>\<open>u64::leading_zeros\<close>, and the closed formula for the length of a varint, in \<open>u32\<close> arithmetic
  as in the code.\<close>

definition leading_zeros :: "u64 \<Rightarrow> u32" where
  "leading_zeros n = of_nat (length (takeWhile Not (map (bit n) (rev [0..<64]))))"

definition encoded_varint_len :: "u64 \<Rightarrow> nat" where
  "encoded_varint_len n = unat ((((leading_zeros (n OR 1)) XOR 63) * 9 + 73) div 64)"

text \<open>The specification: base 128 digits, least significant first, all but the last marked.\<close>

fun varint :: "nat \<Rightarrow> bytes" where
  "varint n = (if n < 128 then [of_nat n] else of_nat (n mod 128 + 128) # varint (n div 128))"

declare varint.simps [simp del]

fun decode_varint :: "bytes \<Rightarrow> (nat \<times> bytes) option" where
  "decode_varint [] = None"
| "decode_varint (b # bs) =
     (if unat b < 128 then Some (unat b, bs)
      else case decode_varint bs of None \<Rightarrow> None
           | Some (n, rest) \<Rightarrow> Some (unat b - 128 + 128 * n, rest))"

lemma varint_not_Nil [simp]: "varint n \<noteq> []"
  by (subst varint.simps) simp

lemma decode_varint_varint [simp]: "decode_varint (varint n @ rest) = Some (n, rest)"
proof (induction n rule: varint.induct)
  case (1 n)
  have small: "unat (of_nat m :: byte) = m" if "m < 256" for m
    using that by (simp add: unat_of_nat)
  show ?case
  proof (cases "n < 128")
    case True
    then show ?thesis by (subst varint.simps) (simp add: small)
  next
    case False
    have "unat (of_nat (n mod 128 + 128) :: byte) = n mod 128 + 128"
      by (rule small) (use mod_less_divisor[of 128 n] in linarith)
    then show ?thesis
      using False 1 by (subst varint.simps) (simp add: mult.commute)
  qed
qed

lemma nat_or_128: "(128::nat) OR take_bit 8 m = take_bit 7 m + 128"
proof -
  have b: "bit (128::nat) k \<longleftrightarrow> k = 7" for k
    using bit_exp_iff[where 'a=nat, of 7 k] by auto
  have k: "k < 8 \<longleftrightarrow> k < 7 \<or> k = 7" for k :: nat
    by auto
  have "(128::nat) OR take_bit 8 m = take_bit 7 m OR 128"
    by (rule bit_eqI) (simp only: bit_or_iff bit_take_bit_iff b k, blast)
  also have "\<dots> = take_bit 7 m + 128"
    by (rule disjunctive_add_eq_or[symmetric], rule bit_eqI) (auto simp: bit_and_iff bit_take_bit_iff b)
  finally show ?thesis .
qed

lemma continuation_byte: "128 OR ucast (n :: u64) = (of_nat (unat n mod 128 + 128) :: byte)"
proof -
  have "unat (128 OR ucast n :: byte) = (128::nat) OR take_bit 8 (unat n)"
    by (simp add: unsigned_or_eq unsigned_ucast_eq)
  also have "\<dots> = unat n mod 128 + 128"
    by (simp only: nat_or_128) (simp add: take_bit_eq_mod)
  finally show ?thesis
    by (metis of_nat_unat ucast_id)
qed

lemma encode_varint_loop_split:
  assumes "length mid = length (varint (unat n))" "i = length pre"
  shows "encode_varint_loop n (pre @ mid @ post) i = Inr (pre @ varint (unat n) @ post, i + length (varint (unat n)))"
  using assms
proof (induction n "pre @ mid @ post" i arbitrary: pre mid rule: encode_varint_loop.induct)
  case (1 n i)
  show ?case
  proof (cases "128 \<le> n")
    case True
    then have n: "\<not> unat n < 128" by (simp add: word_le_nat_alt)
    have v: "varint (unat n) = (128 OR ucast n) # varint (unat (drop_bit 7 n))"
      using n by (subst varint.simps) (simp add: continuation_byte unat_drop7)
    then obtain x mid' where mid: "mid = x # mid'" "length mid' = length (varint (unat (drop_bit 7 n)))"
      using 1(2) by (cases mid) auto
    have st: "store (pre @ mid @ post) i (128 OR ucast n) = Inr ((pre @ [128 OR ucast n]) @ mid' @ post)"
      using 1(3) mid by (simp add: store_def)
    have "encode_varint_loop (drop_bit 7 n) ((pre @ [128 OR ucast n]) @ mid' @ post) (i + 1) =
        Inr ((pre @ [128 OR ucast n]) @ varint (unat (drop_bit 7 n)) @ post,
             i + 1 + length (varint (unat (drop_bit 7 n))))"
      by (rule 1(1)) (use True mid 1(3) in auto)
    then show ?thesis
      using True st v by (subst encode_varint_loop.simps) simp
  next
    case False
    then have n: "unat n < 128" by (simp add: word_le_nat_alt)
    have v: "varint (unat n) = [ucast n]"
      using n by (subst varint.simps) simp
    then obtain x where "mid = [x]"
      using 1(2) by (cases mid) auto
    then show ?thesis
      using False v 1(3) by (subst encode_varint_loop.simps) (simp add: store_def)
  qed
qed


lemma encode_varint_split:
  assumes "length mid = length (varint (unat n))"
  shows "encode_varint n (mid @ post) = Inr (varint (unat n) @ post, length (varint (unat n)))"
  using encode_varint_loop_split[of mid n 0 "[]" post] assms by (simp add: encode_varint_def)

lemma encode_varint_loop_small:
  assumes "length dst < i + length (varint (unat n))"
  shows "encode_varint_loop n dst i = Inl Panic"
  using assms
proof (induction n dst i rule: encode_varint_loop.induct)
  case (1 n dst i)
  show ?case
  proof (cases "128 \<le> n")
    case True
    then have n: "\<not> unat n < 128" by (simp add: word_le_nat_alt)
    have "varint (unat n) = (128 OR ucast n) # varint (unat (drop_bit 7 n))"
      using n by (subst varint.simps) (simp add: continuation_byte unat_drop7)
    then show ?thesis
      using 1 True by (subst encode_varint_loop.simps) (simp add: store_def)
  next
    case False
    then have "varint (unat n) = [ucast n]"
      by (subst varint.simps) (simp add: word_le_nat_alt)
    then show ?thesis
      using 1 False by (subst encode_varint_loop.simps) (simp add: store_def)
  qed
qed

subsection \<open>The length formula\<close>

lemma varint_length:
  assumes "2 ^ k \<le> n" "n < 2 ^ Suc k"
  shows "length (varint n) = k div 7 + 1"
  using assms
proof (induction n arbitrary: k rule: varint.induct)
  case (1 n)
  show ?case
  proof (cases "n < 128")
    case True
    have "(2::nat) ^ k < 2 ^ 7" using 1(2) True by simp
    then have "k < 7" by (simp only: power_strict_increasing_iff one_less_numeral_iff semiring_norm)
    then show ?thesis using True by (subst varint.simps) simp
  next
    case False
    have "(2::nat) ^ 7 < 2 ^ Suc k" using 1(3) False by simp
    then have "7 \<le> k" by (simp only: power_strict_increasing_iff one_less_numeral_iff semiring_norm)
    then obtain j where k: "k = j + 7" by (metis add.commute le_Suc_ex)
    have "length (varint (n div 128)) = j div 7 + 1"
      by (rule 1(1)[OF False]) (use 1(2,3) k in \<open>auto simp: power_add less_mult_imp_div_less div_le_mono mult.commute\<close>)
    then show ?thesis using False k by (subst varint.simps) simp
  qed
qed

lemma unat_or_1: "unat (n OR 1 :: u64) = unat n + of_bool (even (unat n))"
proof -
  have "unat (n OR 1) = unat n OR 1" by (simp only: unsigned_or_eq unsigned_1)
  then show ?thesis by (simp only: or_one_eq)
qed

lemma varint_length_or_1: "length (varint (unat (n OR 1 :: u64))) = length (varint (unat n))"
proof -
  have h: "unat (n OR 1) div 2 = unat n div 2" unfolding unat_or_1 by simp
  have d: "unat (n OR 1) div 128 = unat n div 128"
    using arg_cong[OF h, of "\<lambda>x. x div 64"] by (simp add: div_mult2_eq[symmetric])
  then have l: "unat (n OR 1) < 128 \<longleftrightarrow> unat n < 128"
    by (metis div_eq_0_iff zero_neq_numeral)
  show ?thesis
    by (subst (1 2) varint.simps) (simp add: d l)
qed

lemma leading_zeros_eq:
  assumes "2 ^ k \<le> unat n" "unat n < 2 ^ Suc k" "k < 64"
  shows "leading_zeros n = 63 - of_nat k"
proof -
  have bit_nat: "bit n j = bit (unat n) j" for j
    by (simp add: bit_unsigned_iff)
  have bit_k: "bit n k"
  proof -
    have "unat n div 2 ^ k = 1"
      using assms(1,2) by (intro div_nat_eqI) simp_all
    then show ?thesis unfolding bit_nat by (simp only: bit_iff_odd) simp
  qed
  have above: "\<not> bit n j" if "k < j" for j
  proof -
    have "(2::nat) ^ Suc k \<le> 2 ^ j" using that by (intro power_increasing) auto
    then have "unat n div 2 ^ j = 0" using assms(2) by simp
    then show ?thesis unfolding bit_nat by (simp only: bit_iff_odd) simp
  qed
  have "[0..<64] = [0..<k] @ [k..<64]"
    using upt_add_eq_append[of 0 k "64 - k"] assms(3) by simp
  then have split: "rev [0..<64] = rev [Suc k..<64] @ k # rev [0..<k]"
    by (simp only: upt_conv_Cons[OF assms(3)] rev_append rev.simps append_assoc append_Cons append_Nil)
  have "takeWhile Not (map (bit n) (rev [0..<64])) = map (bit n) (rev [Suc k..<64])"
    unfolding split using bit_k above by (subst map_append, subst takeWhile_append2) auto
  then have "leading_zeros n = of_nat (63 - k)"
    by (simp only: leading_zeros_def length_map length_rev length_upt) simp
  then show ?thesis using assms(3) by (simp add: of_nat_diff)
qed

lemma length_formula:
  assumes "k < 64"
  shows "unat ((((63 - of_nat k :: u32) XOR 63) * 9 + 73) div 64) = k div 7 + 1"
proof -
  have "\<forall>k \<in> set [0..<64]. unat ((((63 - of_nat k :: u32) XOR 63) * 9 + 73) div 64) = k div 7 + 1"
    by code_simp
  then show ?thesis using assms by (simp only: set_upt Ball_def atLeastLessThan_iff) simp
qed

lemma log2_exists: "0 < n \<Longrightarrow> \<exists>k. 2 ^ k \<le> n \<and> n < 2 ^ Suc k" for n :: nat
  using ex_power_ivl1[of 2 n] by (simp add: Suc_le_eq)

lemma pow_le_u64: "(2::nat) ^ k \<le> unat (m :: u64) \<Longrightarrow> k < 64"
proof -
  assume a: "(2::nat) ^ k \<le> unat m"
  have "unat m < 2 ^ 64" using unsigned_less[of m, where 'a=nat] by simp
  with a have "(2::nat) ^ k < 2 ^ 64" by (rule le_less_trans)
  then show "k < 64" by (rule power_less_imp_less_exp[rotated]) simp
qed

lemma encoded_varint_len_varint [simp]: "encoded_varint_len n = length (varint (unat n))"
proof -
  have pos: "0 < unat (n OR 1)"
    unfolding unat_or_1 by (cases "unat n = 0") auto
  obtain k where k: "2 ^ k \<le> unat (n OR 1)" "unat (n OR 1) < 2 ^ Suc k"
    using log2_exists[OF pos] by blast
  note k64 = pow_le_u64[OF k(1)]
  have "encoded_varint_len n = k div 7 + 1"
    by (simp only: encoded_varint_len_def leading_zeros_eq[OF k k64] length_formula[OF k64])
  also have "\<dots> = length (varint (unat n))"
    by (simp only: varint_length[OF k] varint_length_or_1[of n, symmetric])
  finally show ?thesis .
qed

subsection \<open>The encoder\<close>

text \<open>\<open>encode_varint(n, &mut dst[index..])\<close>, and the three statement pairs with which the encoder walks
  backwards: \<open>index -= ...\<close> followed by a copy, a varint or a byte store at \<open>index\<close>.\<close>

definition encode_varint_at :: "bytes \<Rightarrow> nat \<Rightarrow> u64 \<Rightarrow> bytes res" where
  "encode_varint_at dst index n =
     (if index \<le> length dst
      then bind_res (encode_varint n (drop index dst)) (\<lambda>(s, _). Inr (take index dst @ s))
      else Inl Panic)"

definition put_slice :: "bytes \<Rightarrow> bytes \<times> nat \<Rightarrow> (bytes \<times> nat) res" where
  "put_slice v = (\<lambda>(dst, index).
     bind_res (usub index (length v)) (\<lambda>index.
     bind_res (copy_from_slice dst index v) (\<lambda>dst. Inr (dst, index))))"

definition put_varint :: "u64 \<Rightarrow> bytes \<times> nat \<Rightarrow> (bytes \<times> nat) res" where
  "put_varint n = (\<lambda>(dst, index).
     bind_res (usub index (encoded_varint_len n)) (\<lambda>index.
     bind_res (encode_varint_at dst index n) (\<lambda>dst. Inr (dst, index))))"

definition put_byte :: "byte \<Rightarrow> bytes \<times> nat \<Rightarrow> (bytes \<times> nat) res" where
  "put_byte b = (\<lambda>(dst, index).
     bind_res (usub index 1) (\<lambda>index.
     bind_res (store dst index b) (\<lambda>dst. Inr (dst, index))))"

definition entry_len :: "bytes \<Rightarrow> bytes \<Rightarrow> nat" where
  "entry_len k v =
     1 + length k + encoded_varint_len (of_nat (length k)) +
     1 + length v + encoded_varint_len (of_nat (length v))"

fun map_length_loop :: "bytes list \<Rightarrow> bytes list \<Rightarrow> nat \<Rightarrow> nat res" where
  "map_length_loop [] vals map_length = Inr map_length"
| "map_length_loop (k # keys) [] map_length = Inl Panic"
| "map_length_loop (k # keys) (v # vals) map_length =
     (let entry_length = entry_len k v
      in map_length_loop keys vals
           (map_length + (1 + entry_length + encoded_varint_len (of_nat entry_length))))"

definition write_entry :: "bytes \<Rightarrow> bytes \<Rightarrow> bytes \<times> nat \<Rightarrow> (bytes \<times> nat) res" where
  "write_entry k v st =
     (let base_index = snd st in
      bind_res (put_slice v st) (\<lambda>st.
      bind_res (put_varint (of_nat (length v)) st) (\<lambda>st.
      bind_res (put_byte 0x12 st) (\<lambda>st.
      bind_res (put_slice k st) (\<lambda>st.
      bind_res (put_varint (of_nat (length k)) st) (\<lambda>st.
      bind_res (put_byte 0xa st) (\<lambda>st.
      bind_res (usub base_index (snd st)) (\<lambda>entry_length.
      bind_res (put_varint (of_nat entry_length) st) (\<lambda>st.
      put_byte 0xa st)))))))))"

fun write_entries :: "bytes list \<Rightarrow> bytes list \<Rightarrow> bytes \<times> nat \<Rightarrow> (bytes \<times> nat) res" where
  "write_entries [] vals st = Inr st"
| "write_entries (k # keys) [] st = Inl Panic"
| "write_entries (k # keys) (v # vals) st =
     bind_res (write_entry k v st) (\<lambda>st. write_entries keys vals st)"

definition u32_to_le_bytes :: "u32 \<Rightarrow> bytes" where
  "u32_to_le_bytes n = map (\<lambda>i. ucast (drop_bit (8 * i) n)) [0..<4]"

text \<open>\<open>protobuf_encode\<close>: the result is the buffer after the call and the returned length.\<close>

definition protobuf_encode :: "u64 \<Rightarrow> bytes list \<Rightarrow> bytes list \<Rightarrow> bytes \<Rightarrow> u64 \<Rightarrow> (bytes \<times> nat) res" where
  "protobuf_encode timestamp keys vals dst data_type =
    (let needed_length = 0;
         needed_length = (if 0 < data_type then needed_length + (3 + encoded_varint_len data_type)
                          else needed_length);
         needed_length = (if 0 < timestamp then needed_length + (3 + encoded_varint_len timestamp)
                          else needed_length) in
     bind_res (map_length_loop keys vals 0) (\<lambda>map_length.
     let needed_length = (if 0 < length keys
           then needed_length + (1 + map_length + encoded_varint_len (of_nat map_length))
           else needed_length) in
     if length dst < needed_length then Inl (Err WriteZero)
     else
       bind_res (if 0 < length keys
                 then bind_res (write_entries keys vals (dst, needed_length))
                        (\<lambda>st. put_varint (of_nat map_length) st)
                 else Inr (dst, needed_length)) (\<lambda>st.
       bind_res (put_byte 0x1a st) (\<lambda>st.
       bind_res (if timestamp \<noteq> 0
                 then bind_res (put_varint timestamp st) (\<lambda>st. put_byte 0x10 st)
                 else Inr st) (\<lambda>st.
       bind_res (put_varint data_type st) (\<lambda>(dst, index).
       bind_res (store dst 4 0x8) (\<lambda>dst.
       bind_res (usub needed_length 4) (\<lambda>body_length.
       bind_res (copy_from_slice dst 0 (u32_to_le_bytes (of_nat body_length))) (\<lambda>dst.
       Inr (dst, needed_length))))))))))"


subsection \<open>Backward writes are prepends\<close>

definition fits :: "bytes \<times> nat \<Rightarrow> bool" where
  "fits st \<longleftrightarrow> snd st \<le> length (fst st)"

definition prepend :: "bytes \<Rightarrow> bytes \<times> nat \<Rightarrow> (bytes \<times> nat) res" where
  "prepend b st = (if length b \<le> snd st
     then Inr (take (snd st - length b) (fst st) @ b @ drop (snd st) (fst st), snd st - length b)
     else Inl Panic)"

lemma prepend_prepend:
  "fits st \<Longrightarrow> bind_res (prepend b st) (prepend a) = prepend (a @ b) st"
  by (auto simp: prepend_def fits_def min_def add.commute)

lemma prepend_fits: "prepend b st = Inr st' \<Longrightarrow> fits st \<Longrightarrow> fits st'"
  by (auto simp: prepend_def fits_def split: if_splits)

lemma put_slice_prepend: "fits st \<Longrightarrow> put_slice v st = prepend v st"
  by (cases st) (auto simp: put_slice_def prepend_def usub_def copy_from_slice_def fits_def)

lemma put_byte_prepend: "fits st \<Longrightarrow> put_byte b st = prepend [b] st"
  by (cases st) (auto simp: put_byte_def prepend_def usub_def store_copy copy_from_slice_def fits_def)

lemma encode_varint_at_ok:
  assumes "index + length (varint (unat n)) \<le> length dst"
  shows "encode_varint_at dst index n =
    Inr (take index dst @ varint (unat n) @ drop (index + length (varint (unat n))) dst)"
proof -
  let ?v = "varint (unat n)"
  have "drop index dst = take (length ?v) (drop index dst) @ drop (index + length ?v) dst"
    by (metis append_take_drop_id drop_drop add.commute)
  then have "encode_varint n (drop index dst) = Inr (?v @ drop (index + length ?v) dst, length ?v)"
    using encode_varint_split[of "take (length ?v) (drop index dst)" n "drop (index + length ?v) dst"] assms
    by simp
  then show ?thesis using assms by (simp add: encode_varint_at_def)
qed

lemma put_varint_prepend: "fits st \<Longrightarrow> put_varint n st = prepend (varint (unat n)) st"
  by (cases st) (auto simp: put_varint_def prepend_def usub_def encode_varint_at_ok fits_def)

lemma bind_prepend_cong:
  assumes "fits st" "\<And>st'. fits st' \<Longrightarrow> f st' = prepend a st'"
  shows "bind_res (prepend b st) (\<lambda>st. bind_res (f st) k) = bind_res (prepend (a @ b) st) k"
    and "bind_res (prepend b st) f = prepend (a @ b) st"
proof -
  have "bind_res (prepend b st) f = bind_res (prepend b st) (prepend a)"
    using assms prepend_fits[of b st] by (cases "prepend b st") auto
  then show e: "bind_res (prepend b st) f = prepend (a @ b) st"
    using prepend_prepend[OF assms(1)] by simp
  show "bind_res (prepend b st) (\<lambda>st. bind_res (f st) k) = bind_res (prepend (a @ b) st) k"
    using e by (simp flip: bind_res_assoc)
qed

lemmas put_prepend [wire_simps] =
  bind_prepend_cong[OF _ put_slice_prepend] bind_prepend_cong[OF _ put_varint_prepend]
  bind_prepend_cong[OF _ put_byte_prepend]
  put_slice_prepend put_varint_prepend put_byte_prepend

lemma bind_prepend_usub [wire_simps]:
  "bind_res (prepend b st) (\<lambda>st'. bind_res (usub (snd st) (snd st')) (\<lambda>len. k len st')) =
   bind_res (prepend b st) (k (length b))"
  by (auto simp: prepend_def)

definition entry_body :: "bytes \<Rightarrow> bytes \<Rightarrow> bytes" where
  "entry_body k v = 0xa # varint (length k) @ k @ 0x12 # varint (length v) @ v"

definition entry :: "bytes \<Rightarrow> bytes \<Rightarrow> bytes" where
  "entry k v = 0xa # varint (length (entry_body k v)) @ entry_body k v"

lemma unat_len: "n < 2 ^ 64 \<Longrightarrow> unat (of_nat n :: u64) = n"
  by (simp add: unat_of_nat)

lemma entry_sizes:
  assumes "length (entry k v) < 2 ^ 64"
  shows "length k < 2 ^ 64" "length v < 2 ^ 64" "length (entry_body k v) < 2 ^ 64"
  using assms by (simp_all add: entry_def entry_body_def)

lemma entry_len_eq:
  assumes "length (entry k v) < 2 ^ 64"
  shows "1 + entry_len k v + encoded_varint_len (of_nat (entry_len k v)) = length (entry k v)"
proof -
  have "entry_len k v = length (entry_body k v)"
    using entry_sizes[OF assms] by (simp add: entry_len_def entry_body_def unat_len)
  then show ?thesis using entry_sizes[OF assms] by (simp add: entry_def unat_len)
qed

lemma write_entry_prepend:
  assumes "fits st" "length (entry k v) < 2 ^ 64"
  shows "write_entry k v st = prepend (entry k v) st"
proof -
  note sz = entry_sizes[OF assms(2)]
  have "write_entry k v st =
    bind_res (prepend (entry_body k v) st) (\<lambda>st'.
      bind_res (usub (snd st) (snd st')) (\<lambda>entry_length.
      bind_res (put_varint (of_nat entry_length) st') (\<lambda>st. put_byte 0xa st)))"
    using assms(1) sz by (simp add: write_entry_def wire_simps unat_len entry_body_def)
  also have "\<dots> = prepend (entry k v) st"
    using assms(1) sz by (simp add: wire_simps unat_len entry_def)
  finally show ?thesis .
qed


subsection \<open>The frame\<close>

text \<open>The specification: field 1 the data type, field 2 the timestamp, field 3 the payload, a map of
  the keys to their values; the map's entries come out in the reverse order of the keys, because the
  encoder writes them from the back. The frame is the payload after its four byte length.\<close>

definition map_bytes :: "bytes list \<Rightarrow> bytes list \<Rightarrow> bytes" where
  "map_bytes keys vals = concat (rev (map (\<lambda>(k, v). entry k v) (zip keys vals)))"

definition record_bytes :: "u64 \<Rightarrow> bytes list \<Rightarrow> bytes list \<Rightarrow> u64 \<Rightarrow> bytes" where
  "record_bytes timestamp keys vals data_type =
     0x8 # varint (unat data_type) @ 0x10 # varint (unat timestamp) @
     0x1a # varint (length (map_bytes keys vals)) @ map_bytes keys vals"

definition frame :: "u64 \<Rightarrow> bytes list \<Rightarrow> bytes list \<Rightarrow> u64 \<Rightarrow> bytes" where
  "frame timestamp keys vals data_type =
     (let body = record_bytes timestamp keys vals data_type
      in u32_to_le_bytes (of_nat (length body)) @ body)"

lemma map_bytes_Nil [simp]: "map_bytes [] vs = []"
  by (simp add: map_bytes_def)

lemma map_bytes_Cons [simp]: "map_bytes (k # ks) (v # vs) = map_bytes ks vs @ entry k v"
  by (simp add: map_bytes_def)

lemma length_u32_to_le_bytes [simp]: "length (u32_to_le_bytes n) = 4"
  by (simp add: u32_to_le_bytes_def)

lemma map_length_loop_ok:
  assumes "length keys \<le> length vals" "length (map_bytes keys vals) < 2 ^ 64"
  shows "map_length_loop keys vals n = Inr (n + length (map_bytes keys vals))"
  using assms
proof (induction keys vals n rule: map_length_loop.induct)
  case (3 k keys v vals n)
  have "length (entry k v) < 2 ^ 64" using 3(3) by simp
  note e = entry_len_eq[OF this]
  have "map_length_loop keys vals (n + length (entry k v)) =
      Inr (n + length (entry k v) + length (map_bytes keys vals))"
    using 3(1)[OF refl] 3(2,3) unfolding e by simp
  then show ?case by (simp only: map_length_loop.simps Let_def e) simp
qed simp_all

lemma map_length_loop_panic:
  "length vals < length keys \<Longrightarrow> map_length_loop keys vals n = Inl Panic"
  by (induction keys vals n rule: map_length_loop.induct) (simp_all add: Let_def)

lemma write_entries_prepend:
  assumes "length keys \<le> length vals" "length (map_bytes keys vals) < 2 ^ 64" "fits st"
  shows "write_entries keys vals st = prepend (map_bytes keys vals) st"
  using assms
proof (induction keys vals st rule: write_entries.induct)
  case (1 vals st)
  then show ?case by (simp add: prepend_def)
next
  case (3 k keys v vals st)
  have "write_entry k v st = prepend (entry k v) st"
    by (rule write_entry_prepend) (use 3 in simp_all)
  moreover have "write_entries keys vals st' = prepend (map_bytes keys vals) st'"
    if "prepend (entry k v) st = Inr st'" for st'
    using 3 that calculation prepend_fits by auto
  ultimately have "write_entries (k # keys) (v # vals) st =
      bind_res (prepend (entry k v) st) (prepend (map_bytes keys vals))"
    by (cases "prepend (entry k v) st") auto
  then show ?case using prepend_prepend[OF 3(4)] by simp
qed simp

lemma length_frame: "length (frame timestamp keys vals data_type) =
    7 + length (varint (unat data_type)) + length (varint (unat timestamp)) +
    length (varint (length (map_bytes keys vals))) + length (map_bytes keys vals)"
  by (simp add: frame_def record_bytes_def Let_def)

text \<open>The last three writes of the encoder, after the backward pass has stopped at offset 5.\<close>

lemma header_writes:
  assumes "5 + length t \<le> length dst" "N = 5 + length t"
  shows "bind_res (prepend t (dst, N)) (\<lambda>(dst, index).
       bind_res (store dst 4 0x8) (\<lambda>dst.
       bind_res (usub N 4) (\<lambda>body_length.
       bind_res (copy_from_slice dst 0 (u32_to_le_bytes (of_nat body_length))) (\<lambda>dst.
       Inr (dst, N))))) =
    Inr (u32_to_le_bytes (of_nat (Suc (length t))) @ 0x8 # t @ drop N dst, N)"
proof -
  have "take 5 dst = take 4 dst @ [dst ! 4]"
    using assms by (simp add: take_Suc_conv_app_nth[of 4 dst, simplified])
  moreover have "length (take 4 dst) = 4" using assms by simp
  ultimately show ?thesis
    using assms by (simp add: prepend_def store_def list_update_append copy_from_slice_def)
qed

lemma protobuf_encode_eq:
  assumes "data_type \<noteq> 0" "timestamp \<noteq> 0" "keys \<noteq> []" "length keys \<le> length vals"
    and "length (frame timestamp keys vals data_type) < 2 ^ 64"
  shows "protobuf_encode timestamp keys vals dst data_type =
    (let f = frame timestamp keys vals data_type in
     if length dst < length f then Inl (Err WriteZero) else Inr (f @ drop (length f) dst, length f))"
proof -
  let ?m = "map_bytes keys vals" and ?f = "frame timestamp keys vals data_type"
  let ?t = "varint (unat data_type) @ 0x10 # varint (unat timestamp) @ 0x1a # varint (length ?m) @ ?m"
  have m: "length ?m < 2 ^ 64" using assms(5) length_frame[of timestamp keys vals data_type] by linarith
  have needed: "3 + encoded_varint_len data_type + (3 + encoded_varint_len timestamp) +
      (1 + length ?m + encoded_varint_len (of_nat (length ?m))) = length ?f"
    by (simp add: length_frame unat_len[OF m])
  have pos: "0 < data_type" "0 < timestamp" "0 < length keys"
    using assms(1-3) by (auto simp: word_neq_0_conv)
  have f: "?f = u32_to_le_bytes (of_nat (Suc (length ?t))) @ 0x8 # ?t"
    by (simp add: frame_def record_bytes_def Let_def)
  show ?thesis
  proof (cases "length dst < length ?f")
    case True
    then show ?thesis
      unfolding protobuf_encode_def Let_def map_length_loop_ok[OF assms(4) m]
      using pos needed by simp
  next
    case False
    then have fit: "fits (dst, length ?f)" by (simp add: fits_def)
    have "protobuf_encode timestamp keys vals dst data_type =
      bind_res (prepend ?t (dst, length ?f)) (\<lambda>(dst, index).
       bind_res (store dst 4 0x8) (\<lambda>dst.
       bind_res (usub (length ?f) 4) (\<lambda>body_length.
       bind_res (copy_from_slice dst 0 (u32_to_le_bytes (of_nat body_length))) (\<lambda>dst.
       Inr (dst, length ?f)))))"
      unfolding protobuf_encode_def Let_def map_length_loop_ok[OF assms(4) m]
      using pos assms(2) False needed
      by (simp add: write_entries_prepend[OF assms(4) m fit] put_prepend fit unat_len[OF m] bind_res_assoc
          del: encoded_varint_len_varint)
    also have "\<dots> = Inr (?f @ drop (length ?f) dst, length ?f)"
      by (subst header_writes) (use False f in \<open>simp_all\<close>)
    finally show ?thesis using False by (simp add: Let_def)
  qed
qed


text \<open>The same without a bound on the strings, for buffers and key lists of a realistic size: when the
  strings alone exceed the buffer the encoder returns \<open>WriteZero\<close>, otherwise the frame is short enough for
  the \<open>u64\<close> arithmetic to be exact.\<close>

definition payload_size :: "bytes list \<Rightarrow> bytes list \<Rightarrow> nat" where
  "payload_size keys vals = (\<Sum>(k, v) \<leftarrow> zip keys vals. length k + length v)"

lemma length_varint_le: "length (varint n) \<le> n + 1"
proof (induction n rule: varint.induct)
  case (1 n)
  show ?case
  proof (cases "n < 128")
    case False
    then have "length (varint (n div 128)) \<le> n div 128 + 1" using 1 by blast
    moreover have "n div 128 + 1 \<le> n" using False by linarith
    ultimately show ?thesis using False by (subst varint.simps) simp
  qed (subst varint.simps, simp)
qed

lemma varint_length_10: "length (varint (unat (n :: u64))) \<le> 10"
proof (cases "unat n = 0")
  case False
  then obtain k where k: "2 ^ k \<le> unat n" "unat n < 2 ^ Suc k" using log2_exists by blast
  then have "length (varint (unat n)) = k div 7 + 1" by (rule varint_length)
  then show ?thesis using pow_le_u64[OF k(1)] by linarith
qed (subst varint.simps, simp)

lemma payload_le_map_bytes: "payload_size keys vals \<le> length (map_bytes keys vals)"
proof (induction keys arbitrary: vals)
  case (Cons k keys)
  show ?case
  proof (cases vals)
    case (Cons v vs)
    then show ?thesis using Cons.IH[of vs] by (simp add: payload_size_def entry_def entry_body_def)
  qed (simp add: payload_size_def)
qed (simp add: payload_size_def)

lemma map_length_loop_ge:
  "map_length_loop keys vals n = Inr r \<Longrightarrow> n + payload_size keys vals \<le> r"
proof (induction keys vals n rule: map_length_loop.induct)
  case (3 k keys v vals n)
  have "n + (1 + entry_len k v + encoded_varint_len (of_nat (entry_len k v))) + payload_size keys vals \<le> r"
    using 3(1)[OF refl] 3(2) by (simp add: Let_def)
  then show ?case by (simp add: payload_size_def entry_len_def)
qed (simp_all add: payload_size_def)

lemma map_length_loop_total:
  "length keys \<le> length vals \<Longrightarrow> \<exists>r. map_length_loop keys vals n = Inr r"
  by (induction keys vals n rule: map_length_loop.induct) (simp_all add: Let_def)

lemma length_map_bytes_le:
  "length keys \<le> length vals \<Longrightarrow> length (map_bytes keys vals) \<le> 4 * payload_size keys vals + 10 * length keys"
proof (induction keys arbitrary: vals)
  case (Cons k keys)
  obtain v vs where v: "vals = v # vs" using Cons.prems by (cases vals) auto
  have "length (entry_body k v) \<le> 2 * length k + 2 * length v + 4"
    using length_varint_le[of "length k"] length_varint_le[of "length v"] by (simp add: entry_body_def)
  then have "length (entry k v) \<le> 4 * (length k + length v) + 10"
    using length_varint_le[of "length (entry_body k v)"] by (simp add: entry_def)
  then show ?case using Cons.IH[of vs] Cons.prems v by (simp add: payload_size_def)
qed (simp add: payload_size_def)

lemma protobuf_encode_cases:
  assumes "data_type \<noteq> 0" "timestamp \<noteq> 0" "keys \<noteq> []" "length keys \<le> length vals"
    and "length keys \<le> 2 ^ 32" "length dst \<le> 2 ^ 32"
  shows "protobuf_encode timestamp keys vals dst data_type =
    (let f = frame timestamp keys vals data_type in
     if length dst < length f then Inl (Err WriteZero) else Inr (f @ drop (length f) dst, length f))"
proof (cases "payload_size keys vals \<le> length dst")
  case True
  have v: "length (varint (unat n)) \<le> 10" for n :: u64
    by (rule varint_length_10)
  have "length (map_bytes keys vals) \<le> 4 * 2 ^ 32 + 10 * 2 ^ 32"
    using length_map_bytes_le[OF assms(4)] True assms(5,6) by linarith
  then have "length (frame timestamp keys vals data_type) < 2 ^ 64"
    using v[of data_type] v[of timestamp] length_varint_le[of "length (map_bytes keys vals)"]
    by (simp add: length_frame)
  then show ?thesis by (rule protobuf_encode_eq[OF assms(1-4)])
next
  case False
  obtain r where r: "map_length_loop keys vals 0 = Inr r"
    using map_length_loop_total[OF assms(4)] by blast
  have "length dst < r" using map_length_loop_ge[OF r] False by simp
  then have "protobuf_encode timestamp keys vals dst data_type = Inl (Err WriteZero)"
    using assms(3) unfolding protobuf_encode_def r Let_def by simp
  moreover have "payload_size keys vals \<le> length (map_bytes keys vals)"
    by (rule payload_le_map_bytes)
  then have "length dst < length (frame timestamp keys vals data_type)"
    using False by (simp add: length_frame)
  ultimately show ?thesis by simp
qed

subsection \<open>A decoder of the format\<close>

text \<open>The protocol buffer wire format, for the two wire types that records use: a field is a tag
  (field number times 8 plus the wire type), then a varint (type 0) or a length and that many
  bytes (type 2).\<close>

datatype field = VarintField nat nat | BytesField nat bytes

definition decode_field :: "bytes \<Rightarrow> (field \<times> bytes) option" where
  "decode_field bs = (case decode_varint bs of None \<Rightarrow> None
     | Some (tag, bs) \<Rightarrow> (case decode_varint bs of None \<Rightarrow> None
       | Some (n, bs) \<Rightarrow>
           if tag mod 8 = 0 then Some (VarintField (tag div 8) n, bs)
           else if tag mod 8 = 2 \<and> n \<le> length bs then Some (BytesField (tag div 8) (take n bs), drop n bs)
           else None))"

lemma decode_varint_shorter: "decode_varint bs = Some (n, rest) \<Longrightarrow> length rest < length bs"
  by (induction bs arbitrary: n rest) (auto split: if_splits option.splits dest: less_SucI)

lemma decode_field_shorter: "decode_field bs = Some (f, rest) \<Longrightarrow> length rest < length bs"
  by (auto simp: decode_field_def split: option.splits if_splits dest!: decode_varint_shorter) linarith

function decode_fields :: "bytes \<Rightarrow> field list option" where
  "decode_fields bs = (if bs = [] then Some []
     else case decode_field bs of None \<Rightarrow> None
     | Some (f, rest) \<Rightarrow> map_option ((#) f) (decode_fields rest))"
  by pat_completeness auto
termination
  by (relation "measure length") (auto dest: decode_field_shorter)

declare decode_fields.simps [simp del]

fun decode_entry :: "field \<Rightarrow> (bytes \<times> bytes) option" where
  "decode_entry (BytesField n b) = (if n = 1 then
     (case decode_fields b of Some [BytesField i k, BytesField j v] \<Rightarrow>
        if i = 1 \<and> j = 2 then Some (k, v) else None
      | _ \<Rightarrow> None) else None)"
| "decode_entry _ = None"

definition decode_map :: "bytes \<Rightarrow> (bytes \<times> bytes) list option" where
  "decode_map b = Option.bind (decode_fields b)
     (\<lambda>fs. those (map decode_entry fs))"

definition decode_record :: "bytes \<Rightarrow> (nat \<times> nat \<times> (bytes \<times> bytes) list) option" where
  "decode_record b = (case decode_fields b of
     Some [VarintField i dt, VarintField j ts, BytesField k m] \<Rightarrow>
       if i = 1 \<and> j = 2 \<and> k = 3 then map_option (\<lambda>kvs. (dt, ts, kvs)) (decode_map m) else None
   | _ \<Rightarrow> None)"

definition u32_from_le_bytes :: "bytes \<Rightarrow> nat" where
  "u32_from_le_bytes bs = horner_sum unat 256 bs"

definition decode_frame :: "bytes \<Rightarrow> ((nat \<times> nat \<times> (bytes \<times> bytes) list) \<times> bytes) option" where
  "decode_frame bs = (let n = u32_from_le_bytes (take 4 bs) in
     if 4 + n \<le> length bs
     then map_option (\<lambda>r. (r, drop (4 + n) bs)) (decode_record (take n (drop 4 bs))) else None)"

lemma varint_small [simp]: "n < 128 \<Longrightarrow> varint n = [of_nat n]"
  by (subst varint.simps) simp

lemma decode_field_varint:
  "i < 16 \<Longrightarrow> b = of_nat (8 * i) \<Longrightarrow> decode_field (b # varint n @ rest) = Some (VarintField i n, rest)"
  using decode_varint_varint[of "8 * i" "varint n @ rest"] by (simp add: decode_field_def)

lemma decode_field_bytes:
  assumes "i < 15" "b = of_nat (8 * i + 2)"
  shows "decode_field (b # varint (length x) @ x @ rest) = Some (BytesField i x, rest)"
proof -
  have "varint (8 * i + 2) = [b]" using assms by simp
  then have "decode_varint (b # varint (length x) @ x @ rest) = Some (8 * i + 2, varint (length x) @ x @ rest)"
    using decode_varint_varint[of "8 * i + 2" "varint (length x) @ x @ rest"] by simp
  moreover have "(8 * i + 2) mod 8 = 2" "(8 * i + 2) div 8 = i" by presburger+
  ultimately show ?thesis by (simp add: decode_field_def)
qed

lemma decode_fields_step:
  "decode_field bs = Some (f, rest) \<Longrightarrow> decode_fields bs = map_option ((#) f) (decode_fields rest)"
  by (subst decode_fields.simps) (auto simp: decode_field_def)

lemma decode_fields_Nil [simp]: "decode_fields [] = Some []"
  by (subst decode_fields.simps) simp

lemma decode_fields_entry_body:
  "decode_fields (entry_body k v) = Some [BytesField 1 k, BytesField 2 v]"
proof -
  have "decode_field (entry_body k v) = Some (BytesField 1 k, 0x12 # varint (length v) @ v)"
    using decode_field_bytes[of 1 "0xa" k "0x12 # varint (length v) @ v"] by (simp add: entry_body_def)
  moreover have "decode_field (0x12 # varint (length v) @ v) = Some (BytesField 2 v, [])"
    using decode_field_bytes[of 2 "0x12" v "[]"] by simp
  ultimately show ?thesis by (simp add: decode_fields_step)
qed

lemma decode_fields_entry:
  "decode_fields (entry k v @ rest) = map_option ((#) (BytesField 1 (entry_body k v))) (decode_fields rest)"
  using decode_field_bytes[of 1 "0xa" "entry_body k v" rest] by (simp add: decode_fields_step entry_def)

lemma decode_fields_entries:
  "decode_fields (concat (map (\<lambda>(k, v). entry k v) kvs)) =
   Some (map (\<lambda>(k, v). BytesField 1 (entry_body k v)) kvs)"
  by (induction kvs) (auto simp: decode_fields_entry)

lemma those_Some: "(\<And>x. x \<in> set xs \<Longrightarrow> f (g x) = Some x) \<Longrightarrow> those (map f (map g xs)) = Some xs"
  by (induction xs) auto

lemma decode_map_bytes: "decode_map (map_bytes keys vals) = Some (rev (zip keys vals))"
proof -
  have "decode_fields (map_bytes keys vals) =
      Some (map (\<lambda>(k, v). BytesField 1 (entry_body k v)) (rev (zip keys vals)))"
    unfolding map_bytes_def rev_map by (rule decode_fields_entries)
  then show ?thesis
    unfolding decode_map_def
    by (simp only: Option.bind.bind_lunit)
       (rule those_Some, auto simp: decode_fields_entry_body)
qed

lemma decode_record_bytes:
  "decode_record (record_bytes timestamp keys vals data_type) =
   Some (unat data_type, unat timestamp, rev (zip keys vals))"
proof -
  let ?m = "map_bytes keys vals"
  let ?r3 = "0x1a # varint (length ?m) @ ?m"
  let ?r2 = "0x10 # varint (unat timestamp) @ ?r3"
  have "decode_field (record_bytes timestamp keys vals data_type) = Some (VarintField 1 (unat data_type), ?r2)"
    unfolding record_bytes_def by (rule decode_field_varint) simp_all
  moreover have "decode_field ?r2 = Some (VarintField 2 (unat timestamp), ?r3)"
    by (rule decode_field_varint) simp_all
  moreover have "decode_field ?r3 = Some (BytesField 3 ?m, [])"
    using decode_field_bytes[of 3 "0x1a" ?m "[]"] by simp
  ultimately show ?thesis
    by (simp add: decode_record_def decode_fields_step decode_map_bytes)
qed


lemma div_mod_256: "a < 4294967296 \<Longrightarrow>
  a mod 256 + 256 * (a div 256 mod 256 + 256 * (a div 65536 mod 256 + 256 * (a div 16777216 mod 256))) = a"
  for a :: nat
proof -
  assume a: "a < 4294967296"
  have "a div 16777216 mod 256 = a div 16777216" using a by simp
  moreover have "a div 65536 mod 256 + 256 * (a div 65536 div 256) = a div 65536" by simp
  moreover have "a div 256 mod 256 + 256 * (a div 256 div 256) = a div 256" by simp
  moreover have "a div 256 div 256 = a div 65536" "a div 65536 div 256 = a div 16777216"
    by (simp_all add: div_mult2_eq[symmetric])
  ultimately show ?thesis using mod_mult_div_eq[of a 256] by simp
qed

lemma u32_le_roundtrip: "u32_from_le_bytes (u32_to_le_bytes n) = unat n"
proof -
  have "unat n < 4294967296" using unsigned_less[of n, where 'a=nat] by simp
  then show ?thesis
    using div_mod_256[of "unat n"]
    by (simp add: u32_from_le_bytes_def u32_to_le_bytes_def upt_conv_Cons unsigned_ucast_eq
        drop_bit_eq_div unat_div take_bit_eq_mod)
qed

lemma decode_frame_frame:
  assumes "length (frame timestamp keys vals data_type) \<le> 2 ^ 32"
  shows "decode_frame (frame timestamp keys vals data_type @ rest) =
    Some ((unat data_type, unat timestamp, rev (zip keys vals)), rest)"
proof -
  let ?b = "record_bytes timestamp keys vals data_type"
  have "unat (of_nat (length ?b) :: u32) = length ?b"
    using assms by (simp add: frame_def Let_def unat_of_nat)
  then show ?thesis
    by (simp add: decode_frame_def frame_def Let_def u32_le_roundtrip decode_record_bytes)
qed

subsection \<open>Properties of the encoder\<close>

text \<open>\<open>encode_varint\<close> into a slice writes exactly \<open>encoded_varint_len\<close> bytes, returns their number,
  leaves the rest of the slice alone, and what it wrote reads back as the number; into a slice shorter
  than that it panics.\<close>

theorem encode_varint_correct:
  "case encode_varint n dst of
     Inr (dst', i) \<Rightarrow> i = encoded_varint_len n \<and> i \<le> length dst \<and> length dst' = length dst \<and>
       drop i dst' = drop i dst \<and> decode_varint dst' = Some (unat n, drop i dst)
   | Inl e \<Rightarrow> e = Panic \<and> length dst < encoded_varint_len n"
proof (cases "encoded_varint_len n \<le> length dst")
  case True
  let ?l = "length (varint (unat n))"
  have "encode_varint n (take ?l dst @ drop ?l dst) = Inr (varint (unat n) @ drop ?l dst, ?l)"
    by (rule encode_varint_split) (use True in simp)
  then show ?thesis using True by simp
next
  case False
  then show ?thesis
    using encode_varint_loop_small[of dst 0 n] by (simp add: encode_varint_def)
qed

text \<open>With a data type and a timestamp other than zero and a value for every key, \<open>protobuf_encode\<close>
  never panics: when the buffer is too small for the frame it returns \<open>WriteZero\<close>, otherwise it
  returns the frame's length, has written the frame at the front of the buffer and left the rest alone.\<close>

theorem protobuf_encode_writes_frame:
  assumes "data_type \<noteq> 0" "timestamp \<noteq> 0" "keys \<noteq> []" "length keys \<le> length vals"
    and "length keys \<le> 2 ^ 32" "length dst \<le> 2 ^ 32"
  shows "protobuf_encode timestamp keys vals dst data_type =
    (if length dst < length (frame timestamp keys vals data_type) then Inl (Err WriteZero)
     else Inr (frame timestamp keys vals data_type @
               drop (length (frame timestamp keys vals data_type)) dst,
               length (frame timestamp keys vals data_type)))"
  using protobuf_encode_cases[OF assms] by (simp add: Let_def)

theorem protobuf_encode_writes_frame_witness:
  "protobuf_encode 5 [ascii ''uid'', ascii ''exe''] [ascii ''0'', ascii ''/x'', []] (replicate 40 0xff) 59 =
   Inr ([27, 0, 0, 0, 8, 59, 16, 5, 26, 21, 10, 9, 10, 3, 101, 120, 101, 18, 2, 47, 120] @
        [10, 8, 10, 3, 117, 105, 100, 18, 1, 48] @ replicate 9 0xff, 31)"
proof -
  have f: "frame 5 [ascii ''uid'', ascii ''exe''] [ascii ''0'', ascii ''/x'', []] 59 =
    [27, 0, 0, 0, 8, 59, 16, 5, 26, 21, 10, 9, 10, 3, 101, 120, 101, 18, 2, 47, 120,
     10, 8, 10, 3, 117, 105, 100, 18, 1, 48]"
    by code_simp
  show ?thesis
    using protobuf_encode_writes_frame[of 59 5 "[ascii ''uid'', ascii ''exe'']" "[ascii ''0'', ascii ''/x'', []]"
        "replicate 40 0xff", unfolded f]
    by simp
qed

text \<open>C5: what \<open>protobuf_encode\<close> wrote is read back by a decoder of the wire format as the data type,
  the timestamp and the pairs of keys and values, in reverse order.\<close>

theorem protobuf_encode_roundtrip:
  assumes "data_type \<noteq> 0" "timestamp \<noteq> 0" "keys \<noteq> []" "length keys \<le> length vals"
    and "length dst \<le> 2 ^ 32" "length (frame timestamp keys vals data_type) \<le> length dst"
  shows "\<exists>dst' n. protobuf_encode timestamp keys vals dst data_type = Inr (dst', n) \<and>
    length dst' = length dst \<and> drop n dst' = drop n dst \<and>
    decode_frame (take n dst') = Some ((unat data_type, unat timestamp, rev (zip keys vals)), [])"
proof -
  let ?f = "frame timestamp keys vals data_type"
  have l: "length ?f \<le> 2 ^ 32" using assms by simp
  have "protobuf_encode timestamp keys vals dst data_type = Inr (?f @ drop (length ?f) dst, length ?f)"
    using protobuf_encode_eq[OF assms(1-4), of dst] assms(6) l by (simp add: Let_def)
  then show ?thesis using decode_frame_frame[OF l, of "[]"] assms(6) by simp
qed


theorem protobuf_encode_roundtrip_witness:
  "\<exists>dst' n. protobuf_encode 5 [ascii ''uid'', ascii ''exe''] [ascii ''0'', ascii ''/x''] (replicate 40 0xff) 59 =
     Inr (dst', n) \<and> length dst' = length (replicate 40 (0xff :: byte)) \<and>
     drop n dst' = drop n (replicate 40 0xff) \<and>
     decode_frame (take n dst') =
       Some ((unat (59 :: u64), unat (5 :: u64), rev (zip [ascii ''uid'', ascii ''exe''] [ascii ''0'', ascii ''/x''])), [])"
proof -
  have "length (frame 5 [ascii ''uid'', ascii ''exe''] [ascii ''0'', ascii ''/x''] 59) = 31"
    by code_simp
  then show ?thesis by (intro protobuf_encode_roundtrip) simp_all
qed

end
