(* ===== verification/Driver_Schema.thy ===== *)
theory Driver_Schema
  imports Elkeid_Prelude
begin

section \<open>Field names of the records\<close>

text \<open>
  The map \<open>SCHEMA\<close> of \<^verbatim>\<open>src/plugins/driver/src/transformer/schema.rs\<close>: for each data type the names of the
  record's fields, in the order in which the encoder pairs them with the values. One definition per
  \<open>map.insert\<close>, and the map they build.
\<close>

definition schema_2 :: "bytes list" where
  "schema_2 = map ascii
    [''uid'', ''exe'', ''pid'', ''ppid'', ''pgid'', ''tgid'', ''sid'', ''comm'', ''nodename'',
     ''sessionid'', ''pns'', ''root_pns'', ''flags'', ''mode'', ''file'', ''argv'',
     ''ppid_argv'', ''pgid_argv'', ''username'', ''pod_name'', ''exe_hash'', ''pid_tree'']"

definition schema_10 :: "bytes list" where
  "schema_10 = map ascii
    [''uid'', ''exe'', ''pid'', ''ppid'', ''pgid'', ''tgid'', ''sid'', ''comm'', ''nodename'',
     ''sessionid'', ''pns'', ''root_pns'', ''mprotect_prot'', ''owner_pid'', ''owner_file'',
     ''vm_file'', ''pid_tree'', ''argv'', ''ppid_argv'', ''pgid_argv'', ''username'',
     ''pod_name'', ''exe_hash'']"

definition schema_35 :: "bytes list" where
  "schema_35 = map ascii
    [''uid'', ''exe'', ''pid'', ''ppid'', ''pgid'', ''tgid'', ''sid'', ''comm'', ''nodename'',
     ''sessionid'', ''pns'', ''root_pns'', ''sec'', ''nsec'', ''argv'', ''ppid_argv'',
     ''pgid_argv'', ''username'', ''pod_name'', ''exe_hash'', ''pid_tree'']"

definition schema_42 :: "bytes list" where
  "schema_42 = map ascii
    [''uid'', ''exe'', ''pid'', ''ppid'', ''pgid'', ''tgid'', ''sid'', ''comm'', ''nodename'',
     ''sessionid'', ''pns'', ''root_pns'', ''sa_family'', ''dip'', ''dport'', ''sip'', ''sport'',
     ''res'', ''argv'', ''ppid_argv'', ''pgid_argv'', ''username'', ''pod_name'', ''exe_hash'',
     ''pid_tree'']"

definition schema_43 :: "bytes list" where
  "schema_43 = map ascii
    [''uid'', ''exe'', ''pid'', ''ppid'', ''pgid'', ''tgid'', ''sid'', ''comm'', ''nodename'',
     ''sessionid'', ''pns'', ''root_pns'', ''sa_family'', ''dip'', ''dport'', ''sip'', ''sport'',
     ''res'', ''argv'', ''ppid_argv'', ''pgid_argv'', ''username'', ''pod_name'', ''exe_hash'',
     ''pid_tree'']"

definition schema_49 :: "bytes list" where
  "schema_49 = map ascii
    [''uid'', ''exe'', ''pid'', ''ppid'', ''pgid'', ''tgid'', ''sid'', ''comm'', ''nodename'',
     ''sessionid'', ''pns'', ''root_pns'', ''sa_family'', ''sip'', ''sport'', ''res'', ''argv'',
     ''ppid_argv'', ''pgid_argv'', ''username'', ''pod_name'', ''exe_hash'', ''pid_tree'']"

definition schema_59 :: "bytes list" where
  "schema_59 = map ascii
    [''uid'', ''exe'', ''pid'', ''ppid'', ''pgid'', ''tgid'', ''sid'', ''comm'', ''nodename'',
     ''sessionid'', ''pns'', ''root_pns'', ''argv'', ''run_path'', ''stdin'', ''stdout'',
     ''dip'', ''dport'', ''sip'', ''sport'', ''sa_family'', ''pid_tree'', ''tty'',
     ''socket_pid'', ''ssh'', ''ld_preload'', ''res'', ''socket_argv'', ''ppid_argv'',
     ''pgid_argv'', ''username'', ''pod_name'', ''exe_hash'']"

definition schema_60 :: "bytes list" where
  "schema_60 = map ascii
    [''uid'', ''exe'', ''pid'', ''ppid'', ''pgid'', ''tgid'', ''sid'', ''comm'', ''nodename'',
     ''sessionid'', ''pns'', ''root_pns'', ''argv'', ''ppid_argv'', ''pgid_argv'', ''username'',
     ''pod_name'', ''exe_hash'', ''pid_tree'']"

definition schema_62 :: "bytes list" where
  "schema_62 = map ascii
    [''uid'', ''exe'', ''pid'', ''ppid'', ''pgid'', ''tgid'', ''sid'', ''comm'', ''nodename'',
     ''sessionid'', ''pns'', ''root_pns'', ''target_pid'', ''sig'', ''argv'', ''ppid_argv'',
     ''pgid_argv'', ''username'', ''pod_name'', ''exe_hash'', ''pid_tree'', ''target_argv'']"

definition schema_82 :: "bytes list" where
  "schema_82 = map ascii
    [''uid'', ''exe'', ''pid'', ''ppid'', ''pgid'', ''tgid'', ''sid'', ''comm'', ''nodename'',
     ''sessionid'', ''pns'', ''root_pns'', ''old_name'', ''new_name'', ''sb_id'', ''argv'',
     ''ppid_argv'', ''pgid_argv'', ''username'', ''pod_name'', ''exe_hash'', ''pid_tree'']"

definition schema_86 :: "bytes list" where
  "schema_86 = map ascii
    [''uid'', ''exe'', ''pid'', ''ppid'', ''pgid'', ''tgid'', ''sid'', ''comm'', ''nodename'',
     ''sessionid'', ''pns'', ''root_pns'', ''old_name'', ''new_name'', ''sb_id'', ''argv'',
     ''ppid_argv'', ''pgid_argv'', ''username'', ''pod_name'', ''exe_hash'', ''pid_tree'']"

definition schema_101 :: "bytes list" where
  "schema_101 = map ascii
    [''uid'', ''exe'', ''pid'', ''ppid'', ''pgid'', ''tgid'', ''sid'', ''comm'', ''nodename'',
     ''sessionid'', ''pns'', ''root_pns'', ''ptrace_request'', ''target_pid'', ''addr'',
     ''data'', ''pid_tree'', ''argv'', ''ppid_argv'', ''pgid_argv'', ''username'', ''pod_name'',
     ''exe_hash'', ''target_argv'']"

definition schema_112 :: "bytes list" where
  "schema_112 = map ascii
    [''uid'', ''exe'', ''pid'', ''ppid'', ''pgid'', ''tgid'', ''sid'', ''comm'', ''nodename'',
     ''sessionid'', ''pns'', ''root_pns'', ''argv'', ''ppid_argv'', ''pgid_argv'', ''username'',
     ''pod_name'', ''exe_hash'', ''pid_tree'']"

definition schema_157 :: "bytes list" where
  "schema_157 = map ascii
    [''uid'', ''exe'', ''pid'', ''ppid'', ''pgid'', ''tgid'', ''sid'', ''comm'', ''nodename'',
     ''sessionid'', ''pns'', ''root_pns'', ''option'', ''new_name'', ''argv'', ''ppid_argv'',
     ''pgid_argv'', ''username'', ''pod_name'', ''exe_hash'', ''pid_tree'']"

definition schema_165 :: "bytes list" where
  "schema_165 = map ascii
    [''uid'', ''exe'', ''pid'', ''ppid'', ''pgid'', ''tgid'', ''sid'', ''comm'', ''nodename'',
     ''sessionid'', ''pns'', ''root_pns'', ''pid_tree'', ''dev'', ''file_path'', ''fstype'',
     ''flags'', ''argv'', ''ppid_argv'', ''pgid_argv'', ''username'', ''pod_name'', ''exe_hash'']"

definition schema_200 :: "bytes list" where
  "schema_200 = map ascii
    [''uid'', ''exe'', ''pid'', ''ppid'', ''pgid'', ''tgid'', ''sid'', ''comm'', ''nodename'',
     ''sessionid'', ''pns'', ''root_pns'', ''target_pid'', ''sig'', ''argv'', ''ppid_argv'',
     ''pgid_argv'', ''username'', ''pod_name'', ''exe_hash'', ''pid_tree'']"

definition schema_231 :: "bytes list" where
  "schema_231 = map ascii
    [''uid'', ''exe'', ''pid'', ''ppid'', ''pgid'', ''tgid'', ''sid'', ''comm'', ''nodename'',
     ''sessionid'', ''pns'', ''root_pns'', ''argv'', ''ppid_argv'', ''pgid_argv'', ''username'',
     ''pod_name'', ''exe_hash'', ''pid_tree'']"

definition schema_356 :: "bytes list" where
  "schema_356 = map ascii
    [''uid'', ''exe'', ''pid'', ''ppid'', ''pgid'', ''tgid'', ''sid'', ''comm'', ''nodename'',
     ''sessionid'', ''pns'', ''root_pns'', ''fd_name'', ''flags'', ''argv'', ''ppid_argv'',
     ''pgid_argv'', ''username'', ''pod_name'', ''exe_hash'', ''pid_tree'']"

definition schema_601 :: "bytes list" where
  "schema_601 = map ascii
    [''uid'', ''exe'', ''pid'', ''ppid'', ''pgid'', ''tgid'', ''sid'', ''comm'', ''nodename'',
     ''sessionid'', ''pns'', ''root_pns'', ''query'', ''sa_family'', ''dip'', ''dport'', ''sip'',
     ''sport'', ''opcode'', ''rcode'', ''argv'', ''ppid_argv'', ''pgid_argv'', ''username'',
     ''pod_name'', ''exe_hash'', ''pid_tree'']"

definition schema_602 :: "bytes list" where
  "schema_602 = map ascii
    [''uid'', ''exe'', ''pid'', ''ppid'', ''pgid'', ''tgid'', ''sid'', ''comm'', ''nodename'',
     ''sessionid'', ''pns'', ''root_pns'', ''file_path'', ''dip'', ''dport'', ''sip'', ''sport'',
     ''sa_family'', ''socket_pid'', ''sb_id'', ''argv'', ''ppid_argv'', ''pgid_argv'',
     ''username'', ''pod_name'', ''exe_hash'', ''pid_tree'', ''socket_argv'']"

definition schema_603 :: "bytes list" where
  "schema_603 = map ascii
    [''uid'', ''exe'', ''pid'', ''ppid'', ''pgid'', ''tgid'', ''sid'', ''comm'', ''nodename'',
     ''sessionid'', ''pns'', ''root_pns'', ''ko_file'', ''pid_tree'', ''run_path'', ''argv'',
     ''ppid_argv'', ''pgid_argv'', ''username'', ''pod_name'', ''exe_hash'']"

definition schema_604 :: "bytes list" where
  "schema_604 = map ascii
    [''uid'', ''exe'', ''pid'', ''ppid'', ''pgid'', ''tgid'', ''sid'', ''comm'', ''nodename'',
     ''sessionid'', ''pns'', ''root_pns'', ''pid_tree'', ''old_uid'', ''res'', ''argv'',
     ''ppid_argv'', ''pgid_argv'', ''username'', ''pod_name'', ''exe_hash'', ''old_username'']"

definition schema_605 :: "bytes list" where
  "schema_605 = map ascii
    [''uid'', ''exe'', ''pid'', ''ppid'', ''pgid'', ''tgid'', ''sid'', ''comm'', ''nodename'',
     ''sessionid'', ''pns'', ''root_pns'', ''file'', ''argv'', ''ppid_argv'', ''pgid_argv'',
     ''username'', ''pod_name'', ''exe_hash'', ''pid_tree'']"

definition schema_606 :: "bytes list" where
  "schema_606 = map ascii
    [''uid'', ''exe'', ''pid'', ''ppid'', ''pgid'', ''tgid'', ''sid'', ''comm'', ''nodename'',
     ''sessionid'', ''pns'', ''root_pns'', ''file'', ''argv'', ''ppid_argv'', ''pgid_argv'',
     ''username'', ''pod_name'', ''exe_hash'', ''pid_tree'']"

definition schema_607 :: "bytes list" where
  "schema_607 = map ascii
    [''exe'', ''argv'', ''wait'']"

definition schema_608 :: "bytes list" where
  "schema_608 = map ascii
    [''uid'', ''exe'', ''pid'', ''ppid'', ''pgid'', ''tgid'', ''sid'', ''comm'', ''nodename'',
     ''sessionid'', ''pns'', ''root_pns'', ''file'', ''sb_id'', ''argv'', ''ppid_argv'',
     ''pgid_argv'', ''username'', ''pod_name'', ''exe_hash'', ''pid_tree'']"

definition schema_609 :: "bytes list" where
  "schema_609 = map ascii
    [''uid'', ''exe'', ''pid'', ''ppid'', ''pgid'', ''tgid'', ''sid'', ''comm'', ''nodename'',
     ''sessionid'', ''pns'', ''root_pns'', ''file'', ''sb_id'', ''argv'', ''ppid_argv'',
     ''pgid_argv'', ''username'', ''pod_name'', ''exe_hash'', ''pid_tree'']"

definition schema_610 :: "bytes list" where
  "schema_610 = map ascii
    [''uid'', ''exe'', ''pid'', ''ppid'', ''pgid'', ''tgid'', ''sid'', ''comm'', ''nodename'',
     ''sessionid'', ''pns'', ''root_pns'', ''product_info'', ''manufacturer'', ''serial'',
     ''action'', ''argv'', ''ppid_argv'', ''pgid_argv'', ''username'', ''pod_name'',
     ''exe_hash'', ''pid_tree'']"

definition schema_611 :: "bytes list" where
  "schema_611 = map ascii
    [''uid'', ''exe'', ''pid'', ''ppid'', ''pgid'', ''tgid'', ''sid'', ''comm'', ''nodename'',
     ''sessionid'', ''pns'', ''root_pns'', ''dpid'', ''pid_tree'', ''dcred'', ''cred'', ''argv'',
     ''ppid_argv'', ''pgid_argv'', ''username'', ''pod_name'', ''exe_hash'', ''pid_tree'',
     ''dpid_argv'']"

definition schema_700 :: "bytes list" where
  "schema_700 = map ascii
    [''module_name'']"

definition schema_701 :: "bytes list" where
  "schema_701 = map ascii
    [''module_name'', ''syscall_number'']"

definition schema_702 :: "bytes list" where
  "schema_702 = map ascii
    [''module_name'']"

definition schema_703 :: "bytes list" where
  "schema_703 = map ascii
    [''module_name'', ''interrupt_number'']"

definition SCHEMA :: "u32 \<Rightarrow> bytes list option" where
  "SCHEMA = [2 \<mapsto> schema_2,
     10 \<mapsto> schema_10,
     35 \<mapsto> schema_35,
     42 \<mapsto> schema_42,
     43 \<mapsto> schema_43,
     49 \<mapsto> schema_49,
     59 \<mapsto> schema_59,
     60 \<mapsto> schema_60,
     62 \<mapsto> schema_62,
     82 \<mapsto> schema_82,
     86 \<mapsto> schema_86,
     101 \<mapsto> schema_101,
     112 \<mapsto> schema_112,
     157 \<mapsto> schema_157,
     165 \<mapsto> schema_165,
     200 \<mapsto> schema_200,
     231 \<mapsto> schema_231,
     356 \<mapsto> schema_356,
     601 \<mapsto> schema_601,
     602 \<mapsto> schema_602,
     603 \<mapsto> schema_603,
     604 \<mapsto> schema_604,
     605 \<mapsto> schema_605,
     606 \<mapsto> schema_606,
     607 \<mapsto> schema_607,
     608 \<mapsto> schema_608,
     609 \<mapsto> schema_609,
     610 \<mapsto> schema_610,
     611 \<mapsto> schema_611,
     700 \<mapsto> schema_700,
     701 \<mapsto> schema_701,
     702 \<mapsto> schema_702,
     703 \<mapsto> schema_703]"

lemmas schema_defs =
  schema_2_def schema_10_def schema_35_def schema_42_def schema_43_def schema_49_def schema_59_def schema_60_def schema_62_def schema_82_def schema_86_def schema_101_def schema_112_def schema_157_def schema_165_def schema_200_def schema_231_def schema_356_def schema_601_def schema_602_def schema_603_def schema_604_def schema_605_def schema_606_def schema_607_def schema_608_def schema_609_def schema_610_def schema_611_def schema_700_def schema_701_def schema_702_def schema_703_def

end
