(* ===== verification/Rust_Std.thy ===== *)
theory Rust_Std
  imports Elkeid_Prelude
begin

section \<open>The parts of the Rust standard library that the plugins use\<close>

text \<open>
  A \<open>&str\<close> is a byte list that is valid UTF-8. \<open>from_utf8\<close> is the validity check of
  \<open>core::str\<close> (no surrogates, no overlong forms, at most U+10FFFF); \<open>parse_uint\<close> is
  \<open>FromStr\<close> of the unsigned integers (an optional plus sign, decimal digits, an error on overflow);
  \<open>parse_ipv4\<close> and \<open>parse_ipv6\<close> are the address parsers of \<open>core::net\<close>, which consume their whole
  input. \<open>split_on\<close> is \<open>slice::split\<close> with a predicate on one byte.
\<close>

subsection \<open>Slices\<close>

definition starts_with :: "bytes \<Rightarrow> bytes \<Rightarrow> bool" where
  "starts_with s p \<longleftrightarrow> take (length p) s = p"

definition ends_with :: "bytes \<Rightarrow> bytes \<Rightarrow> bool" where
  "ends_with s p \<longleftrightarrow> starts_with (rev s) (rev p)"

fun split_on :: "byte \<Rightarrow> bytes \<Rightarrow> bytes list" where
  "split_on sep [] = [[]]"
| "split_on sep (b # bs) =
     (if b = sep then [] # split_on sep bs
      else case split_on sep bs of [] \<Rightarrow> [[b]] | f # fs \<Rightarrow> (b # f) # fs)"

lemma starts_with_prefix: "starts_with s p \<longleftrightarrow> prefix p s"
  unfolding starts_with_def prefix_def by (metis append_take_drop_id append_eq_conv_conj)

lemma ends_with_suffix: "ends_with s p \<longleftrightarrow> suffix p s"
  by (simp add: ends_with_def starts_with_prefix suffix_to_prefix)

lemma split_on_not_Nil [simp]: "split_on sep bs \<noteq> []"
  by (induction bs) (auto split: list.splits)

lemma split_on_none: "sep \<notin> set bs \<Longrightarrow> split_on sep bs = [bs]"
  by (induction bs) auto

lemma split_on_append:
  "sep \<notin> set xs \<Longrightarrow> split_on sep (xs @ sep # ys) = xs # split_on sep ys"
  by (induction xs) auto

lemma split_on_fields: "f \<in> set (split_on sep bs) \<Longrightarrow> sep \<notin> set f"
  by (induction bs arbitrary: f) (auto split: if_splits list.splits)

text \<open>Joining the pieces with the separator gives the slice back.\<close>

fun join_with :: "byte \<Rightarrow> bytes list \<Rightarrow> bytes" where
  "join_with sep [] = []"
| "join_with sep [f] = f"
| "join_with sep (f # fs) = f @ sep # join_with sep fs"

lemma join_with_split_on [simp]: "join_with sep (split_on sep bs) = bs"
proof (induction bs)
  case (Cons b bs)
  then show ?case
    by (cases "split_on sep bs"; cases "tl (split_on sep bs)") auto
qed simp

lemma split_on_join_with:
  "fs \<noteq> [] \<Longrightarrow> (\<And>f. f \<in> set fs \<Longrightarrow> sep \<notin> set f) \<Longrightarrow> split_on sep (join_with sep fs) = fs"
proof (induction sep fs rule: join_with.induct)
  case (3 sep f g fs)
  then show ?case by (simp add: split_on_append)
qed (simp_all add: split_on_none)

lemma split_on_inj: "split_on sep xs = split_on sep ys \<Longrightarrow> xs = ys"
  by (metis join_with_split_on)

lemma length_split_on: "length (split_on sep bs) = Suc (count_list bs sep)"
  by (induction bs) (auto split: list.splits)

subsection \<open>Strings and integers\<close>

definition continuation :: "byte \<Rightarrow> bool" where
  "continuation b \<longleftrightarrow> 0x80 \<le> b \<and> b \<le> 0xbf"

fun valid_utf8 :: "bytes \<Rightarrow> bool" where
  "valid_utf8 [] = True"
| "valid_utf8 (a # bs) =
     (if a < 0x80 then valid_utf8 bs
      else case bs of
        [] \<Rightarrow> False
      | b # cs \<Rightarrow>
          if 0xc2 \<le> a \<and> a \<le> 0xdf then continuation b \<and> valid_utf8 cs
          else case cs of
            [] \<Rightarrow> False
          | c # ds \<Rightarrow>
              if a = 0xe0 then 0xa0 \<le> b \<and> b \<le> 0xbf \<and> continuation c \<and> valid_utf8 ds
              else if (0xe1 \<le> a \<and> a \<le> 0xec) \<or> (0xee \<le> a \<and> a \<le> 0xef)
              then continuation b \<and> continuation c \<and> valid_utf8 ds
              else if a = 0xed then 0x80 \<le> b \<and> b \<le> 0x9f \<and> continuation c \<and> valid_utf8 ds
              else case ds of
                [] \<Rightarrow> False
              | d # es \<Rightarrow>
                  if a = 0xf0 then 0x90 \<le> b \<and> b \<le> 0xbf \<and> continuation c \<and> continuation d \<and> valid_utf8 es
                  else if 0xf1 \<le> a \<and> a \<le> 0xf3
                  then continuation b \<and> continuation c \<and> continuation d \<and> valid_utf8 es
                  else if a = 0xf4 then 0x80 \<le> b \<and> b \<le> 0x8f \<and> continuation c \<and> continuation d \<and> valid_utf8 es
                  else False)"

definition from_utf8 :: "bytes \<Rightarrow> bytes option" where
  "from_utf8 bs = (if valid_utf8 bs then Some bs else None)"

lemma valid_utf8_ascii: "(\<And>b. b \<in> set bs \<Longrightarrow> b < 0x80) \<Longrightarrow> valid_utf8 bs"
  by (induction bs) auto

definition digit_val :: "byte \<Rightarrow> nat option" where
  "digit_val b = (if 0x30 \<le> b \<and> b \<le> 0x39 then Some (unat b - 0x30) else None)"

fun parse_digits :: "nat \<Rightarrow> bytes \<Rightarrow> nat \<Rightarrow> nat option" where
  "parse_digits bound [] n = Some n"
| "parse_digits bound (b # bs) n = (case digit_val b of None \<Rightarrow> None
     | Some d \<Rightarrow> if 10 * n + d < bound then parse_digits bound bs (10 * n + d) else None)"

definition parse_uint :: "nat \<Rightarrow> bytes \<Rightarrow> nat option" where
  "parse_uint bound s = (case s of
     [] \<Rightarrow> None
   | b # bs \<Rightarrow> if b = 0x2b then (if bs = [] then None else parse_digits bound bs 0)
               else parse_digits bound s 0)"

definition parse_u32 :: "bytes \<Rightarrow> u32 option" where
  "parse_u32 s = map_option of_nat (parse_uint (2 ^ 32) s)"

definition parse_usize :: "bytes \<Rightarrow> nat option" where
  "parse_usize s = parse_uint (2 ^ 64) s"

text \<open>\<open>Display\<close> of an unsigned integer.\<close>

fun show_nat :: "nat \<Rightarrow> bytes" where
  "show_nat n = (if n < 10 then [of_nat (0x30 + n)] else show_nat (n div 10) @ [of_nat (0x30 + n mod 10)])"

declare show_nat.simps [simp del]


lemma parse_digits_append:
  "parse_digits bound (xs @ ys) n = Option.bind (parse_digits bound xs n) (parse_digits bound ys)"
  by (induction xs arbitrary: n) (auto split: option.splits)

lemma digit_val_of_nat: "d < 10 \<Longrightarrow> digit_val (of_nat (0x30 + d)) = Some d"
proof -
  assume "d < 10"
  then have u: "unat (of_nat (0x30 + d) :: byte) = 0x30 + d"
    by (subst unat_of_nat) simp
  show ?thesis
    unfolding digit_val_def word_le_nat_alt u using \<open>d < 10\<close> by simp
qed

lemma parse_digits_show_nat: "n < bound \<Longrightarrow> parse_digits bound (show_nat n) 0 = Some n"
proof (induction n rule: show_nat.induct)
  case (1 n)
  show ?case
  proof (cases "n < 10")
    case True
    then show ?thesis
      using 1(2) digit_val_of_nat[of n] by (subst show_nat.simps) simp
  next
    case False
    have "parse_digits bound (show_nat (n div 10)) 0 = Some (n div 10)"
      using 1 False by auto
    moreover have "10 * (n div 10) + n mod 10 = n" by simp
    ultimately show ?thesis
      using False 1(2) digit_val_of_nat[of "n mod 10"]
      by (subst show_nat.simps) (simp add: parse_digits_append)
  qed
qed

lemma show_nat_head: "\<exists>b bs. show_nat n = b # bs \<and> b \<noteq> 0x2b"
proof (induction n rule: show_nat.induct)
  case (1 n)
  show ?case
  proof (cases "n < 10")
    case True
    have "unat (of_nat (0x30 + n) :: byte) = 0x30 + n"
      using True by (subst unat_of_nat) simp
    then have "unat (of_nat (0x30 + n) :: byte) \<noteq> unat (0x2b :: byte)" by simp
    then have "of_nat (0x30 + n) \<noteq> (0x2b :: byte)" by metis
    then show ?thesis using True by (subst show_nat.simps) simp
  next
    case False
    then show ?thesis using 1 by (subst show_nat.simps) auto
  qed
qed

lemma parse_uint_show_nat: "n < bound \<Longrightarrow> parse_uint bound (show_nat n) = Some n"
  using show_nat_head[of n] parse_digits_show_nat[of n bound] by (auto simp: parse_uint_def)

subsection \<open>Internet addresses\<close>

text \<open>The recursive descent parser of \<open>core::net::parser\<close>. Its state is the rest of the input; a failed
  \<open>read_atomically\<close> leaves the state, which here is the value \<open>None\<close>. An IPv4 address is the list of
  its four octets, an IPv6 address the list of its eight segments.\<close>

definition to_digit :: "nat \<Rightarrow> byte \<Rightarrow> nat option" where
  "to_digit radix b = (
     let v = (if 0x30 \<le> b \<and> b \<le> 0x39 then Some (unat b - 0x30)
              else if 0x61 \<le> b \<and> b \<le> 0x66 then Some (unat b - 0x61 + 10)
              else if 0x41 \<le> b \<and> b \<le> 0x46 then Some (unat b - 0x41 + 10) else None)
     in case v of None \<Rightarrow> None | Some d \<Rightarrow> if d < radix then Some d else None)"

fun read_digits :: "nat \<Rightarrow> nat \<Rightarrow> nat \<Rightarrow> bytes \<Rightarrow> nat \<Rightarrow> nat \<Rightarrow> (nat \<times> nat \<times> bytes) option" where
  "read_digits radix bound max_digits [] result digit_count = Some (result, digit_count, [])"
| "read_digits radix bound max_digits (b # bs) result digit_count =
     (case to_digit radix b of
        None \<Rightarrow> Some (result, digit_count, b # bs)
      | Some d \<Rightarrow>
          if bound \<le> result * radix + d then None
          else if max_digits < digit_count + 1 then None
          else read_digits radix bound max_digits bs (result * radix + d) (digit_count + 1))"

definition read_number :: "nat \<Rightarrow> nat \<Rightarrow> nat \<Rightarrow> bool \<Rightarrow> bytes \<Rightarrow> (nat \<times> bytes) option" where
  "read_number radix bound max_digits allow_zero_prefix s =
     (let has_leading_zero = (s \<noteq> [] \<and> hd s = 0x30) in
      case read_digits radix bound max_digits s 0 0 of
        None \<Rightarrow> None
      | Some (result, digit_count, rest) \<Rightarrow>
          if digit_count = 0 then None
          else if \<not> allow_zero_prefix \<and> has_leading_zero \<and> 1 < digit_count then None
          else Some (result, rest))"

definition read_given_char :: "byte \<Rightarrow> bytes \<Rightarrow> bytes option" where
  "read_given_char c s = (case s of [] \<Rightarrow> None | b # bs \<Rightarrow> if b = c then Some bs else None)"

definition read_separator :: "byte \<Rightarrow> nat \<Rightarrow> (bytes \<Rightarrow> ('a \<times> bytes) option) \<Rightarrow> bytes \<Rightarrow> ('a \<times> bytes) option" where
  "read_separator sep index inner s =
     (if 0 < index then Option.bind (read_given_char sep s) inner else inner s)"

fun read_octets :: "nat \<Rightarrow> nat \<Rightarrow> bytes \<Rightarrow> (byte list \<times> bytes) option" where
  "read_octets 0 i s = Some ([], s)"
| "read_octets (Suc k) i s =
     (case read_separator 0x2e i (read_number 10 256 3 False) s of
        None \<Rightarrow> None
      | Some (n, s) \<Rightarrow> (case read_octets k (i + 1) s of
            None \<Rightarrow> None | Some (ns, s) \<Rightarrow> Some (of_nat n # ns, s)))"

definition read_ipv4_addr :: "bytes \<Rightarrow> (byte list \<times> bytes) option" where
  "read_ipv4_addr s = read_octets 4 0 s"

definition parse_ipv4 :: "bytes \<Rightarrow> byte list option" where
  "parse_ipv4 s = (if 15 < length s then None
     else case read_ipv4_addr s of Some (a, []) \<Rightarrow> Some a | _ \<Rightarrow> None)"

definition be16 :: "byte \<Rightarrow> byte \<Rightarrow> 16 word" where
  "be16 a b = push_bit 8 (ucast a) OR ucast b"

text \<open>\<open>read_groups\<close> with \<open>k\<close> slots left, at slot \<open>i\<close>: the groups read, and whether they end in an
  embedded IPv4 address.\<close>

fun read_groups :: "nat \<Rightarrow> nat \<Rightarrow> bytes \<Rightarrow> 16 word list \<times> bool \<times> bytes" where
  "read_groups 0 i s = ([], False, s)"
| "read_groups (Suc k) i s =
     (case (if 0 < k then read_separator 0x3a i read_ipv4_addr s else None) of
        Some (v4, s) \<Rightarrow> ([be16 (v4 ! 0) (v4 ! 1), be16 (v4 ! 2) (v4 ! 3)], True, s)
      | None \<Rightarrow> (case read_separator 0x3a i (read_number 16 65536 4 True) s of
            None \<Rightarrow> ([], False, s)
          | Some (g, s) \<Rightarrow> (case read_groups k (i + 1) s of (gs, v4, s) \<Rightarrow> (of_nat g # gs, v4, s))))"

definition read_ipv6_addr :: "bytes \<Rightarrow> (16 word list \<times> bytes) option" where
  "read_ipv6_addr s =
     (case read_groups 8 0 s of (head, head_ipv4, s) \<Rightarrow>
        if length head = 8 then Some (head, s)
        else if head_ipv4 then None
        else Option.bind (read_given_char 0x3a s) (\<lambda>s. Option.bind (read_given_char 0x3a s) (\<lambda>s.
          case read_groups (8 - (length head + 1)) 0 s of (tail, _, s) \<Rightarrow>
            Some (head @ replicate (8 - length head - length tail) 0 @ tail, s))))"

definition parse_ipv6 :: "bytes \<Rightarrow> 16 word list option" where
  "parse_ipv6 s = (case read_ipv6_addr s of Some (a, []) \<Rightarrow> Some a | _ \<Rightarrow> None)"

lemma read_octets_length: "read_octets k i s = Some (a, r) \<Longrightarrow> length a = k"
  by (induction k i s arbitrary: a r rule: read_octets.induct) (auto split: option.splits)

lemma parse_ipv4_length: "parse_ipv4 s = Some a \<Longrightarrow> length a = 4"
  by (auto simp: parse_ipv4_def read_ipv4_addr_def split: if_splits option.splits list.splits
      dest: read_octets_length)

lemma read_groups_length: "read_groups k i s = (gs, v4, r) \<Longrightarrow> length gs \<le> k"
  by (induction k i s arbitrary: gs v4 r rule: read_groups.induct)
     (fastforce split: option.splits prod.splits if_splits)+

lemma read_ipv6_length: "read_ipv6_addr s = Some (a, r) \<Longrightarrow> length a = 8"
  by (auto simp: read_ipv6_addr_def split: option.splits prod.splits if_splits
      dest!: read_groups_length bind_eq_Some_conv[THEN iffD1])

lemma parse_ipv6_length: "parse_ipv6 s = Some a \<Longrightarrow> length a = 8"
  by (auto simp: parse_ipv6_def split: option.splits list.splits dest: read_ipv6_length)

subsection \<open>Strings and paths\<close>

definition contains :: "bytes \<Rightarrow> bytes \<Rightarrow> bool" where
  "contains s p \<longleftrightarrow> (\<exists>t \<in> set (suffixes s). starts_with t p)"

definition lines :: "bytes \<Rightarrow> bytes list" where
  "lines s = (let ps = split_on 0x0a s;
                  ps = (if last ps = [] then butlast ps else ps)
              in map (\<lambda>l. if l \<noteq> [] \<and> last l = 0x0d then butlast l else l) ps)"

text \<open>The UTF-8 encodings of the characters \<open>char::is_whitespace\<close> accepts.\<close>

definition white_space :: "bytes list" where
  "white_space = map (\<lambda>b. [b]) [9, 10, 11, 12, 13, 0x20] @ [[0xc2, 0x85], [0xc2, 0xa0], [0xe1, 0x9a, 0x80]] @
     map (\<lambda>b. [0xe2, 0x80, b])
       [0x80, 0x81, 0x82, 0x83, 0x84, 0x85, 0x86, 0x87, 0x88, 0x89, 0x8a, 0xa8, 0xa9, 0xaf] @
     [[0xe2, 0x81, 0x9f], [0xe3, 0x80, 0x80]]"

fun strip_loop :: "bytes list \<Rightarrow> nat \<Rightarrow> bytes \<Rightarrow> bytes" where
  "strip_loop encs 0 s = s"
| "strip_loop encs (Suc n) s =
     (case find (starts_with s) encs of None \<Rightarrow> s | Some enc \<Rightarrow> strip_loop encs n (drop (length enc) s))"

definition trim :: "bytes \<Rightarrow> bytes" where
  "trim s = (let s = strip_loop white_space (length s) s
             in rev (strip_loop (map rev white_space) (length s) (rev s)))"

text \<open>\<open>Path::with_extension\<close> for a path that is a file name: what follows the last dot is replaced.\<close>

definition with_extension :: "bytes \<Rightarrow> bytes \<Rightarrow> bytes" where
  "with_extension name ext =
     (let stem = (if 0x2e \<in> set (tl name) then rev (tl (dropWhile (\<lambda>b. b \<noteq> 0x2e) (rev name))) else name)
      in stem @ 0x2e # ext)"

lemma white_space_found: "find (starts_with s) white_space = Some enc \<Longrightarrow> enc \<noteq> []"
proof -
  assume "find (starts_with s) white_space = Some enc"
  then have "enc \<in> set white_space" by (auto simp: find_Some_iff)
  moreover have "[] \<notin> set white_space" by (simp add: white_space_def)
  ultimately show ?thesis by metis
qed

text \<open>\<open>str::splitn\<close> with \<open>char::is_whitespace\<close>, for a positive count.\<close>

function splitn_loop :: "nat \<Rightarrow> bytes \<Rightarrow> bytes \<Rightarrow> bytes list" where
  "splitn_loop n cur s =
     (if n \<le> 1 then [cur @ s]
      else case s of
        [] \<Rightarrow> [cur]
      | b # bs \<Rightarrow>
          (case find (starts_with s) white_space of
             Some enc \<Rightarrow> cur # splitn_loop (n - 1) [] (drop (length enc) s)
           | None \<Rightarrow> splitn_loop n (cur @ [b]) bs))"
  by pat_completeness auto
termination
  by (relation "measure (\<lambda>(n, cur, s). length s)") (auto dest: white_space_found)

definition splitn_whitespace :: "nat \<Rightarrow> bytes \<Rightarrow> bytes list" where
  "splitn_whitespace n s = splitn_loop n [] s"

text \<open>\<open>&s[n..]\<close> on a string panics outside the string and inside a character.\<close>

definition str_from :: "bytes \<Rightarrow> nat \<Rightarrow> bytes res" where
  "str_from s n = (if n \<le> length s \<and> (n < length s \<longrightarrow> \<not> continuation (s ! n)) then Inr (drop n s) else Inl Panic)"

definition trim_end_byte :: "byte \<Rightarrow> bytes \<Rightarrow> bytes" where
  "trim_end_byte b s = rev (dropWhile (\<lambda>c. c = b) (rev s))"

definition path_join :: "bytes \<Rightarrow> bytes \<Rightarrow> bytes" where
  "path_join dir name = (if dir = [] then name else if last dir = 0x2f then dir @ name else dir @ 0x2f # name)"

text \<open>\<open>str::trim_start_matches\<close>, \<open>str::trim_end_matches\<close> and \<open>str::splitn\<close> with a one-byte separator.\<close>

function trim_start_matches :: "bytes \<Rightarrow> bytes \<Rightarrow> bytes" where
  "trim_start_matches p s = (if p \<noteq> [] \<and> starts_with s p then trim_start_matches p (drop (length p) s) else s)"
  by pat_completeness auto
termination
  by (relation "measure (\<lambda>(p, s). length s)") (auto simp: starts_with_def intro!: diff_less)

declare trim_start_matches.simps [simp del]

definition trim_end_matches :: "bytes \<Rightarrow> bytes \<Rightarrow> bytes" where
  "trim_end_matches p s = rev (trim_start_matches (rev p) (rev s))"

fun splitn :: "nat \<Rightarrow> byte \<Rightarrow> bytes \<Rightarrow> bytes list" where
  "splitn n sep [] = [[]]"
| "splitn n sep (b # bs) =
     (if b = sep \<and> 1 < n then [] # splitn (n - 1) sep bs
      else case splitn n sep bs of f # fs \<Rightarrow> (b # f) # fs | [] \<Rightarrow> [[b]])"

text \<open>\<open>Path::components\<close> without the root, and \<open>Path::file_name\<close>.\<close>

definition components :: "bytes \<Rightarrow> bytes list" where
  "components p = filter (\<lambda>c. c \<noteq> [] \<and> c \<noteq> ascii ''.'') (split_on 0x2f p)"

definition file_name :: "bytes \<Rightarrow> bytes option" where
  "file_name p = (let cs = components p in if cs = [] \<or> last cs = ascii ''..'' then None else Some (last cs))"

subsection \<open>Options and signed integers\<close>

definition the_or :: "'a option \<Rightarrow> error \<Rightarrow> 'a res" where
  "the_or x e = (case x of None \<Rightarrow> Inl (Err e) | Some x \<Rightarrow> Inr x)"

definition unwrap_opt :: "'a option \<Rightarrow> 'a res" where
  "unwrap_opt x = (case x of None \<Rightarrow> Inl Panic | Some x \<Rightarrow> Inr x)"

definition show_int :: "int \<Rightarrow> bytes" where
  "show_int i = (if i < 0 then 0x2d # show_nat (nat (- i)) else show_nat (nat i))"

text \<open>\<open>FromStr\<close> of \<open>i32\<close>.\<close>

definition parse_i32 :: "bytes \<Rightarrow> int option" where
  "parse_i32 s =
     (if s \<noteq> [] \<and> hd s = 0x2d
      then if starts_with (tl s) (ascii ''+'') then None else map_option (\<lambda>n. - int n) (parse_uint (2 ^ 31 + 1) (tl s))
      else map_option int (parse_uint (2 ^ 31) s))"

lemma show_nat_hd: "hd (show_nat n) \<noteq> 0x2d"
proof (induction n rule: show_nat.induct)
  case (1 n)
  show ?case
  proof (cases "n < 10")
    case True
    then have "n \<in> {0, 1, 2, 3, 4, 5, 6, 7, 8, 9}" by auto
    then show ?thesis using True by (auto simp: show_nat.simps)
  next
    case False
    obtain b bs where "show_nat (n div 10) = b # bs" using show_nat_head by blast
    then show ?thesis using 1 False by (simp add: show_nat.simps[of n])
  qed
qed

lemma parse_show_int:
  assumes "- (2 ^ 31) \<le> i" "i < 2 ^ 31"
  shows "parse_i32 (show_int i) = Some i"
proof -
  obtain b bs where head: "show_nat (nat (- i)) = b # bs" "b \<noteq> 0x2b" using show_nat_head by blast
  show ?thesis
  proof (cases "i < 0")
    case True
    then have "nat (- i) < 2 ^ 31 + 1" using assms(1) by simp
    then show ?thesis using True head parse_uint_show_nat[of "nat (- i)" "2 ^ 31 + 1"]
      by (simp add: parse_i32_def show_int_def starts_with_def)
  next
    case False
    then have "nat i < 2 ^ 31" using assms(2) by simp
    moreover have "hd (show_nat (nat i)) \<noteq> 0x2d" by (rule show_nat_hd)
    ultimately show ?thesis using False parse_uint_show_nat[of "nat i" "2 ^ 31"]
      by (simp add: parse_i32_def show_int_def)
  qed
qed

end
