(* ===== verification/Kernel_Filter.thy ===== *)
theory Kernel_Filter
  imports Elkeid_Prelude
begin

section \<open>The allowlists of the kernel module\<close>

text \<open>
  The control device of the kernel module, \<^verbatim>\<open>src/driver/LKM/src/filter.c\<close>: \<open>device_write\<close> and the
  operations on the two allowlists. A red-black tree ordered by \<open>strcmp\<close> is the set of its strings; the
  counters \<open>..._limit\<close> are kept beside it as in the code. A C string is the bytes before the first NUL.
  The two allocations of an addition may fail: \<open>alloc_main\<close> and \<open>alloc_node\<close> say whether they succeed.
  The commands for file notifications and for printing do not touch the allowlists.
\<close>

record lkm_filter =
  execve_exe_allowlist :: "bytes set"
  execve_exe_allowlist_limit :: int
  execve_argv_allowlist :: "bytes set"
  execve_argv_allowlist_limit :: int

definition lkm_init :: lkm_filter where
  "lkm_init = \<lparr>execve_exe_allowlist = {}, execve_exe_allowlist_limit = 0,
     execve_argv_allowlist = {}, execve_argv_allowlist_limit = 0\<rparr>"

definition ALLOWLIST_NODE_MIN :: nat where "ALLOWLIST_NODE_MIN = 5"
definition ALLOWLIST_NODE_MAX :: nat where "ALLOWLIST_NODE_MAX = 4090"
definition ALLOWLIST_LIMIT :: int where "ALLOWLIST_LIMIT = 128"

text \<open>\<open>isspace\<close> of the kernel's character table.\<close>

definition isspace :: "byte \<Rightarrow> bool" where
  "isspace b \<longleftrightarrow> (9 \<le> b \<and> b \<le> 13) \<or> b = 32 \<or> b = 160"

definition c_string :: "bytes \<Rightarrow> bytes" where
  "c_string bs = takeWhile (\<lambda>b. b \<noteq> 0) bs"

definition smith_strim :: "bytes \<Rightarrow> bytes" where
  "smith_strim s = dropWhile isspace (rev (dropWhile isspace (rev s)))"

definition add_execve_exe_allowlist :: "bool \<Rightarrow> bytes \<Rightarrow> lkm_filter \<Rightarrow> lkm_filter" where
  "add_execve_exe_allowlist alloc_node data st =
     (if \<not> alloc_node then st
      else if data \<in> execve_exe_allowlist st then st
      else st\<lparr>execve_exe_allowlist := insert data (execve_exe_allowlist st),
              execve_exe_allowlist_limit := execve_exe_allowlist_limit st + 1\<rparr>)"

definition del_execve_exe_allowlist :: "bytes \<Rightarrow> lkm_filter \<Rightarrow> lkm_filter" where
  "del_execve_exe_allowlist data st =
     (if data \<in> execve_exe_allowlist st
      then st\<lparr>execve_exe_allowlist := execve_exe_allowlist st - {data},
              execve_exe_allowlist_limit := execve_exe_allowlist_limit st - 1\<rparr>
      else st)"

definition del_all_execve_exe_allowlist :: "lkm_filter \<Rightarrow> lkm_filter" where
  "del_all_execve_exe_allowlist st =
     st\<lparr>execve_exe_allowlist := {}, execve_exe_allowlist_limit := 0\<rparr>"

definition execve_exe_check :: "bytes \<Rightarrow> lkm_filter \<Rightarrow> bool" where
  "execve_exe_check data st =
     (if data = ascii ''-1'' \<or> data = ascii ''-2'' then False else data \<in> execve_exe_allowlist st)"

definition add_execve_argv_allowlist :: "bool \<Rightarrow> bytes \<Rightarrow> lkm_filter \<Rightarrow> lkm_filter" where
  "add_execve_argv_allowlist alloc_node data st =
     (if \<not> alloc_node then st
      else if data \<in> execve_argv_allowlist st then st
      else st\<lparr>execve_argv_allowlist := insert data (execve_argv_allowlist st),
              execve_argv_allowlist_limit := execve_argv_allowlist_limit st + 1\<rparr>)"

definition del_execve_argv_allowlist :: "bytes \<Rightarrow> lkm_filter \<Rightarrow> lkm_filter" where
  "del_execve_argv_allowlist data st =
     (if data \<in> execve_argv_allowlist st
      then st\<lparr>execve_argv_allowlist := execve_argv_allowlist st - {data},
              execve_argv_allowlist_limit := execve_argv_allowlist_limit st - 1\<rparr>
      else st)"

definition del_all_execve_argv_allowlist :: "lkm_filter \<Rightarrow> lkm_filter" where
  "del_all_execve_argv_allowlist st =
     st\<lparr>execve_argv_allowlist := {}, execve_argv_allowlist_limit := 0\<rparr>"

definition execve_argv_check :: "bytes \<Rightarrow> lkm_filter \<Rightarrow> bool" where
  "execve_argv_check data st =
     (if data = ascii ''-1'' \<or> data = ascii ''-2'' then False
      else smith_strim data \<in> execve_argv_allowlist st)"

definition device_write :: "bool \<Rightarrow> bool \<Rightarrow> bytes \<Rightarrow> lkm_filter \<Rightarrow> lkm_filter" where
  "device_write alloc_main alloc_node buff st =
     (let len = length buff; flag = hd buff in
      if len < ALLOWLIST_NODE_MIN \<or> ALLOWLIST_NODE_MAX < len then st
      else if flag = 89 \<and> ALLOWLIST_LIMIT < execve_exe_allowlist_limit st then st
      else if flag = 109 \<and> ALLOWLIST_LIMIT < execve_argv_allowlist_limit st then st
      else if \<not> alloc_main then st
      else let data_main = smith_strim (c_string (tl buff)) in
        if flag = 89 then add_execve_exe_allowlist alloc_node data_main st
        else if flag = 70 then del_execve_exe_allowlist data_main st
        else if flag = 119 then del_all_execve_exe_allowlist st
        else if flag = 109 then add_execve_argv_allowlist alloc_node data_main st
        else if flag = 74 then del_execve_argv_allowlist data_main st
        else if flag = 117 then del_all_execve_argv_allowlist st
        else st)"

text \<open>The kernel's view of what was written to the device when its allocations succeed. A message for which \<open>kzalloc\<close> fails is ignored; the
  plugin does not notice, so that a filter whose removal is lost stays in the kernel. The theorems on \<open>replay\<close> are about
  kernels with memory; \<open>device_write_keeps_counters\<close> below is about all.\<close>

definition replay :: "bytes list \<Rightarrow> lkm_filter \<Rightarrow> lkm_filter" where
  "replay ws st = foldl (\<lambda>st w. device_write True True w st) st ws"

definition lkm_inv :: "lkm_filter \<Rightarrow> bool" where
  "lkm_inv st \<longleftrightarrow>
     finite (execve_exe_allowlist st) \<and> finite (execve_argv_allowlist st) \<and>
     execve_exe_allowlist_limit st = int (card (execve_exe_allowlist st)) \<and>
     execve_argv_allowlist_limit st = int (card (execve_argv_allowlist st)) \<and>
     card (execve_exe_allowlist st) \<le> 129 \<and> card (execve_argv_allowlist st) \<le> 129"

lemmas lkm_op_defs =
  add_execve_exe_allowlist_def del_execve_exe_allowlist_def del_all_execve_exe_allowlist_def
  add_execve_argv_allowlist_def del_execve_argv_allowlist_def del_all_execve_argv_allowlist_def

lemma card_remove: "finite A \<Longrightarrow> x \<in> A \<Longrightarrow> int (card (A - {x})) = int (card A) - 1"
  using card_Suc_Diff1[of A x] by linarith

lemma card_remove_le: "card A \<le> n \<Longrightarrow> finite A \<Longrightarrow> card (A - {x}) \<le> n"
  by (meson card_Diff1_le le_trans)

lemma device_write_inv: "lkm_inv st \<Longrightarrow> lkm_inv (device_write a n w st)"
  unfolding lkm_inv_def device_write_def Let_def lkm_op_defs ALLOWLIST_LIMIT_def
  by (auto simp: card_remove card_remove_le simp del: card_Diff_insert)

lemma lkm_inv_init: "lkm_inv lkm_init"
  by (simp add: lkm_inv_def lkm_init_def)

lemma replay_Nil [simp]: "replay [] st = st"
  by (simp add: replay_def)

lemma replay_append [simp]: "replay (ws @ ws') st = replay ws' (replay ws st)"
  by (simp add: replay_def)

lemma replay_Cons: "replay (w # ws) st = replay ws (device_write True True w st)"
  by (simp add: replay_def)

lemma replay_inv: "lkm_inv st \<Longrightarrow> lkm_inv (replay ws st)"
  by (induction ws arbitrary: st) (simp_all add: replay_Cons device_write_inv)

text \<open>What a message does to the allowlists. A name of at least three and at most 4088 bytes gives a
  message that the device does not ignore; \<open>kname\<close> is the string the kernel makes of it.\<close>

definition msg_ok :: "bytes \<Rightarrow> bool" where
  "msg_ok x \<longleftrightarrow> 3 \<le> length x \<and> length x \<le> 4088"

definition kname :: "bytes \<Rightarrow> bytes" where
  "kname x = smith_strim (c_string (x @ [0x0a]))"

lemma device_write_exe:
  "execve_exe_allowlist (device_write True True (89 # x @ [0x0a]) st) =
     (if msg_ok x \<and> execve_exe_allowlist_limit st \<le> 128
      then insert (kname x) (execve_exe_allowlist st) else execve_exe_allowlist st)"
  "execve_exe_allowlist (device_write True True (70 # x @ [0x0a]) st) =
     (if msg_ok x then execve_exe_allowlist st - {kname x} else execve_exe_allowlist st)"
  "execve_exe_allowlist (device_write True True (109 # x @ [0x0a]) st) = execve_exe_allowlist st"
  "execve_exe_allowlist (device_write True True (74 # x @ [0x0a]) st) = execve_exe_allowlist st"
  unfolding device_write_def Let_def
  by (auto simp: lkm_op_defs ALLOWLIST_LIMIT_def ALLOWLIST_NODE_MIN_def ALLOWLIST_NODE_MAX_def
      msg_ok_def kname_def)

lemma device_write_argv:
  "execve_argv_allowlist (device_write True True (109 # x @ [0x0a]) st) =
     (if msg_ok x \<and> execve_argv_allowlist_limit st \<le> 128
      then insert (kname x) (execve_argv_allowlist st) else execve_argv_allowlist st)"
  "execve_argv_allowlist (device_write True True (74 # x @ [0x0a]) st) =
     (if msg_ok x then execve_argv_allowlist st - {kname x} else execve_argv_allowlist st)"
  "execve_argv_allowlist (device_write True True (89 # x @ [0x0a]) st) = execve_argv_allowlist st"
  "execve_argv_allowlist (device_write True True (70 # x @ [0x0a]) st) = execve_argv_allowlist st"
  unfolding device_write_def Let_def
  by (auto simp: lkm_op_defs ALLOWLIST_LIMIT_def ALLOWLIST_NODE_MIN_def ALLOWLIST_NODE_MAX_def
      msg_ok_def kname_def)

text \<open>Every write to the control device keeps the counters equal to the sizes of the allowlists, and
  no allowlist ever holds more than 129 strings, whatever is written and whichever allocations fail.\<close>

theorem device_write_keeps_counters:
  "lkm_inv (foldl (\<lambda>st (alloc_main, alloc_node, w). device_write alloc_main alloc_node w st) lkm_init ws)"
proof -
  have "lkm_inv (foldl (\<lambda>st (alloc_main, alloc_node, w). device_write alloc_main alloc_node w st) st ws)"
    if "lkm_inv st" for st
    using that by (induction ws arbitrary: st) (auto simp: device_write_inv)
  then show ?thesis using lkm_inv_init by blast
qed

end
