(* ===== verification/Driver_Kmod.thy ===== *)
theory Driver_Kmod
  imports Elkeid_Prelude Rust_Std Kernel_Filter
begin

section \<open>Kernel module filters of the driver plugin\<close>

text \<open>
  \<^verbatim>\<open>src/plugins/driver/src/kmod.rs\<close> and the constants of \<^verbatim>\<open>src/plugins/driver/src/config.rs\<close>. The
  plugin asks the kernel module to stop reporting an executable or a command line by writing
  messages to a control device, and keeps what it asked for in two queues with the time of the request;
  a thread takes entries out of the queues when their time is over. The control device is the list of
  the buffers written to it; \<open>None\<close> is a device that has been closed. An \<open>Instant\<close> is a number
  of seconds.
\<close>

subsection \<open>Constants\<close>

definition KMOD_VERSION :: bytes where "KMOD_VERSION = ascii ''1.7.0.4''"
definition KMOD_NAME :: bytes where "KMOD_NAME = ascii ''hids_driver''"
definition REMOVE_EXE_FILTER_FLAG :: bytes where "REMOVE_EXE_FILTER_FLAG = ascii ''F''"
definition ADD_EXE_FILTER_FLAG :: bytes where "ADD_EXE_FILTER_FLAG = ascii ''Y''"
definition REMOVE_ALL_EXE_FILTER_FLAG :: bytes where "REMOVE_ALL_EXE_FILTER_FLAG = ascii ''w''"
definition REMOVE_ARGV_FILTER_FLAG :: bytes where "REMOVE_ARGV_FILTER_FLAG = ascii ''J''"
definition ADD_ARGV_FILTER_FLAG :: bytes where "ADD_ARGV_FILTER_FLAG = ascii ''m''"
definition REMOVE_ALL_ARGV_FILTER_FLAG :: bytes where "REMOVE_ALL_ARGV_FILTER_FLAG = ascii ''u''"
definition PADDING_CONTENT :: bytes where "PADDING_CONTENT = ascii ''elkeid''"
definition EXE_FILTER_TIME :: nat where "EXE_FILTER_TIME = 60 * 10"
definition ARGV_FILTER_TIME :: nat where "ARGV_FILTER_TIME = 60"
definition EXE_WHITELIST :: "bytes list" where "EXE_WHITELIST = []"
definition ARGV_WHITELIST :: "bytes list" where "ARGV_WHITELIST = []"

subsection \<open>State and operations\<close>

type_synonym queue = "(nat \<times> bytes) list"

record kmod =
  filtered_exe_entries :: queue
  filtered_argv_entries :: queue
  controler :: "bytes list option"

definition control :: "bytes list \<Rightarrow> bytes \<Rightarrow> bytes \<Rightarrow> bytes list" where
  "control written flag contents = written @ [flag @ contents @ [0x0a]]"

definition unwrap_controler :: "kmod \<Rightarrow> bytes list res" where
  "unwrap_controler k = (case controler k of None \<Rightarrow> Inl Panic | Some c \<Rightarrow> Inr c)"

definition add_filtered_argv :: "nat \<Rightarrow> bytes \<Rightarrow> kmod \<Rightarrow> kmod res" where
  "add_filtered_argv now argv k =
     bind_res
       (if 128 - length ARGV_WHITELIST \<le> length (filtered_argv_entries k)
        then (case filtered_argv_entries k of
                [] \<Rightarrow> Inl Panic
              | (_, front_argv) # rest \<Rightarrow>
                  bind_res (unwrap_controler k) (\<lambda>c.
                  Inr (k\<lparr>filtered_argv_entries := rest,
                         controler := Some (control c REMOVE_ARGV_FILTER_FLAG front_argv)\<rparr>)))
        else Inr k) (\<lambda>k.
     bind_res (unwrap_controler k) (\<lambda>c.
     Inr (k\<lparr>controler := Some (control c ADD_ARGV_FILTER_FLAG argv),
            filtered_argv_entries := filtered_argv_entries k @ [(now, argv)]\<rparr>)))"

definition add_filtered_argv_fixed :: "bytes \<Rightarrow> kmod \<Rightarrow> kmod res" where
  "add_filtered_argv_fixed argv k =
     bind_res (unwrap_controler k) (\<lambda>c.
     Inr (k\<lparr>controler := Some (control c ADD_ARGV_FILTER_FLAG argv)\<rparr>))"

definition add_filtered_exe :: "nat \<Rightarrow> bytes \<Rightarrow> kmod \<Rightarrow> kmod res" where
  "add_filtered_exe now exe k =
     bind_res
       (if 128 - length EXE_WHITELIST < length (filtered_exe_entries k)
        then (case filtered_exe_entries k of
                [] \<Rightarrow> Inl Panic
              | (_, front_exe) # rest \<Rightarrow>
                  bind_res (unwrap_controler k) (\<lambda>c.
                  Inr (k\<lparr>filtered_exe_entries := rest,
                         controler := Some (control c REMOVE_EXE_FILTER_FLAG front_exe)\<rparr>)))
        else Inr k) (\<lambda>k.
     bind_res (unwrap_controler k) (\<lambda>c.
     Inr (k\<lparr>controler := Some (control c ADD_EXE_FILTER_FLAG exe),
            filtered_exe_entries := filtered_exe_entries k @ [(now, exe)]\<rparr>)))"

definition add_filtered_exe_fixed :: "bytes \<Rightarrow> kmod \<Rightarrow> kmod res" where
  "add_filtered_exe_fixed exe k =
     bind_res (unwrap_controler k) (\<lambda>c.
     Inr (k\<lparr>controler := Some (control c ADD_EXE_FILTER_FLAG exe)\<rparr>))"

text \<open>The thread \<open>ttl_filters\<close>: one round of its outer loop, without the sleep. \<open>clock i\<close> is the time at
  the \<open>i\<close>-th call of \<open>elapsed\<close>.\<close>

fun ttl_exe_loop :: "(nat \<Rightarrow> nat) \<Rightarrow> nat \<Rightarrow> queue \<Rightarrow> bytes list option \<Rightarrow> queue \<times> bytes list option \<times> nat" where
  "ttl_exe_loop clock i [] c = ([], c, i)"
| "ttl_exe_loop clock i ((instant, exe) # q) c =
     (if clock i - instant < EXE_FILTER_TIME then ((instant, exe) # q, c, i + 1)
      else case c of
        Some c \<Rightarrow> ttl_exe_loop clock (i + 1) q (Some (control c REMOVE_EXE_FILTER_FLAG exe))
      | None \<Rightarrow> (q, None, i + 1))"

fun ttl_argv_loop ::
  "(nat \<Rightarrow> nat) \<Rightarrow> nat \<Rightarrow> queue \<Rightarrow> queue \<Rightarrow> bytes list option \<Rightarrow> queue \<times> queue \<times> bytes list option" where
  "ttl_argv_loop clock i exes [] c = (exes, [], c)"
| "ttl_argv_loop clock i exes ((instant, argv) # q) c =
     (if clock i - instant < ARGV_FILTER_TIME then ((instant, argv) # exes, q, c)
      else case c of
        Some c \<Rightarrow> ttl_argv_loop clock (i + 1) exes q (Some (control c REMOVE_ARGV_FILTER_FLAG argv))
      | None \<Rightarrow> (exes, q, None))"

definition ttl_filters :: "(nat \<Rightarrow> nat) \<Rightarrow> kmod \<Rightarrow> kmod" where
  "ttl_filters clock k =
     (case ttl_exe_loop clock 0 (filtered_exe_entries k) (controler k) of (exes, c, i) \<Rightarrow>
      case ttl_argv_loop clock i exes (filtered_argv_entries k) c of (exes, argvs, c) \<Rightarrow>
      k\<lparr>filtered_exe_entries := exes, filtered_argv_entries := argvs, controler := c\<rparr>)"

definition drop_kmod :: "kmod \<Rightarrow> kmod" where
  "drop_kmod k = k\<lparr>controler := None\<rparr>"


subsection \<open>The filter queues as an interface\<close>

text \<open>What both \<open>add_filtered_...\<close> methods promise: with the device open they do not panic; when the queue
  is full the oldest entry is taken out and the kernel is told so; the new entry is at the back and
  the kernel is told so.\<close>

definition message :: "byte \<Rightarrow> bytes \<Rightarrow> bytes" where
  "message flag x = flag # x @ [0x0a]"

locale filter_queue =
  fixes add :: "nat \<Rightarrow> bytes \<Rightarrow> kmod \<Rightarrow> kmod res"
    and entries :: "kmod \<Rightarrow> queue"
    and cap :: nat
    and add_flag remove_flag :: byte
  assumes cap_pos: "0 < cap"
    and add_closed: "controler k = None \<Longrightarrow> add now x k = Inl Panic"
    and add_room: "controler k = Some c \<Longrightarrow> length (entries k) < cap \<Longrightarrow>
      \<exists>k'. add now x k = Inr k' \<and> entries k' = entries k @ [(now, x)] \<and>
        controler k' = Some (c @ [message add_flag x])"
    and add_full: "controler k = Some c \<Longrightarrow> entries k = (t, y) # q \<Longrightarrow> cap \<le> length (entries k) \<Longrightarrow>
      \<exists>k'. add now x k = Inr k' \<and> entries k' = q @ [(now, x)] \<and>
        controler k' = Some (c @ [message remove_flag y, message add_flag x])"
begin

fun add_all :: "queue \<Rightarrow> kmod \<Rightarrow> kmod res" where
  "add_all [] k = Inr k"
| "add_all ((now, x) # xs) k = bind_res (add now x k) (add_all xs)"

lemma add_last:
  assumes "controler k = Some c" "length (entries k) \<le> cap"
  shows "\<exists>k' c'. add now x k = Inr k' \<and> controler k' = Some c' \<and>
    entries k' = drop (length (entries k) + 1 - cap) (entries k @ [(now, x)])"
proof (cases "length (entries k) < cap")
  case True
  from add_room[OF assms(1) this, of now x] True show ?thesis by fastforce
next
  case False
  then obtain t y q where q: "entries k = (t, y) # q" using cap_pos by (cases "entries k") auto
  from add_full[OF assms(1) q, of now x] False q assms(2) show ?thesis by fastforce
qed

lemma add_all_last:
  assumes "controler k = Some c" "length (entries k) \<le> cap"
  shows "\<exists>k' c'. add_all xs k = Inr k' \<and> controler k' = Some c' \<and>
    entries k' = drop (length (entries k) + length xs - cap) (entries k @ xs)"
  using assms
proof (induction xs arbitrary: k c)
  case (Cons e xs)
  obtain now x where e: "e = (now, x)" by fastforce
  obtain k1 c1 where k1: "add now x k = Inr k1" "controler k1 = Some c1"
    "entries k1 = drop (length (entries k) + 1 - cap) (entries k @ [(now, x)])"
    using add_last[OF Cons.prems] by blast
  have len: "length (entries k1) \<le> cap" using k1(3) Cons.prems(2) by simp
  from Cons.IH[OF k1(2) len] obtain k' c' where k': "add_all xs k1 = Inr k'" "controler k' = Some c'"
    "entries k' = drop (length (entries k1) + length xs - cap) (entries k1 @ xs)" by blast
  have "entries k1 @ xs = drop (length (entries k) + 1 - cap) (entries k @ e # xs)"
    using k1(3) Cons.prems(2) e cap_pos by simp
  then have "entries k' = drop (length (entries k) + length (e # xs) - cap) (entries k @ e # xs)"
  proof -
    assume all: "entries k1 @ xs = drop (length (entries k) + 1 - cap) (entries k @ e # xs)"
    have "length (entries k1) = length (entries k) + 1 - (length (entries k) + 1 - cap)"
      using k1(3) by simp
    then have "length (entries k1) + length xs - cap + (length (entries k) + 1 - cap) =
        length (entries k) + length (e # xs) - cap"
      using Cons.prems(2) cap_pos by simp
    then show ?thesis unfolding k'(3) all drop_drop by (simp only:)
  qed
  then show ?case using k1(1) k'(1,2) e by simp
qed simp

end

lemma Kmod_consts [simp]:
  "length ARGV_WHITELIST = 0" "length EXE_WHITELIST = 0"
  by (simp_all add: ARGV_WHITELIST_def EXE_WHITELIST_def)

lemmas flag_defs =
  REMOVE_EXE_FILTER_FLAG_def ADD_EXE_FILTER_FLAG_def REMOVE_ARGV_FILTER_FLAG_def ADD_ARGV_FILTER_FLAG_def

lemmas add_defs = add_filtered_exe_def add_filtered_argv_def unwrap_controler_def control_def
  flag_defs message_def

interpretation exe_queue: filter_queue add_filtered_exe filtered_exe_entries 129 89 70
  by unfold_locales (auto simp: add_defs bind_res_eq_Inl split: list.splits option.splits)

interpretation argv_queue: filter_queue add_filtered_argv filtered_argv_entries 128 109 74
  by unfold_locales (auto simp: add_defs bind_res_eq_Inl split: list.splits option.splits)


subsection \<open>Sequences of events\<close>

text \<open>The calls that change the filters, in any order: the transformer's two \<open>add_filtered_...\<close> calls and
  rounds of the thread \<open>ttl_filters\<close>. Each takes its locks for its whole duration, so their effects
  are atomic.\<close>

datatype kmod_event = AddExe nat bytes | AddArgv nat bytes | Ttl "nat \<Rightarrow> nat"

fun kmod_event_step :: "kmod_event \<Rightarrow> kmod \<Rightarrow> kmod res" where
  "kmod_event_step (AddExe now exe) k = add_filtered_exe now exe k"
| "kmod_event_step (AddArgv now argv) k = add_filtered_argv now argv k"
| "kmod_event_step (Ttl clock) k = Inr (ttl_filters clock k)"

fun kmod_run :: "kmod_event list \<Rightarrow> kmod \<Rightarrow> kmod res" where
  "kmod_run [] k = Inr k"
| "kmod_run (e # es) k = bind_res (kmod_event_step e k) (kmod_run es)"

definition kmod_init :: kmod where
  "kmod_init = \<lparr>filtered_exe_entries = [], filtered_argv_entries = [], controler = Some []\<rparr>"

definition kernel_view :: "kmod \<Rightarrow> lkm_filter" where
  "kernel_view k = (case controler k of None \<Rightarrow> lkm_init | Some ws \<Rightarrow> replay ws lkm_init)"

definition filtered_names :: "queue \<Rightarrow> bytes set" where
  "filtered_names q = kname ` {x \<in> snd ` set q. msg_ok x}"

text \<open>The link between the exe queue and the kernel: whatever the kernel filters has an entry.\<close>

definition exe_sync :: "kmod \<Rightarrow> bool" where
  "exe_sync k \<longleftrightarrow> (\<exists>c. controler k = Some c) \<and>
     execve_exe_allowlist (kernel_view k) \<subseteq> filtered_names (filtered_exe_entries k)"

lemma filtered_names_Nil [simp]: "filtered_names [] = {}"
  by (simp add: filtered_names_def)

lemma filtered_names_append [simp]: "filtered_names (q @ q') = filtered_names q \<union> filtered_names q'"
  by (auto simp: filtered_names_def)

lemma filtered_names_Cons [simp]:
  "filtered_names ((t, x) # q) = (if msg_ok x then insert (kname x) (filtered_names q) else filtered_names q)"
  by (auto simp: filtered_names_def)

lemma card_filtered_names: "card (filtered_names q) \<le> length q"
proof -
  have "card (filtered_names q) \<le> card (snd ` set q)"
    unfolding filtered_names_def
    by (rule order_trans[OF card_image_le card_mono]) auto
  also have "\<dots> \<le> length q" by (meson card_image_le card_length finite_set le_trans)
  finally show ?thesis .
qed

lemma kernel_view_Some: "controler k = Some c \<Longrightarrow> kernel_view k = replay c lkm_init"
  by (simp add: kernel_view_def)

lemma add_exe_message:
  "execve_exe_allowlist (replay [message 89 x] st) \<subseteq> (if msg_ok x then insert (kname x) (execve_exe_allowlist st) else execve_exe_allowlist st)"
  "execve_exe_allowlist (replay [message 70 x] st) =
     (if msg_ok x then execve_exe_allowlist st - {kname x} else execve_exe_allowlist st)"
  "execve_exe_allowlist (replay [message 109 x] st) = execve_exe_allowlist st"
  "execve_exe_allowlist (replay [message 74 x] st) = execve_exe_allowlist st"
  by (auto simp: replay_Cons message_def device_write_exe)

text \<open>\<open>add_filtered_exe\<close> as two messages: an optional removal of the front entry, then the addition.\<close>

lemma add_filtered_exe_cases:
  assumes "controler k = Some c"
  obtains k' where "add_filtered_exe now x k = Inr k'" "length (filtered_exe_entries k) \<le> 128"
      "filtered_exe_entries k' = filtered_exe_entries k @ [(now, x)]"
      "filtered_argv_entries k' = filtered_argv_entries k"
      "kernel_view k' = replay [message 89 x] (kernel_view k)" "\<exists>c'. controler k' = Some c'"
  | k' t y q where "add_filtered_exe now x k = Inr k'" "filtered_exe_entries k = (t, y) # q"
      "128 \<le> length q" "filtered_exe_entries k' = q @ [(now, x)]"
      "filtered_argv_entries k' = filtered_argv_entries k"
      "kernel_view k' = replay [message 89 x] (replay [message 70 y] (kernel_view k))"
      "\<exists>c'. controler k' = Some c'"
proof (cases "128 < length (filtered_exe_entries k)")
  case True
  then obtain t y q where q: "filtered_exe_entries k = (t, y) # q"
    by (cases "filtered_exe_entries k") auto
  let ?k = "k\<lparr>controler := Some (c @ [message 70 y, message 89 x]), filtered_exe_entries := q @ [(now, x)]\<rparr>"
  have "add_filtered_exe now x k = Inr ?k"
    using True q assms by (simp add: add_defs)
  then show ?thesis
    by (rule that(2)[OF _ q]) (use True q assms in \<open>simp_all add: kernel_view_def replay_Cons\<close>)
next
  case False
  let ?k = "k\<lparr>controler := Some (c @ [message 89 x]),
    filtered_exe_entries := filtered_exe_entries k @ [(now, x)]\<rparr>"
  have "add_filtered_exe now x k = Inr ?k"
    using False assms by (simp add: add_defs)
  then show ?thesis
    by (rule that(1)) (use False assms in \<open>simp_all add: kernel_view_def\<close>)
qed

lemma add_filtered_argv_frame:
  assumes "controler k = Some c"
  shows "\<exists>k'. add_filtered_argv now x k = Inr k' \<and> filtered_exe_entries k' = filtered_exe_entries k \<and>
    execve_exe_allowlist (kernel_view k') = execve_exe_allowlist (kernel_view k) \<and>
    (\<exists>c'. controler k' = Some c')"
proof (cases "128 \<le> length (filtered_argv_entries k)")
  case True
  then obtain t y q where "filtered_argv_entries k = (t, y) # q"
    by (cases "filtered_argv_entries k") auto
  then show ?thesis
    using assms True add_exe_message(3,4)
    by (auto simp: add_defs kernel_view_def replay_Cons device_write_exe)
next
  case False
  then show ?thesis
    using assms by (auto simp: add_defs kernel_view_def replay_Cons device_write_exe)
qed


lemma exe_sync_add_exe:
  assumes "exe_sync k"
  shows "\<exists>k'. add_filtered_exe now x k = Inr k' \<and> exe_sync k'"
proof -
  obtain c where c: "controler k = Some c"
    and sub: "execve_exe_allowlist (kernel_view k) \<subseteq> filtered_names (filtered_exe_entries k)"
    using assms by (auto simp: exe_sync_def)
  from c show ?thesis
  proof (cases rule: add_filtered_exe_cases[where now = now and x = x])
    case (1 k')
    then show ?thesis
      using sub add_exe_message(1)[of x "kernel_view k"] by (auto simp: exe_sync_def split: if_splits)
  next
    case (2 k' t y q)
    let ?st = "replay [message 70 y] (kernel_view k)"
    have "execve_exe_allowlist ?st \<subseteq> filtered_names q"
      using sub 2(2) unfolding add_exe_message(2) by (auto split: if_splits)
    then show ?thesis
      using 2 add_exe_message(1)[of x ?st] by (auto simp: exe_sync_def split: if_splits)
  qed
qed

lemma exe_sync_add_argv:
  "exe_sync k \<Longrightarrow> \<exists>k'. add_filtered_argv now x k = Inr k' \<and> exe_sync k'"
  using add_filtered_argv_frame[of k _ now x] by (fastforce simp: exe_sync_def)

lemma ttl_exe_loop_sync:
  assumes "ttl_exe_loop clock i q (Some c) = (q', c', i')"
    and "execve_exe_allowlist (replay c lkm_init) \<subseteq> filtered_names q"
  shows "\<exists>d. c' = Some d \<and> execve_exe_allowlist (replay d lkm_init) \<subseteq> filtered_names q'"
  using assms
proof (induction q arbitrary: i c)
  case (Cons e q)
  obtain t x where e: "e = (t, x)" by fastforce
  show ?case
  proof (cases "clock i - t < EXE_FILTER_TIME")
    case True
    then show ?thesis using Cons.prems e by auto
  next
    case False
    have ctl: "control c REMOVE_EXE_FILTER_FLAG x = c @ [message 70 x]"
      by (simp add: control_def flag_defs message_def)
    have "execve_exe_allowlist (replay (c @ [message 70 x]) lkm_init) \<subseteq> filtered_names q"
      using Cons.prems(2) e add_exe_message(2)[of x "replay c lkm_init"]
      by (auto split: if_splits)
    then show ?thesis using Cons.IH[of "i + 1" "c @ [message 70 x]"] Cons.prems(1) e False ctl by simp
  qed
qed auto

lemma ttl_argv_loop_sync:
  assumes "ttl_argv_loop clock i exes q (Some c) = (exes', q', c')"
  shows "\<exists>d. c' = Some d \<and> set exes \<subseteq> set exes' \<and>
    execve_exe_allowlist (replay d lkm_init) = execve_exe_allowlist (replay c lkm_init)"
  using assms
proof (induction q arbitrary: i c)
  case (Cons e q)
  obtain t x where e: "e = (t, x)" by fastforce
  have ctl: "control c REMOVE_ARGV_FILTER_FLAG x = c @ [message 74 x]"
    by (simp add: control_def flag_defs message_def)
  show ?case
    using Cons.IH[of "i + 1" "c @ [message 74 x]"] Cons.prems e add_exe_message(4)[of x "replay c lkm_init"] ctl
    by (auto split: if_splits)
qed auto

lemma filtered_names_mono: "set q \<subseteq> set q' \<Longrightarrow> filtered_names q \<subseteq> filtered_names q'"
  by (auto simp: filtered_names_def)

lemma exe_sync_ttl: "exe_sync k \<Longrightarrow> exe_sync (ttl_filters clock k)"
proof -
  assume "exe_sync k"
  then obtain c where c: "controler k = Some c"
    and sub: "execve_exe_allowlist (replay c lkm_init) \<subseteq> filtered_names (filtered_exe_entries k)"
    by (auto simp: exe_sync_def kernel_view_def)
  obtain q1 c1 i where l1: "ttl_exe_loop clock 0 (filtered_exe_entries k) (Some c) = (q1, c1, i)"
    by (metis prod_cases3)
  from ttl_exe_loop_sync[OF l1 sub] obtain d where d: "c1 = Some d"
    "execve_exe_allowlist (replay d lkm_init) \<subseteq> filtered_names q1" by blast
  obtain q2 a2 c2 where l2: "ttl_argv_loop clock i q1 (filtered_argv_entries k) (Some d) = (q2, a2, c2)"
    by (metis prod_cases3)
  from ttl_argv_loop_sync[OF l2] obtain d2 where "c2 = Some d2" "filtered_names q1 \<subseteq> filtered_names q2"
    "execve_exe_allowlist (replay d2 lkm_init) = execve_exe_allowlist (replay d lkm_init)"
    using filtered_names_mono by blast
  then show ?thesis
    using l1 l2 c d by (auto simp: ttl_filters_def exe_sync_def kernel_view_def)
qed

lemma kmod_run_sync:
  "exe_sync k \<Longrightarrow> \<exists>k'. kmod_run es k = Inr k' \<and> exe_sync k'"
proof (induction es arbitrary: k)
  case (Cons e es)
  have "\<exists>k'. kmod_event_step e k = Inr k' \<and> exe_sync k'"
    using Cons.prems exe_sync_add_exe exe_sync_add_argv exe_sync_ttl by (cases e) auto
  then show ?case using Cons.IH by auto
qed simp

lemma exe_sync_init: "exe_sync kmod_init"
  by (simp add: exe_sync_def kmod_init_def kernel_view_def lkm_init_def)


subsection \<open>Properties of the filters\<close>

lemma lkm_inv_view: "lkm_inv (kernel_view k)"
  by (simp add: kernel_view_def lkm_inv_init replay_inv split: option.splits)

lemma limit_le_queue:
  assumes "lkm_inv st" "execve_exe_allowlist st \<subseteq> filtered_names q" "length q \<le> 128"
  shows "execve_exe_allowlist_limit st \<le> 128"
proof -
  have "finite (filtered_names q)" by (simp add: filtered_names_def)
  then have "card (execve_exe_allowlist st) \<le> 128"
    using card_mono[OF _ assms(2)] card_filtered_names[of q] assms(3) by linarith
  then show ?thesis using assms(1) by (simp add: lkm_inv_def)
qed

definition exe_only :: "kmod_event \<Rightarrow> bool" where
  "exe_only e \<longleftrightarrow> (case e of AddArgv _ _ \<Rightarrow> False | _ \<Rightarrow> True)"

definition exe_inv :: "kmod \<Rightarrow> bool" where
  "exe_inv k \<longleftrightarrow> exe_sync k \<and> length (filtered_exe_entries k) \<le> 129 \<and> filtered_argv_entries k = []"

lemma ttl_exe_loop_suffix: "ttl_exe_loop clock i q c = (q', c', i') \<Longrightarrow> suffix q' q"
  by (induction clock i q c arbitrary: q' c' i' rule: ttl_exe_loop.induct)
     (auto split: if_splits option.splits intro: suffix_ConsI)

lemma exe_inv_step:
  assumes "exe_inv k" "exe_only e"
  shows "\<exists>k'. kmod_event_step e k = Inr k' \<and> exe_inv k'"
proof (cases e)
  case (AddExe now x)
  obtain c where c: "controler k = Some c" using assms by (auto simp: exe_inv_def exe_sync_def)
  obtain k' where k': "add_filtered_exe now x k = Inr k'" "exe_sync k'"
    using exe_sync_add_exe[of k now x] assms by (auto simp: exe_inv_def)
  have "length (filtered_exe_entries k') \<le> 129 \<and> filtered_argv_entries k' = filtered_argv_entries k"
    using c assms(1) k'(1)
    by (cases rule: add_filtered_exe_cases[where now = now and x = x]) (auto simp: exe_inv_def)
  then show ?thesis using assms(1) k' AddExe by (simp add: exe_inv_def)
next
  case (Ttl clock)
  obtain q c i where l: "ttl_exe_loop clock 0 (filtered_exe_entries k) (controler k) = (q, c, i)"
    by (metis prod_cases3)
  have "length q \<le> length (filtered_exe_entries k)"
    using ttl_exe_loop_suffix[OF l] by (rule suffix_length_le)
  then show ?thesis
    using Ttl assms(1) exe_sync_ttl[of k clock] l by (auto simp: exe_inv_def ttl_filters_def)
qed (use assms in \<open>simp add: exe_only_def\<close>)

lemma exe_inv_run:
  "exe_inv k \<Longrightarrow> list_all exe_only es \<Longrightarrow> \<exists>k'. kmod_run es k = Inr k' \<and> exe_inv k'"
proof (induction es arbitrary: k)
  case (Cons e es)
  then show ?case using exe_inv_step[of k e] by auto
qed simp

lemma exe_inv_init: "exe_inv kmod_init"
  using exe_sync_init by (simp add: exe_inv_def kmod_init_def)

lemma add_exe_effective:
  assumes "exe_inv k" "msg_ok x" "add_filtered_exe now x k = Inr k'"
  shows "kname x \<in> execve_exe_allowlist (kernel_view k')"
proof -
  obtain c where c: "controler k = Some c"
    and sub: "execve_exe_allowlist (kernel_view k) \<subseteq> filtered_names (filtered_exe_entries k)"
    using assms(1) by (auto simp: exe_inv_def exe_sync_def)
  have eff: "kname x \<in> execve_exe_allowlist (replay [message 89 x] st)"
    if "execve_exe_allowlist_limit st \<le> 128" for st
    using that assms(2) by (simp add: replay_Cons message_def device_write_exe)
  from c show ?thesis
  proof (cases rule: add_filtered_exe_cases[where now = now and x = x])
    case (1 k1)
    then show ?thesis
      using eff limit_le_queue[OF lkm_inv_view sub] assms(3) by simp
  next
    case (2 k1 t y q)
    let ?st = "replay [message 70 y] (kernel_view k)"
    have "execve_exe_allowlist ?st \<subseteq> filtered_names q"
      using sub 2(2) unfolding add_exe_message(2) by (auto split: if_splits)
    moreover have "length q \<le> 128" using 2(2) assms(1) by (simp add: exe_inv_def)
    ultimately have "execve_exe_allowlist_limit ?st \<le> 128"
      using limit_le_queue[of ?st q] replay_inv[OF lkm_inv_view] by blast
    then show ?thesis using eff 2(1,6) assms(3) by simp
  qed
qed

text \<open>C7: in every sequence of filter requests and rounds of the expiry thread, no call panics, and every
  executable the kernel module filters still has an entry in the plugin's queue, so that its filter
  will be taken back; no exe filter is forgotten.\<close>

theorem kernel_filters_are_queued:
  "\<exists>k. kmod_run es kmod_init = Inr k \<and>
     execve_exe_allowlist (kernel_view k) \<subseteq> filtered_names (filtered_exe_entries k)"
  using kmod_run_sync[OF exe_sync_init, of es] by (auto simp: exe_sync_def)

lemma kmod_run_add_exe: "kmod_run (map (\<lambda>(t, x). AddExe t x) xs) k = exe_queue.add_all xs k"
  by (induction xs arbitrary: k) (auto simp: bind_res_def split: sum.splits)

lemma kmod_run_add_argv: "kmod_run (map (\<lambda>(t, x). AddArgv t x) xs) k = argv_queue.add_all xs k"
  by (induction xs arbitrary: k) (auto simp: bind_res_def split: sum.splits)

text \<open>However many requests come in, the queues hold exactly the most recent ones: the last 129
  executables and the last 128 command lines.\<close>

theorem queues_hold_latest:
  assumes "controler k = Some c" "length (filtered_exe_entries k) \<le> 129" "length (filtered_argv_entries k) \<le> 128"
  shows "(\<exists>k'. kmod_run (map (\<lambda>(t, x). AddExe t x) xs) k = Inr k' \<and>
      filtered_exe_entries k' =
        drop (length (filtered_exe_entries k) + length xs - 129) (filtered_exe_entries k @ xs)) \<and>
    (\<exists>k'. kmod_run (map (\<lambda>(t, x). AddArgv t x) xs) k = Inr k' \<and>
      filtered_argv_entries k' =
        drop (length (filtered_argv_entries k) + length xs - 128) (filtered_argv_entries k @ xs))"
  using exe_queue.add_all_last[OF assms(1,2), of xs] argv_queue.add_all_last[OF assms(1,3), of xs]
  unfolding kmod_run_add_exe kmod_run_add_argv by blast

theorem queues_hold_latest_witness:
  "(\<exists>k'. kmod_run (map (\<lambda>(t, x). AddExe t x) (replicate 200 (7, ascii ''/opt/a''))) kmod_init = Inr k' \<and>
      filtered_exe_entries k' = drop (length (filtered_exe_entries kmod_init) + length (replicate 200 (7::nat, ascii ''/opt/a'')) - 129)
        (filtered_exe_entries kmod_init @ replicate 200 (7, ascii ''/opt/a''))) \<and>
    (\<exists>k'. kmod_run (map (\<lambda>(t, x). AddArgv t x) (replicate 200 (7, ascii ''/opt/a''))) kmod_init = Inr k' \<and>
      filtered_argv_entries k' = drop (length (filtered_argv_entries kmod_init) + length (replicate 200 (7::nat, ascii ''/opt/a'')) - 128)
        (filtered_argv_entries kmod_init @ replicate 200 (7, ascii ''/opt/a'')))"
  by (rule queues_hold_latest) (simp_all add: kmod_init_def)

lemma ttl_exe_loop_sorted:
  assumes "sorted (map fst q)"
  shows "fst (ttl_exe_loop (\<lambda>_. now) i q (Some c)) = filter (\<lambda>e. now - fst e < EXE_FILTER_TIME) q \<and>
    fst (snd (ttl_exe_loop (\<lambda>_. now) i q (Some c))) =
      Some (c @ map (\<lambda>e. message 70 (snd e)) (filter (\<lambda>e. \<not> now - fst e < EXE_FILTER_TIME) q))"
  using assms
proof (induction q arbitrary: i c)
  case (Cons e q)
  obtain t x where e: "e = (t, x)" by fastforce
  show ?case
  proof (cases "now - t < EXE_FILTER_TIME")
    case True
    have "now - fst e' < EXE_FILTER_TIME" if "e' \<in> set q" for e'
      using Cons.prems e that True by fastforce
    then show ?thesis using True e by (simp add: filter_id_conv)
  next
    case False
    then show ?thesis
      using Cons.IH[of "i + 1" "c @ [message 70 x]"] Cons.prems e
      by (simp add: control_def flag_defs message_def)
  qed
qed simp

text \<open>A round of the expiry thread over an exe queue in the order of the requests takes out exactly
  the entries of ten minutes or more and tells the kernel so for each of them, in order; the younger
  entries stay.\<close>

theorem ttl_filters_expires_exe:
  assumes "controler k = Some c" "sorted (map fst (filtered_exe_entries k))" "filtered_argv_entries k = []"
  shows "ttl_filters (\<lambda>_. now) k = k\<lparr>
    filtered_exe_entries := filter (\<lambda>e. now - fst e < 600) (filtered_exe_entries k),
    controler := Some (c @ map (\<lambda>e. message 70 (snd e))
      (filter (\<lambda>e. \<not> now - fst e < 600) (filtered_exe_entries k)))\<rparr>"
  using ttl_exe_loop_sorted[OF assms(2), of now 0 c] assms(1,3)
  by (auto simp: ttl_filters_def EXE_FILTER_TIME_def split: prod.splits)

theorem ttl_filters_expires_exe_witness:
  "ttl_filters (\<lambda>_. 650) \<lparr>filtered_exe_entries = [(10, ascii ''/opt/a''), (100, ascii ''/opt/b'')],
     filtered_argv_entries = [], controler = Some []\<rparr> =
   \<lparr>filtered_exe_entries = [(100, ascii ''/opt/b'')], filtered_argv_entries = [],
     controler = Some [message 70 (ascii ''/opt/a'')]\<rparr>"
  using ttl_filters_expires_exe[of "\<lparr>filtered_exe_entries = [(10, ascii ''/opt/a''), (100, ascii ''/opt/b'')],
     filtered_argv_entries = [], controler = Some []\<rparr>" "[]" 650]
  by simp

text \<open>The expiry thread loses command line filters. A command line requested at \<open>t0\<close> that a round
  finds not yet expired is put into the exe queue; when it expires there, the kernel is told to drop an
  executable of that name, and the command line stays filtered with both queues empty.\<close>

theorem ttl_filters_leaks_argv:
  assumes "msg_ok argv" "t1 - t0 < 60" "600 \<le> t2 - t0"
  shows "\<exists>k. kmod_run [AddArgv t0 argv, Ttl (\<lambda>_. t1), Ttl (\<lambda>_. t2)] kmod_init = Inr k \<and>
    filtered_exe_entries k = [] \<and> filtered_argv_entries k = [] \<and>
    kname argv \<in> execve_argv_allowlist (kernel_view k)"
  using assms
  by (simp add: kmod_init_def add_defs ttl_filters_def EXE_FILTER_TIME_def ARGV_FILTER_TIME_def
      kernel_view_def replay_Cons device_write_argv lkm_init_def)

theorem ttl_filters_leaks_argv_witness:
  "\<exists>k. kmod_run [AddArgv 100 (ascii ''sleep 1''), Ttl (\<lambda>_. 105), Ttl (\<lambda>_. 800)] kmod_init = Inr k \<and>
    filtered_exe_entries k = [] \<and> filtered_argv_entries k = [] \<and>
    kname (ascii ''sleep 1'') \<in> execve_argv_allowlist (kernel_view k)"
  by (rule ttl_filters_leaks_argv) (simp_all add: msg_ok_def)

end
