(* ===== verification/Driver_Cache.thy ===== *)
theory Driver_Cache
  imports Elkeid_Prelude Rust_Std
begin

section \<open>The caches of the driver plugin\<close>

text \<open>
  \<^verbatim>\<open>src/plugins/driver/src/transformer/cache.rs\<close>. The crates and system calls the caches use are the
  fields of the record \<open>env\<close>, a parameter of every definition: the LRU cache of type \<open>'l\<close>, the rate
  limiter of type \<open>'r\<close>, the two TTL caches of type \<open>'c\<close> (counters) and \<open>'f\<close> (keys only), and the world
  \<open>'w\<close>, which every system call may read and change and which carries the clocks. What is assumed of
  them is stated where it is used.
\<close>

subsection \<open>Third-party crates and the operating system\<close>

datatype read_end = ReadOk | ReadUnexpectedEof | ReadOtherError

record ('l, 'r, 'c, 'f, 'w) env =
  lru_new :: "nat \<Rightarrow> 'l"
  lru_get_mut :: "'l \<Rightarrow> bytes \<Rightarrow> bytes option \<times> 'l"
  lru_insert :: "'l \<Rightarrow> bytes \<Rightarrow> bytes \<Rightarrow> 'l"
  limiter_direct :: "u32 \<Rightarrow> 'r"
  limiter_check :: "'r \<Rightarrow> 'w \<Rightarrow> bool \<times> 'r \<times> 'w"
  ttl_new :: "nat \<Rightarrow> 'c"
  ttl_get_mut :: "'c \<Rightarrow> bytes \<Rightarrow> 'w \<Rightarrow> nat option \<times> 'c \<times> 'w"
  ttl_store :: "'c \<Rightarrow> bytes \<Rightarrow> nat \<Rightarrow> 'c"
  ttl_insert :: "'c \<Rightarrow> bytes \<Rightarrow> nat \<Rightarrow> nat \<Rightarrow> 'w \<Rightarrow> 'c \<times> 'w"
  conn_new :: "nat \<Rightarrow> 'f"
  conn_contains_key :: "'f \<Rightarrow> bytes \<Rightarrow> 'w \<Rightarrow> bool \<times> 'w"
  conn_insert :: "'f \<Rightarrow> bytes \<Rightarrow> nat \<Rightarrow> 'w \<Rightarrow> 'f \<times> 'w"
  fs_read :: "bytes \<Rightarrow> 'w \<Rightarrow> bytes option \<times> 'w"
  file_open :: "bytes \<Rightarrow> 'w \<Rightarrow> nat option \<times> 'w"
  file_metadata_len :: "nat \<Rightarrow> 'w \<Rightarrow> u64 option \<times> 'w"
  file_read_to_end :: "nat \<Rightarrow> nat \<Rightarrow> 'w \<Rightarrow> (bytes \<times> read_end) \<times> 'w"
  xxhash64 :: "u64 \<Rightarrow> bytes \<Rightarrow> u64"
  hex_encode :: "bytes \<Rightarrow> bytes"
  getpwuid :: "u32 \<Rightarrow> 'w \<Rightarrow> bytes option \<times> 'w"
  unix_secs :: "'w \<Rightarrow> u64 option \<times> 'w"
  instant_now :: "'w \<Rightarrow> nat \<times> 'w"
  iprange_contains_v4 :: "bytes list \<Rightarrow> byte list \<Rightarrow> bool"
  iprange_contains_v6 :: "bytes list \<Rightarrow> 16 word list \<Rightarrow> bool"

subsection \<open>Command lines\<close>

record ('l, 'r) ArgvCache =
  argv_lru :: 'l
  argv_limiter :: 'r

definition ArgvCache_new :: "('l, 'r, 'c, 'f, 'w) env \<Rightarrow> nat \<Rightarrow> ('l, 'r) ArgvCache" where
  "ArgvCache_new E cap = \<lparr>argv_lru = lru_new E cap, argv_limiter = limiter_direct E 25\<rparr>"

definition is_ascii_whitespace :: "byte \<Rightarrow> bool" where
  "is_ascii_whitespace b \<longleftrightarrow> b = 0x20 \<or> b = 0x09 \<or> b = 0x0a \<or> b = 0x0c \<or> b = 0x0d"

definition rposition :: "('a \<Rightarrow> bool) \<Rightarrow> 'a list \<Rightarrow> nat option" where
  "rposition P xs = (case filter (\<lambda>i. P (xs ! i)) (rev [0..<length xs]) of [] \<Rightarrow> None | i # _ \<Rightarrow> Some i)"

text \<open>What \<open>get\<close> makes of the contents of \<^verbatim>\<open>/proc/<pid>/cmdline\<close>.\<close>

definition clean_cmdline :: "bytes \<Rightarrow> bytes" where
  "clean_cmdline v =
     (let v = (if 256 < length v then take 256 v else v);
          v = map (\<lambda>b. if b = 0 then 0x20 else b) v;
          offset = (case rposition (\<lambda>x. \<not> is_ascii_whitespace x) v of None \<Rightarrow> 0 | Some i \<Rightarrow> i)
      in take (offset + 1) v)"

definition ArgvCache_put :: "('l, 'r, 'c, 'f, 'w) env \<Rightarrow> bytes \<Rightarrow> bytes \<Rightarrow> ('l, 'r) ArgvCache \<Rightarrow> ('l, 'r) ArgvCache" where
  "ArgvCache_put E key val s = s\<lparr>argv_lru := lru_insert E (argv_lru s) key val\<rparr>"

definition parse_pid :: "bytes \<Rightarrow> nat option" where
  "parse_pid pid = parse_usize (case from_utf8 pid of None \<Rightarrow> [] | Some s \<Rightarrow> s)"

definition ArgvCache_get ::
  "('l, 'r, 'c, 'f, 'w) env \<Rightarrow> bytes \<Rightarrow> ('l, 'r) ArgvCache \<Rightarrow> 'w \<Rightarrow> bytes \<times> ('l, 'r) ArgvCache \<times> 'w" where
  "ArgvCache_get E pid s w =
     (case parse_pid pid of
        None \<Rightarrow> (ascii ''-3'', s, w)
      | Some pidnum \<Rightarrow>
          (case lru_get_mut E (argv_lru s) pid of
             (Some v, l) \<Rightarrow> (v, s\<lparr>argv_lru := l\<rparr>, w)
           | (None, l) \<Rightarrow>
               (case limiter_check E (argv_limiter s) w of (ok, r, w) \<Rightarrow>
                  let s = s\<lparr>argv_lru := l, argv_limiter := r\<rparr> in
                  if ok then
                    (case fs_read E (ascii ''/proc/'' @ show_nat pidnum @ ascii ''/cmdline'') w of
                       (Some v, w) \<Rightarrow>
                         let cmdline = clean_cmdline v
                         in (cmdline, ArgvCache_put E pid cmdline s, w)
                     | (None, w) \<Rightarrow> (ascii ''-3'', s, w))
                  else (ascii ''-4'', s, w))))"

subsection \<open>Pod names\<close>

record ('l, 'r) NsCache =
  ns_lru :: 'l
  ns_limiter :: 'r

definition NsCache_new :: "('l, 'r, 'c, 'f, 'w) env \<Rightarrow> nat \<Rightarrow> ('l, 'r) NsCache" where
  "NsCache_new E cap = \<lparr>ns_lru = lru_new E cap, ns_limiter = limiter_direct E 25\<rparr>"

definition NsCache_put :: "('l, 'r, 'c, 'f, 'w) env \<Rightarrow> bytes \<Rightarrow> bytes \<Rightarrow> ('l, 'r) NsCache \<Rightarrow> ('l, 'r) NsCache" where
  "NsCache_put E key val s = s\<lparr>ns_lru := lru_insert E (ns_lru s) key val\<rparr>"

text \<open>The loop over the environment variables.\<close>

fun find_pod_name :: "bytes list \<Rightarrow> bytes \<Rightarrow> bytes" where
  "find_pod_name [] pod_name = pod_name"
| "find_pod_name (env # envs) pod_name =
     (let pod_name = (case split_on 0x3d env of
            env_name # env_value # _ \<Rightarrow>
              if env_name = ascii ''MY_POD_NAME'' \<or> env_name = ascii ''POD_NAME''
              then pod_name @ env_value else pod_name
          | _ \<Rightarrow> pod_name)
      in if pod_name \<noteq> [] then pod_name else find_pod_name envs pod_name)"

definition NsCache_get ::
  "('l, 'r, 'c, 'f, 'w) env \<Rightarrow> bytes \<Rightarrow> bytes \<Rightarrow> ('l, 'r) NsCache \<Rightarrow> 'w \<Rightarrow> bytes \<times> ('l, 'r) NsCache \<times> 'w" where
  "NsCache_get E pns pid s w =
     (case parse_pid pid of
        None \<Rightarrow> (ascii ''-3'', s, w)
      | Some pid \<Rightarrow>
          (case lru_get_mut E (ns_lru s) pns of
             (Some v, l) \<Rightarrow> (v, s\<lparr>ns_lru := l\<rparr>, w)
           | (None, l) \<Rightarrow>
               (case limiter_check E (ns_limiter s) w of (ok, r, w) \<Rightarrow>
                  let s = s\<lparr>ns_lru := l, ns_limiter := r\<rparr> in
                  if ok then
                    (case fs_read E (ascii ''/proc/'' @ show_nat pid @ ascii ''/environ'') w of
                       (Some v, w) \<Rightarrow>
                         let pod_name = find_pod_name (split_on 0 v) []
                         in if pod_name = [] then (pod_name, s, w)
                            else (pod_name, NsCache_put E pns pod_name s, w)
                     | (None, w) \<Rightarrow> (ascii ''-3'', s, w))
                  else (ascii ''-4'', s, w))))"

subsection \<open>Hashes of executables\<close>

record 'l HashCache =
  hash_lru :: 'l
  hash_buffer :: bytes

definition HashCache_new :: "('l, 'r, 'c, 'f, 'w) env \<Rightarrow> nat \<Rightarrow> 'l HashCache" where
  "HashCache_new E cap = \<lparr>hash_lru = lru_new E cap, hash_buffer = []\<rparr>"

definition HashCache_put :: "('l, 'r, 'c, 'f, 'w) env \<Rightarrow> bytes \<Rightarrow> bytes \<Rightarrow> 'l HashCache \<Rightarrow> 'l HashCache" where
  "HashCache_put E key val s = s\<lparr>hash_lru := lru_insert E (hash_lru s) key val\<rparr>"

definition u64_to_be_bytes :: "u64 \<Rightarrow> bytes" where
  "u64_to_be_bytes n = map (\<lambda>i. ucast (drop_bit (8 * i) n)) (rev [0..<8])"

definition HashCache_get ::
  "('l, 'r, 'c, 'f, 'w) env \<Rightarrow> bytes \<Rightarrow> 'l HashCache \<Rightarrow> 'w \<Rightarrow> bytes \<times> 'l HashCache \<times> 'w" where
  "HashCache_get E exe s w =
     (if 1024 < length exe then (ascii ''-3'', s, w)
      else case lru_get_mut E (hash_lru s) exe of
        (Some v, l) \<Rightarrow> (v, s\<lparr>hash_lru := l\<rparr>, w)
      | (None, l) \<Rightarrow>
          let s = s\<lparr>hash_lru := l\<rparr> in
          (case from_utf8 exe of
             None \<Rightarrow> (ascii ''-3'', s, w)
           | Some path \<Rightarrow>
               (case file_open E path w of
                  (None, w) \<Rightarrow> (ascii ''-3'', s, w)
                | (Some fd, w) \<Rightarrow>
                    (case file_metadata_len E fd w of
                       (None, w) \<Rightarrow> (ascii ''-3'', s, w)
                     | (Some len, w) \<Rightarrow>
                         (case file_read_to_end E fd (32 * 1024) w of ((buffer, end_of_read), w) \<Rightarrow>
                            let s = s\<lparr>hash_buffer := buffer\<rparr> in
                            if end_of_read = ReadOtherError then (ascii ''-3'', s, w)
                            else
                              let hash = hex_encode E (u64_to_be_bytes (xxhash64 E len (hash_buffer s)))
                              in (hash, HashCache_put E exe hash s, w))))))"

subsection \<open>User names\<close>

record 'l UserCache =
  user_lru :: 'l

definition UserCache_new :: "('l, 'r, 'c, 'f, 'w) env \<Rightarrow> nat \<Rightarrow> 'l UserCache" where
  "UserCache_new E cap = \<lparr>user_lru = lru_new E cap\<rparr>"

definition UserCache_put :: "('l, 'r, 'c, 'f, 'w) env \<Rightarrow> bytes \<Rightarrow> bytes \<Rightarrow> 'l UserCache \<Rightarrow> 'l UserCache" where
  "UserCache_put E key val s = s\<lparr>user_lru := lru_insert E (user_lru s) key val\<rparr>"

definition UserCache_get ::
  "('l, 'r, 'c, 'f, 'w) env \<Rightarrow> bytes \<Rightarrow> 'l UserCache \<Rightarrow> 'w \<Rightarrow> bytes \<times> 'l UserCache \<times> 'w" where
  "UserCache_get E uid_s s w =
     (case lru_get_mut E (user_lru s) uid_s of
        (Some v, l) \<Rightarrow> (v, s\<lparr>user_lru := l\<rparr>, w)
      | (None, l) \<Rightarrow>
          let s = s\<lparr>user_lru := l\<rparr> in
          (case parse_u32 (case from_utf8 uid_s of None \<Rightarrow> [] | Some u \<Rightarrow> u) of
             None \<Rightarrow> (ascii ''-3'', s, w)
           | Some uid \<Rightarrow>
               (case getpwuid E uid w of
                  (Some v, w) \<Rightarrow> (v, UserCache_put E uid_s v s, w)
                | (None, w) \<Rightarrow> (ascii ''-3'', s, w))))"


subsection \<open>What the caches share\<close>

text \<open>The contract of \<open>get\<close> in all four caches: a key that is not admissible gives \<^verbatim>\<open>-3\<close> and changes nothing;
  a key that the LRU cache finds is answered from it, without a look at the world; otherwise the
  answer is stored in the cache unless it is one of the answers for failures.\<close>

locale memo_cache =
  fixes get :: "bytes \<Rightarrow> 's \<Rightarrow> 'w \<Rightarrow> bytes \<times> 's \<times> 'w"
    and find :: "'s \<Rightarrow> bytes \<Rightarrow> bytes option \<times> 's"
    and put :: "bytes \<Rightarrow> bytes \<Rightarrow> 's \<Rightarrow> 's"
    and miss :: "'s \<Rightarrow> 's \<Rightarrow> bool"
    and admissible :: "bytes \<Rightarrow> bool"
    and failures :: "bytes set"
  assumes get_bad: "\<not> admissible k \<Longrightarrow> get k s w = (ascii ''-3'', s, w)"
    and get_hit: "admissible k \<Longrightarrow> find s k = (Some v, s') \<Longrightarrow> get k s w = (v, s', w)"
    and get_miss: "admissible k \<Longrightarrow> find s k = (None, s1) \<Longrightarrow> get k s w = (v, s', w') \<Longrightarrow>
      miss s1 s' \<and> v \<in> failures \<or> (\<exists>s2. miss s1 s2 \<and> s' = put k v s2)"
    and bad_failure: "ascii ''-3'' \<in> failures"
begin

lemma get_put:
  assumes "admissible k" "\<exists>s'. find (put k v s) k = (Some v, s')"
  shows "\<exists>s'. get k (put k v s) w = (v, s', w)"
  using assms get_hit by blast

lemma get_stable:
  assumes good: "good s" "get k s w = (v, s', w')" "v \<notin> failures"
    and find_put: "\<And>v s. good s \<Longrightarrow> fst (find (put k v s) k) = Some v"
    and find_again: "\<And>v s s'. good s \<Longrightarrow> find s k = (Some v, s') \<Longrightarrow> fst (find s' k) = Some v"
    and find_good: "\<And>s. good s \<Longrightarrow> good (snd (find s k))"
    and miss_good: "\<And>s s'. good s \<Longrightarrow> miss s s' \<Longrightarrow> good s'"
  shows "\<exists>s''. get k s' w'' = (v, s'', w'')"
proof -
  have adm: "admissible k"
    using get_bad[of k s w] bad_failure good(2,3) by auto
  obtain r s1 where f: "find s k = (r, s1)" by fastforce
  have "fst (find s' k) = Some v"
  proof (cases r)
    case None
    then obtain s2 where "miss s1 s2" "s' = put k v s2"
      using get_miss[OF adm _ good(2)] f good(3) by auto
    moreover have "good s1" using find_good[OF good(1)] f by simp
    ultimately show ?thesis using find_put miss_good by blast
  next
    case (Some x)
    then show ?thesis using get_hit[OF adm, of s x s1 w] find_again[OF good(1)] f good(2) by auto
  qed
  then show ?thesis using get_hit[OF adm] by (metis prod.collapse)
qed

end

definition lru_find :: "('l, 'r, 'c, 'f, 'w) env \<Rightarrow> ('s \<Rightarrow> 'l) \<Rightarrow> (('l \<Rightarrow> 'l) \<Rightarrow> 's \<Rightarrow> 's) \<Rightarrow> 's \<Rightarrow> bytes \<Rightarrow> bytes option \<times> 's" where
  "lru_find E sel upd s k = (case lru_get_mut E (sel s) k of (r, l) \<Rightarrow> (r, upd (\<lambda>_. l) s))"

lemmas cache_defs = lru_find_def ArgvCache_get_def NsCache_get_def HashCache_get_def UserCache_get_def
  ArgvCache_put_def NsCache_put_def HashCache_put_def UserCache_put_def

interpretation argv_memo: memo_cache "ArgvCache_get E" "lru_find E argv_lru argv_lru_update" "ArgvCache_put E"
    "\<lambda>s s'. argv_lru s' = argv_lru s" "\<lambda>k. parse_pid k \<noteq> None" "{ascii ''-3'', ascii ''-4''}"
  for E :: "('l, 'r, 'c, 'f, 'w) env"
proof unfold_locales
  fix k s s1 w v s' w'
  assume "parse_pid k \<noteq> None" "lru_find E argv_lru argv_lru_update s k = (None, s1)"
    "ArgvCache_get E k s w = (v, s', w')"
  then show "argv_lru s' = argv_lru s1 \<and> v \<in> {ascii ''-3'', ascii ''-4''} \<or>
      (\<exists>s2. argv_lru s2 = argv_lru s1 \<and> s' = ArgvCache_put E k v s2)"
    unfolding lru_find_def ArgvCache_get_def
    by (auto simp: Let_def split: option.splits prod.splits if_splits
        intro!: exI[where x = "s\<lparr>argv_lru := x, argv_limiter := y\<rparr>" for x y])
qed (auto simp: lru_find_def ArgvCache_get_def split: prod.splits)

interpretation ns_memo: memo_cache "\<lambda>k. NsCache_get E k pid" "lru_find E ns_lru ns_lru_update" "NsCache_put E"
    "\<lambda>s s'. ns_lru s' = ns_lru s" "\<lambda>k. parse_pid pid \<noteq> None" "{ascii ''-3'', ascii ''-4'', []}"
  for E :: "('l, 'r, 'c, 'f, 'w) env" and pid :: bytes
proof unfold_locales
  fix k s s1 w v s' w'
  assume "parse_pid pid \<noteq> None" "lru_find E ns_lru ns_lru_update s k = (None, s1)"
    "NsCache_get E k pid s w = (v, s', w')"
  then show "ns_lru s' = ns_lru s1 \<and> v \<in> {ascii ''-3'', ascii ''-4'', []} \<or>
      (\<exists>s2. ns_lru s2 = ns_lru s1 \<and> s' = NsCache_put E k v s2)"
    unfolding lru_find_def NsCache_get_def
    by (auto simp: Let_def split: option.splits prod.splits if_splits
        intro!: exI[where x = "s\<lparr>ns_lru := x, ns_limiter := y\<rparr>" for x y])
qed (auto simp: lru_find_def NsCache_get_def split: prod.splits)

interpretation hash_memo: memo_cache "HashCache_get E" "lru_find E hash_lru hash_lru_update" "HashCache_put E"
    "\<lambda>s s'. hash_lru s' = hash_lru s" "\<lambda>k. length k \<le> 1024" "{ascii ''-3''}"
  for E :: "('l, 'r, 'c, 'f, 'w) env"
proof unfold_locales
  fix k s s1 w v s' w'
  assume "length k \<le> 1024" "lru_find E hash_lru hash_lru_update s k = (None, s1)"
    "HashCache_get E k s w = (v, s', w')"
  then show "hash_lru s' = hash_lru s1 \<and> v \<in> {ascii ''-3''} \<or>
      (\<exists>s2. hash_lru s2 = hash_lru s1 \<and> s' = HashCache_put E k v s2)"
    unfolding lru_find_def HashCache_get_def
    by (auto simp: Let_def split: option.splits prod.splits if_splits
        intro!: exI[where x = "s\<lparr>hash_lru := x, hash_buffer := y\<rparr>" for x y])
qed (auto simp: lru_find_def HashCache_get_def split: prod.splits)

interpretation user_memo: memo_cache "UserCache_get E" "lru_find E user_lru user_lru_update" "UserCache_put E"
    "\<lambda>s s'. user_lru s' = user_lru s" "\<lambda>k. True" "{ascii ''-3''}"
  for E :: "('l, 'r, 'c, 'f, 'w) env"
proof unfold_locales
  fix k s s1 w v s' w'
  assume "lru_find E user_lru user_lru_update s k = (None, s1)" "UserCache_get E k s w = (v, s', w')"
  then show "user_lru s' = user_lru s1 \<and> v \<in> {ascii ''-3''} \<or>
      (\<exists>s2. user_lru s2 = user_lru s1 \<and> s' = UserCache_put E k v s2)"
    unfolding lru_find_def UserCache_get_def
    by (auto simp: Let_def split: option.splits prod.splits if_splits
        intro!: exI[where x = "s\<lparr>user_lru := x\<rparr>" for x])
qed (auto simp: lru_find_def UserCache_get_def split: prod.splits)


subsection \<open>Assumptions on the LRU cache, and an instance\<close>

text \<open>What the crate \<^verbatim>\<open>lru-cache\<close> documents, for the caches \<open>G\<close> of positive capacity: an inserted pair is found,
  finding a pair keeps it, and the capacity does not change.\<close>

definition lru_lawful :: "('l, 'r, 'c, 'f, 'w) env \<Rightarrow> ('l \<Rightarrow> bool) \<Rightarrow> bool" where
  "lru_lawful E G \<longleftrightarrow>
     (\<forall>n. 0 < n \<longrightarrow> G (lru_new E n)) \<and>
     (\<forall>l k v. G l \<longrightarrow> G (lru_insert E l k v) \<and> fst (lru_get_mut E (lru_insert E l k v) k) = Some v) \<and>
     (\<forall>l k. G l \<longrightarrow> G (snd (lru_get_mut E l k))) \<and>
     (\<forall>l k v. G l \<longrightarrow> fst (lru_get_mut E l k) = Some v \<longrightarrow>
        fst (lru_get_mut E (snd (lru_get_mut E l k)) k) = Some v)"

text \<open>A list based cache, counters without expiry and a world that is a clock; used to show that the
  assumptions can be met.\<close>

type_synonym sample_lru = "nat \<times> (bytes \<times> bytes) list"

definition sample_insert :: "sample_lru \<Rightarrow> bytes \<Rightarrow> bytes \<Rightarrow> sample_lru" where
  "sample_insert l k v = (fst l, take (fst l) ((k, v) # filter (\<lambda>e. fst e \<noteq> k) (snd l)))"

definition sample_get_mut :: "sample_lru \<Rightarrow> bytes \<Rightarrow> bytes option \<times> sample_lru" where
  "sample_get_mut l k = (case map_of (snd l) k of
     None \<Rightarrow> (None, l)
   | Some v \<Rightarrow> (Some v, (fst l, (k, v) # filter (\<lambda>e. fst e \<noteq> k) (snd l))))"

definition sample_env :: "(sample_lru, unit, (bytes \<times> nat) list, bytes list, nat) env" where
  "sample_env = \<lparr>
     lru_new = (\<lambda>n. (n, [])),
     lru_get_mut = sample_get_mut,
     lru_insert = sample_insert,
     limiter_direct = (\<lambda>_. ()),
     limiter_check = (\<lambda>r w. (True, r, w)),
     ttl_new = (\<lambda>_. []),
     ttl_get_mut = (\<lambda>c k w. (map_of c k, c, w)),
     ttl_store = (\<lambda>c k n. (k, n) # filter (\<lambda>e. fst e \<noteq> k) c),
     ttl_insert = (\<lambda>c k n d w. ((k, n) # filter (\<lambda>e. fst e \<noteq> k) c, w)),
     conn_new = (\<lambda>_. []),
     conn_contains_key = (\<lambda>f k w. (k \<in> set f, w)),
     conn_insert = (\<lambda>f k d w. (k # f, w)),
     fs_read = (\<lambda>p w. (if p = ascii ''/proc/1/cmdline'' then Some (ascii ''init'')
       else if p = ascii ''/proc/1/environ'' then Some (ascii ''POD_NAME=web'') else None, w + 1)),
     file_open = (\<lambda>p w. (Some 3, w + 1)),
     file_metadata_len = (\<lambda>fd w. (Some 10, w)),
     file_read_to_end = (\<lambda>fd n w. (([1, 2, 3], ReadOk), w)),
     xxhash64 = (\<lambda>n b. n + of_nat (length b)),
     hex_encode = id,
     getpwuid = (\<lambda>u w. (if u = 0 then Some (ascii ''root'') else None, w)),
     unix_secs = (\<lambda>w. (Some 1600000000, w)),
     instant_now = (\<lambda>w. (w, w)),
     iprange_contains_v4 = (\<lambda>nets ip. hd ip = 127),
     iprange_contains_v6 = (\<lambda>nets ip. last ip = 1)\<rparr>"

lemma sample_env_simps [simp]:
  "lru_new sample_env n = (n, [])"
  "lru_get_mut sample_env = sample_get_mut"
  "lru_insert sample_env = sample_insert"
  "limiter_direct sample_env q = ()"
  "limiter_check sample_env r w = (True, r, w)"
  "ttl_new sample_env n = []"
  "ttl_get_mut sample_env c k w = (map_of c k, c, w)"
  "ttl_store sample_env c k m = (k, m) # filter (\<lambda>e. fst e \<noteq> k) c"
  "ttl_insert sample_env c k m d w = ((k, m) # filter (\<lambda>e. fst e \<noteq> k) c, w)"
  "conn_contains_key sample_env f k w = (k \<in> set f, w)"
  "conn_insert sample_env f k d w = (k # f, w)"
  "fs_read sample_env p w = (if p = ascii ''/proc/1/cmdline'' then Some (ascii ''init'')
       else if p = ascii ''/proc/1/environ'' then Some (ascii ''POD_NAME=web'') else None, w + 1)"
  "file_open sample_env p w = (Some 3, w + 1)"
  "file_metadata_len sample_env fd w = (Some 10, w)"
  "file_read_to_end sample_env fd m w = (([1, 2, 3], ReadOk), w)"
  "xxhash64 sample_env h b = h + of_nat (length b)"
  "hex_encode sample_env b = b"
  "getpwuid sample_env u w = (if u = 0 then Some (ascii ''root'') else None, w)"
  "unix_secs sample_env w = (Some 1600000000, w)"
  "instant_now sample_env w = (w, w)"
  "iprange_contains_v4 sample_env nets ip = (hd ip = 127)"
  "iprange_contains_v6 sample_env nets ip6 = (last ip6 = 1)"
  "conn_new sample_env n = []"
  by (simp_all add: sample_env_def)

lemma sample_lru_lawful: "lru_lawful sample_env (\<lambda>l. 0 < fst l)"
  unfolding lru_lawful_def sample_env_simps
proof (intro conjI allI impI)
  fix l :: sample_lru and k v :: bytes
  assume "0 < fst l"
  then show "fst (sample_get_mut (sample_insert l k v) k) = Some v"
    by (cases "fst l") (simp_all add: sample_get_mut_def sample_insert_def)
next
  fix l :: sample_lru and k v :: bytes
  assume "fst (sample_get_mut l k) = Some v"
  then show "fst (sample_get_mut (snd (sample_get_mut l k)) k) = Some v"
    by (simp add: sample_get_mut_def split: option.splits)
next
  fix l :: sample_lru and k :: bytes
  assume "0 < fst l"
  then show "0 < fst (snd (sample_get_mut l k))"
    by (simp add: sample_get_mut_def split: option.splits)
qed (simp_all add: sample_insert_def)

subsection \<open>Properties of the caches\<close>

lemma lru_lawfulD:
  assumes "lru_lawful E G" "G l"
  shows "fst (lru_get_mut E (lru_insert E l k v) k) = Some v"
    and "G (snd (lru_get_mut E l k))"
    and "lru_get_mut E l k = (Some v, l') \<Longrightarrow> fst (lru_get_mut E l' k) = Some v"
    and "G (lru_insert E l k v)"
proof -
  show "fst (lru_get_mut E (lru_insert E l k v) k) = Some v" "G (snd (lru_get_mut E l k))"
    "G (lru_insert E l k v)"
    using assms by (simp_all add: lru_lawful_def)
  have "fst (lru_get_mut E l k) = Some v \<longrightarrow> fst (lru_get_mut E (snd (lru_get_mut E l k)) k) = Some v"
    using assms unfolding lru_lawful_def by (elim conjE) simp
  then show "lru_get_mut E l k = (Some v, l') \<Longrightarrow> fst (lru_get_mut E l' k) = Some v" by simp
qed

lemma argv_get_put:
  assumes "lru_lawful E G" "G (argv_lru s)" "parse_pid pid \<noteq> None"
  shows "\<exists>s'. ArgvCache_get E pid (ArgvCache_put E pid argv s) w = (argv, s', w)"
proof (rule argv_memo.get_put[OF assms(3)])
  show "\<exists>s'. lru_find E argv_lru argv_lru_update (ArgvCache_put E pid argv s) pid = (Some argv, s')"
    using lru_lawfulD(1)[OF assms(1,2), of pid argv]
    by (auto simp: lru_find_def ArgvCache_put_def split: prod.splits)
qed

lemma lru_find_laws:
  assumes "lru_lawful E G" "\<And>f s. sel (upd f s) = f (sel s)" "G (sel s)"
  shows "sel s' = lru_insert E (sel s) k v \<Longrightarrow> fst (lru_find E sel upd s' k) = Some v"
    and "lru_find E sel upd s k = (Some v, s'') \<Longrightarrow> fst (lru_find E sel upd s'' k) = Some v"
    and "G (sel (snd (lru_find E sel upd s k)))"
  using lru_lawfulD(1,2)[OF assms(1,3)] lru_lawfulD(3)[OF assms(1,3), of k v] assms(2)
  by (auto simp: lru_find_def split_beta) (metis prod.collapse)

text \<open>The answers of the four caches are stable. When a lookup returns an answer other than the ones
  for failures, the next lookup of the same key returns the same answer and does not look at the
  system, whatever the state of the world.\<close>

theorem caches_are_stable:
  assumes "lru_lawful E G"
  shows "(G (argv_lru s1) \<and> ArgvCache_get E pid s1 w = (v, s1', w') \<and> v \<notin> {ascii ''-3'', ascii ''-4''} \<longrightarrow>
      (\<exists>s'. ArgvCache_get E pid s1' w'' = (v, s', w''))) \<and>
    (G (ns_lru s2) \<and> NsCache_get E pns pid s2 w = (v, s2', w') \<and> v \<notin> {ascii ''-3'', ascii ''-4'', []} \<longrightarrow>
      (\<exists>s'. NsCache_get E pns pid s2' w'' = (v, s', w''))) \<and>
    (G (hash_lru s3) \<and> HashCache_get E exe s3 w = (v, s3', w') \<and> v \<notin> {ascii ''-3''} \<longrightarrow>
      (\<exists>s'. HashCache_get E exe s3' w'' = (v, s', w''))) \<and>
    (G (user_lru s4) \<and> UserCache_get E uid s4 w = (v, s4', w') \<and> v \<notin> {ascii ''-3''} \<longrightarrow>
      (\<exists>s'. UserCache_get E uid s4' w'' = (v, s', w'')))"
proof (intro conjI impI; elim conjE)
  show "\<exists>s'. ArgvCache_get E pid s1' w'' = (v, s', w'')"
    if "G (argv_lru s1)" "ArgvCache_get E pid s1 w = (v, s1', w')" "v \<notin> {ascii ''-3'', ascii ''-4''}"
    by (rule argv_memo.get_stable[where good = "\<lambda>s. G (argv_lru s)", OF that])
       (simp_all add: lru_find_laws[OF assms] ArgvCache_put_def)
  show "\<exists>s'. NsCache_get E pns pid s2' w'' = (v, s', w'')"
    if "G (ns_lru s2)" "NsCache_get E pns pid s2 w = (v, s2', w')" "v \<notin> {ascii ''-3'', ascii ''-4'', []}"
    by (rule ns_memo.get_stable[where good = "\<lambda>s. G (ns_lru s)", OF that])
       (simp_all add: lru_find_laws[OF assms] NsCache_put_def)
  show "\<exists>s'. HashCache_get E exe s3' w'' = (v, s', w'')"
    if "G (hash_lru s3)" "HashCache_get E exe s3 w = (v, s3', w')" "v \<notin> {ascii ''-3''}"
    by (rule hash_memo.get_stable[where good = "\<lambda>s. G (hash_lru s)", OF that])
       (simp_all add: lru_find_laws[OF assms] HashCache_put_def)
  show "\<exists>s'. UserCache_get E uid s4' w'' = (v, s', w'')"
    if "G (user_lru s4)" "UserCache_get E uid s4 w = (v, s4', w')" "v \<notin> {ascii ''-3''}"
    by (rule user_memo.get_stable[where good = "\<lambda>s. G (user_lru s)", OF that])
       (simp_all add: lru_find_laws[OF assms] UserCache_put_def)
qed


lemmas parse_eval = parse_pid_def parse_usize_def parse_u32_def parse_uint_def digit_val_def from_utf8_def
  show_nat.simps

theorem caches_are_stable_witness:
  "(\<exists>s'. ArgvCache_get sample_env (ascii ''1'') \<lparr>argv_lru = (9, [(ascii ''1'', ascii ''init'')]), argv_limiter = ()\<rparr> 7 =
      (ascii ''init'', s', 7)) \<and>
   (\<exists>s'. UserCache_get sample_env (ascii ''0'') \<lparr>user_lru = (9, [(ascii ''0'', ascii ''root'')])\<rparr> 7 =
      (ascii ''root'', s', 7))"
proof -
  have a: "ArgvCache_get sample_env (ascii ''1'') \<lparr>argv_lru = (9, []), argv_limiter = ()\<rparr> 0 =
    (ascii ''init'', \<lparr>argv_lru = (9, [(ascii ''1'', ascii ''init'')]), argv_limiter = ()\<rparr>, 1)"
    by (simp add: ArgvCache_get_def ArgvCache_put_def parse_eval sample_get_mut_def sample_insert_def
        clean_cmdline_def rposition_def is_ascii_whitespace_def upt_conv_Cons Let_def)
  have u: "UserCache_get sample_env (ascii ''0'') \<lparr>user_lru = (9, [])\<rparr> 0 =
    (ascii ''root'', \<lparr>user_lru = (9, [(ascii ''0'', ascii ''root'')])\<rparr>, 0)"
    by (simp add: UserCache_get_def UserCache_put_def parse_eval sample_get_mut_def sample_insert_def)
  note st = caches_are_stable[OF sample_lru_lawful]
  show ?thesis
    using st[THEN conjunct1, rule_format, OF conjI[OF _ conjI[OF a]]]
      st[THEN conjunct2, THEN conjunct2, THEN conjunct2, rule_format, OF conjI[OF _ conjI[OF u]]]
    by simp
qed

text \<open>A command line stored for a process, as the transformer does for every \<open>execve\<close> record, is what the
  next lookup of that process returns, without asking the rate limiter or the system.\<close>

theorem argv_of_execve_is_found:
  assumes "lru_lawful E G" "G (argv_lru s)" "parse_pid pid \<noteq> None"
  shows "\<exists>s'. ArgvCache_get E pid (ArgvCache_put E pid argv s) w = (argv, s', w)"
  by (rule argv_get_put[OF assms])

theorem argv_of_execve_is_found_witness:
  "\<exists>s'. ArgvCache_get sample_env (ascii ''42'')
     (ArgvCache_put sample_env (ascii ''42'') (ascii ''ls -l'') (ArgvCache_new sample_env 8192)) 3 =
     (ascii ''ls -l'', s', 3)"
proof (rule argv_of_execve_is_found[OF sample_lru_lawful])
  show "0 < fst (argv_lru (ArgvCache_new sample_env 8192))" by (simp add: ArgvCache_new_def)
  have "parse_pid (ascii ''42'') = Some 42" by (simp add: parse_eval)
  then show "parse_pid (ascii ''42'') \<noteq> None" by simp
qed

lemma rposition_Some:
  assumes "rposition P xs = Some i"
  shows "i < length xs" "P (xs ! i)"
proof -
  obtain js where "filter (\<lambda>i. P (xs ! i)) (rev [0..<length xs]) = i # js"
    using assms by (auto simp: rposition_def split: list.splits)
  then have "i \<in> set (filter (\<lambda>i. P (xs ! i)) (rev [0..<length xs]))" by simp
  then show "i < length xs" "P (xs ! i)" by auto
qed

text \<open>A command line read from the system is at most 256 bytes long, contains no NUL byte, and does
  not end in white space unless it is a single byte; up to its length it is what the system reported,
  with NUL bytes replaced by spaces.\<close>

theorem clean_cmdline_correct:
  "length (clean_cmdline v) \<le> 256 \<and> 0 \<notin> set (clean_cmdline v) \<and>
   (1 < length (clean_cmdline v) \<longrightarrow> \<not> is_ascii_whitespace (last (clean_cmdline v))) \<and>
   prefix (clean_cmdline v) (map (\<lambda>b. if b = 0 then 0x20 else b) v)"
proof -
  define v1 where "v1 = map (\<lambda>b. if b = 0 then 0x20 else b) (take 256 v)"
  define i where "i = (case rposition (\<lambda>x. \<not> is_ascii_whitespace x) v1 of None \<Rightarrow> 0 | Some i \<Rightarrow> i)"
  have c: "clean_cmdline v = take (i + 1) v1"
    by (auto simp: clean_cmdline_def v1_def i_def Let_def)
  have pre: "prefix v1 (map (\<lambda>b. if b = 0 then 0x20 else b) v)"
    unfolding v1_def take_map[symmetric] by (rule take_is_prefix)
  have "\<not> is_ascii_whitespace (last (take (i + 1) v1))" if "1 < length (take (i + 1) v1)"
  proof (cases "rposition (\<lambda>x. \<not> is_ascii_whitespace x) v1")
    case None
    then show ?thesis using that by (simp add: i_def)
  next
    case (Some j)
    note j = rposition_Some[OF Some]
    have "last (take (i + 1) v1) = v1 ! j"
      using j(1) Some by (simp add: i_def take_Suc_conv_app_nth)
    then show ?thesis using j(2) by simp
  qed
  moreover have "length (take (i + 1) v1) \<le> 256" by (simp add: v1_def)
  moreover have "0 \<notin> set (take (i + 1) v1)"
    by (auto simp: v1_def dest!: in_set_takeD)
  ultimately show ?thesis
    unfolding c by (simp add: prefix_order.trans[OF take_is_prefix pre])
qed

theorem clean_cmdline_correct_witness:
  "length (clean_cmdline (ascii ''ls'' @ [0] @ ascii ''-l'' @ [0])) \<le> 256 \<and>
   \<not> is_ascii_whitespace (last (clean_cmdline (ascii ''ls'' @ [0] @ ascii ''-l'' @ [0])))"
proof -
  have "clean_cmdline (ascii ''ls'' @ [0] @ ascii ''-l'' @ [0]) = ascii ''ls -l''" by code_simp
  then show ?thesis
    using clean_cmdline_correct[of "ascii ''ls'' @ [0] @ ascii ''-l'' @ [0]"] by simp
qed

definition pod_value :: "bytes \<Rightarrow> bytes option" where
  "pod_value env = (let fs = split_on 0x3d env in
     if 2 \<le> length fs \<and> (fs ! 0 = ascii ''MY_POD_NAME'' \<or> fs ! 0 = ascii ''POD_NAME'') \<and> fs ! 1 \<noteq> []
     then Some (fs ! 1) else None)"

text \<open>The pod name is the value of the first of the variables \<open>MY_POD_NAME\<close> and \<open>POD_NAME\<close> with a value
  that is not empty, and empty when there is none.\<close>

theorem find_pod_name_first:
  "find_pod_name envs [] = (case List.map_filter pod_value envs of [] \<Rightarrow> [] | v # _ \<Rightarrow> v)"
proof (induction envs)
  case (Cons env envs)
  show ?case
  proof (cases "split_on 0x3d env")
    case (Cons name rest)
    then show ?thesis
      using Cons.IH by (cases rest) (auto simp: pod_value_def Let_def map_filter_simps split: list.splits)
  qed (use split_on_not_Nil in blast)
qed (simp add: map_filter_simps)

end
