(* ===== verification/Driver_Transformer.thy ===== *)
theory Driver_Transformer
  imports Driver_Wire Driver_Schema Driver_Kmod Driver_Cache
begin

section \<open>The state and the steps of the transformer\<close>

text \<open>
  \<open>Transformer\<close> of \<^verbatim>\<open>src/plugins/driver/src/transformer.rs\<close>: its state, the loop that cuts a record of the
  kernel module into its fields, the filters, and the steps with which the arms of \<open>transform\<close> fill
  in the fields that the kernel does not send. The source repeats these statements in every arm; here
  each is one definition. The whole mutable state of a call is \<open>driver\<close>: the transformer
  (\<open>&mut self\<close>), the kernel module filters (\<open>kmod\<close>) and the world.
\<close>

subsection \<open>Constants and state\<close>

definition CONNECT_FILTER_TIME :: nat where "CONNECT_FILTER_TIME = 60 * 30"
definition ARGV_FILTER_SIZE :: nat where "ARGV_FILTER_SIZE = 1024 * 8"
definition CONNECT_FILTER_SIZE :: nat where "CONNECT_FILTER_SIZE = 1024 * 16"
definition EXE_FILTER_QUOTA :: nat where "EXE_FILTER_QUOTA = 9000"
definition EXE_FILTER_WINDOW :: nat where "EXE_FILTER_WINDOW = 60"
definition EXE_FILTER_SIZE :: nat where "EXE_FILTER_SIZE = 32 * 1024"
definition ARGV_FILTER_QUOTA :: nat where "ARGV_FILTER_QUOTA = 1500"
definition ARGV_FILTER_WINDOW :: nat where "ARGV_FILTER_WINDOW = 60 * 60"
definition ARGV_DYN_FILTER_SIZE :: nat where "ARGV_DYN_FILTER_SIZE = 512"
definition ARGV_DYN_FILTER_QUOTA :: nat where "ARGV_DYN_FILTER_QUOTA = 6000"
definition ARGV_DYN_FILTER_WINDOW :: nat where "ARGV_DYN_FILTER_WINDOW = 60"
definition DNS_SUFFIX_WHITELIST :: "bytes list" where "DNS_SUFFIX_WHITELIST = []"
definition PGID_ARGV_WHITELIST :: "bytes list" where "PGID_ARGV_WHITELIST = []"
definition PPID_ARGV_WHITELIST :: "bytes list" where "PPID_ARGV_WHITELIST = []"

definition IPV4_FILTER :: "bytes list" where "IPV4_FILTER = [ascii ''127.0.0.1/8'']"

definition IPV6_FILTER :: "bytes list" where
  "IPV6_FILTER = [ascii ''fe80::/10'', ascii ''::ffff:127.0.0.1/104'', ascii ''::1/128'']"

record ('l, 'r, 'c, 'f) Transformer =
  argv_cache :: "('l, 'r) ArgvCache"
  hash_cache :: "'l HashCache"
  ns_cache :: "('l, 'r) NsCache"
  user_cache :: "'l UserCache"
  pid_tree_cache :: 'l
  connect_filter :: 'f
  exe_filter :: 'c
  argv_filter :: 'c
  argv_dyn_filter :: 'c

definition Transformer_new :: "('l, 'r, 'c, 'f, 'w) env \<Rightarrow> ('l, 'r, 'c, 'f) Transformer" where
  "Transformer_new E = \<lparr>
     argv_cache = ArgvCache_new E (1024 * 8),
     hash_cache = HashCache_new E (1024 * 4),
     ns_cache = NsCache_new E 1024,
     user_cache = UserCache_new E 1024,
     pid_tree_cache = lru_new E 2048,
     connect_filter = conn_new E CONNECT_FILTER_SIZE,
     exe_filter = ttl_new E EXE_FILTER_SIZE,
     argv_filter = ttl_new E ARGV_FILTER_SIZE,
     argv_dyn_filter = ttl_new E ARGV_DYN_FILTER_SIZE\<rparr>"

record ('l, 'r, 'c, 'f, 'w) driver =
  transformer :: "('l, 'r, 'c, 'f) Transformer"
  kmod_of :: kmod
  world :: 'w

type_synonym ('l, 'r, 'c, 'f, 'w, 'a) drv = "(('l, 'r, 'c, 'f, 'w) driver, 'a) prog"

subsection \<open>Cutting a record into fields\<close>

function split_loop :: "bytes \<Rightarrow> nat \<Rightarrow> nat \<Rightarrow> nat \<Rightarrow> bytes list \<Rightarrow> (nat \<times> nat \<times> bytes list) res" where
  "split_loop data i index base_index vals =
     (if i < length data
      then if data ! i = 0x1e
           then if index < length vals
                then split_loop data (i + 1) (index + 1) (i + 1)
                       (vals[index := take (i - base_index) (drop base_index data)])
                else Inl Panic
           else split_loop data (i + 1) index base_index vals
      else Inr (index, base_index, vals))"
  by pat_completeness auto
termination
  by (relation "measure (\<lambda>(data, i, _). length data - i)") auto

declare split_loop.simps [simp del]

definition split_values :: "nat \<Rightarrow> bytes \<Rightarrow> bytes list res" where
  "split_values n data =
     bind_res (split_loop data 0 0 0 (replicate n [])) (\<lambda>(index, base_index, vals).
     if index < length vals then Inr (vals[index := drop base_index data]) else Inl Panic)"

text \<open>With the pieces cut so far in \<open>fs\<close>, the loop and the last store produce the pieces of the rest.\<close>

lemma split_loop_split_on:
  assumes "base \<le> i" "i \<le> length data" "0x1e \<notin> set (take (i - base) (drop base data))"
    and "vals = fs @ replicate m []" "index = length fs"
  shows "bind_res (split_loop data i index base vals) (\<lambda>(index, base_index, vals).
      if index < length vals then Inr (vals[index := drop base_index data]) else Inl Panic) =
    (let ps = split_on 0x1e (drop base data) in
     if length ps \<le> m then Inr (fs @ ps @ replicate (m - length ps) []) else Inl Panic)"
  using assms
proof (induction data i index base vals arbitrary: fs m rule: split_loop.induct)
  case (1 data i index base vals)
  let ?cur = "take (i - base) (drop base data)"
  show ?case
  proof (cases "i < length data")
    case False
    then have cur: "?cur = drop base data" using 1(3,4) by simp
    then have "split_on 0x1e (drop base data) = [drop base data]"
      using 1(5) split_on_none by simp
    then show ?thesis
      using False 1(6,7)
      by (subst split_loop.simps) (cases m; simp add: list_update_append Let_def)
  next
    case True
    have rest: "drop base data = ?cur @ data ! i # drop (i + 1) data"
    proof -
      have "drop (i - base) (drop base data) = data ! i # drop (i + 1) data"
        using True 1(3) by (simp add: Cons_nth_drop_Suc)
      then show ?thesis by (metis append_take_drop_id)
    qed
    show ?thesis
    proof (cases "data ! i = 0x1e")
      case False
      have "take (i + 1 - base) (drop base data) = ?cur @ [data ! i]"
        using True 1(3) by (simp add: Suc_diff_le take_Suc_conv_app_nth)
      then have "0x1e \<notin> set (take (i + 1 - base) (drop base data))"
        using 1(5) False by simp
      then show ?thesis
        using 1(2)[OF True False, of fs m] 1(3,6,7) True False by (subst split_loop.simps) simp
    next
      case sep: True
      have split: "split_on 0x1e (drop base data) = ?cur # split_on 0x1e (drop (i + 1) data)"
        using split_on_append[OF 1(5), of "drop (i + 1) data"] rest sep by simp
      show ?thesis
      proof (cases m)
        case 0
        then show ?thesis
          using True sep 1(6,7) split by (subst split_loop.simps) (simp add: Let_def)
      next
        case (Suc m')
        have upd: "vals[index := ?cur] = (fs @ [?cur]) @ replicate m' []"
          using Suc 1(6,7) by (simp add: list_update_append)
        have lt: "index < length vals" using Suc 1(6,7) by simp
        show ?thesis
          using 1(1)[OF True sep lt, of "fs @ [?cur]" m'] upd Suc True sep lt split 1(7)
          by (subst split_loop.simps) (simp add: Let_def)
      qed
    qed
  qed
qed

lemma split_values_eq:
  "split_values n data = (let ps = split_on 0x1e data in
     if length ps \<le> n then Inr (ps @ replicate (n - length ps) []) else Inl Panic)"
  unfolding split_values_def
  by (subst split_loop_split_on[where fs = "[]" and m = n]) (simp_all add: Let_def)


subsection \<open>Lookups\<close>

definition argv_get :: "('l, 'r, 'c, 'f, 'w) env \<Rightarrow> bytes \<Rightarrow> ('l, 'r, 'c, 'f, 'w, bytes) drv" where
  "argv_get E pid = pure_st (\<lambda>s.
     case ArgvCache_get E pid (argv_cache (transformer s)) (world s) of (v, c, w) \<Rightarrow>
       (v, s\<lparr>transformer := (transformer s)\<lparr>argv_cache := c\<rparr>, world := w\<rparr>))"

definition argv_put :: "('l, 'r, 'c, 'f, 'w) env \<Rightarrow> bytes \<Rightarrow> bytes \<Rightarrow> ('l, 'r, 'c, 'f, 'w, unit) drv" where
  "argv_put E pid argv = pure_st (\<lambda>s.
     ((), s\<lparr>transformer := (transformer s)\<lparr>argv_cache := ArgvCache_put E pid argv (argv_cache (transformer s))\<rparr>\<rparr>))"

definition user_get :: "('l, 'r, 'c, 'f, 'w) env \<Rightarrow> bytes \<Rightarrow> ('l, 'r, 'c, 'f, 'w, bytes) drv" where
  "user_get E uid = pure_st (\<lambda>s.
     case UserCache_get E uid (user_cache (transformer s)) (world s) of (v, c, w) \<Rightarrow>
       (v, s\<lparr>transformer := (transformer s)\<lparr>user_cache := c\<rparr>, world := w\<rparr>))"

definition ns_get :: "('l, 'r, 'c, 'f, 'w) env \<Rightarrow> bytes \<Rightarrow> bytes \<Rightarrow> ('l, 'r, 'c, 'f, 'w, bytes) drv" where
  "ns_get E pns pid = pure_st (\<lambda>s.
     case NsCache_get E pns pid (ns_cache (transformer s)) (world s) of (v, c, w) \<Rightarrow>
       (v, s\<lparr>transformer := (transformer s)\<lparr>ns_cache := c\<rparr>, world := w\<rparr>))"

definition hash_get :: "('l, 'r, 'c, 'f, 'w) env \<Rightarrow> bytes \<Rightarrow> ('l, 'r, 'c, 'f, 'w, bytes) drv" where
  "hash_get E exe = pure_st (\<lambda>s.
     case HashCache_get E exe (hash_cache (transformer s)) (world s) of (v, c, w) \<Rightarrow>
       (v, s\<lparr>transformer := (transformer s)\<lparr>hash_cache := c\<rparr>, world := w\<rparr>))"

definition pid_tree_get :: "('l, 'r, 'c, 'f, 'w) env \<Rightarrow> bytes \<Rightarrow> ('l, 'r, 'c, 'f, 'w, bytes) drv" where
  "pid_tree_get E pid = pure_st (\<lambda>s.
     case lru_get_mut E (pid_tree_cache (transformer s)) pid of (v, l) \<Rightarrow>
       (case v of None \<Rightarrow> ascii ''-3'' | Some v \<Rightarrow> v,
        s\<lparr>transformer := (transformer s)\<lparr>pid_tree_cache := l\<rparr>\<rparr>))"

definition pid_tree_insert :: "('l, 'r, 'c, 'f, 'w) env \<Rightarrow> bytes \<Rightarrow> bytes \<Rightarrow> ('l, 'r, 'c, 'f, 'w, unit) drv" where
  "pid_tree_insert E pid tree = pure_st (\<lambda>s.
     ((), s\<lparr>transformer := (transformer s)\<lparr>pid_tree_cache := lru_insert E (pid_tree_cache (transformer s)) pid tree\<rparr>\<rparr>))"

text \<open>Storing what a lookup returned: \<open>values[slot] = &...\<close>.\<close>

definition put_argv :: "('l, 'r, 'c, 'f, 'w) env \<Rightarrow> nat \<Rightarrow> nat \<Rightarrow> bytes list \<Rightarrow> ('l, 'r, 'c, 'f, 'w, bytes list) drv" where
  "put_argv E slot pid vals = bind_st (argv_get E (vals ! pid)) (\<lambda>argv. return_st (vals[slot := argv]))"

definition put_username :: "('l, 'r, 'c, 'f, 'w) env \<Rightarrow> nat \<Rightarrow> nat \<Rightarrow> bytes list \<Rightarrow> ('l, 'r, 'c, 'f, 'w, bytes list) drv" where
  "put_username E slot uid vals = bind_st (user_get E (vals ! uid)) (\<lambda>name. return_st (vals[slot := name]))"

definition put_pod_name :: "('l, 'r, 'c, 'f, 'w) env \<Rightarrow> nat \<Rightarrow> bytes list \<Rightarrow> ('l, 'r, 'c, 'f, 'w, bytes list) drv" where
  "put_pod_name E slot vals =
     bind_st (if vals ! 10 \<noteq> vals ! 11 then ns_get E (vals ! 10) (vals ! 6) else return_st (ascii ''-3''))
       (\<lambda>pod_name. return_st (vals[slot := pod_name]))"

definition put_exe_hash :: "('l, 'r, 'c, 'f, 'w) env \<Rightarrow> nat \<Rightarrow> bytes list \<Rightarrow> ('l, 'r, 'c, 'f, 'w, bytes list) drv" where
  "put_exe_hash E slot vals = bind_st (hash_get E (vals ! 1)) (\<lambda>hash. return_st (vals[slot := hash]))"

definition put_pid_tree :: "('l, 'r, 'c, 'f, 'w) env \<Rightarrow> nat \<Rightarrow> bytes list \<Rightarrow> ('l, 'r, 'c, 'f, 'w, bytes list) drv" where
  "put_pid_tree E slot vals = bind_st (pid_tree_get E (vals ! 5)) (\<lambda>tree. return_st (vals[slot := tree]))"

subsection \<open>Filters\<close>

text \<open>Executables of the system directories and the placeholders for missing paths are not counted.\<close>

definition exe_exempt :: "bytes \<Rightarrow> bool" where
  "exe_exempt exe \<longleftrightarrow>
     starts_with exe (ascii ''/bin/'') \<or> starts_with exe (ascii ''/sbin/'') \<or>
     starts_with exe (ascii ''/usr/bin/'') \<or> starts_with exe (ascii ''/usr/sbin/'') \<or>
     exe = ascii ''-1'' \<or> exe = ascii ''-2'' \<or> exe = []"

definition kmod_add_exe :: "('l, 'r, 'c, 'f, 'w) env \<Rightarrow> bytes \<Rightarrow> ('l, 'r, 'c, 'f, 'w, unit) drv" where
  "kmod_add_exe E exe = (\<lambda>s. case instant_now E (world s) of (now, w) \<Rightarrow>
     (case add_filtered_exe now exe (kmod_of s) of
        Inl e \<Rightarrow> (Inl e, s\<lparr>world := w\<rparr>)
      | Inr k \<Rightarrow> (Inr (), s\<lparr>kmod_of := k, world := w\<rparr>)))"

definition kmod_add_argv :: "('l, 'r, 'c, 'f, 'w) env \<Rightarrow> bytes \<Rightarrow> ('l, 'r, 'c, 'f, 'w, unit) drv" where
  "kmod_add_argv E argv = (\<lambda>s. case instant_now E (world s) of (now, w) \<Rightarrow>
     (case add_filtered_argv now argv (kmod_of s) of
        Inl e \<Rightarrow> (Inl e, s\<lparr>world := w\<rparr>)
      | Inr k \<Rightarrow> (Inr (), s\<lparr>kmod_of := k, world := w\<rparr>)))"

definition exe_filter_get_mut :: "('l, 'r, 'c, 'f, 'w) env \<Rightarrow> bytes \<Rightarrow> ('l, 'r, 'c, 'f, 'w, nat option) drv" where
  "exe_filter_get_mut E key = pure_st (\<lambda>s.
     case ttl_get_mut E (exe_filter (transformer s)) key (world s) of (v, c, w) \<Rightarrow>
       (v, s\<lparr>transformer := (transformer s)\<lparr>exe_filter := c\<rparr>, world := w\<rparr>))"

definition exe_filter_store :: "('l, 'r, 'c, 'f, 'w) env \<Rightarrow> bytes \<Rightarrow> nat \<Rightarrow> ('l, 'r, 'c, 'f, 'w, unit) drv" where
  "exe_filter_store E key n = pure_st (\<lambda>s.
     ((), s\<lparr>transformer := (transformer s)\<lparr>exe_filter := ttl_store E (exe_filter (transformer s)) key n\<rparr>\<rparr>))"

definition exe_filter_insert :: "('l, 'r, 'c, 'f, 'w) env \<Rightarrow> bytes \<Rightarrow> nat \<Rightarrow> nat \<Rightarrow> ('l, 'r, 'c, 'f, 'w, unit) drv" where
  "exe_filter_insert E key n window = pure_st (\<lambda>s.
     case ttl_insert E (exe_filter (transformer s)) key n window (world s) of (c, w) \<Rightarrow>
       ((), s\<lparr>transformer := (transformer s)\<lparr>exe_filter := c\<rparr>, world := w\<rparr>))"

definition argv_filter_get_mut :: "('l, 'r, 'c, 'f, 'w) env \<Rightarrow> bytes \<Rightarrow> ('l, 'r, 'c, 'f, 'w, nat option) drv" where
  "argv_filter_get_mut E key = pure_st (\<lambda>s.
     case ttl_get_mut E (argv_filter (transformer s)) key (world s) of (v, c, w) \<Rightarrow>
       (v, s\<lparr>transformer := (transformer s)\<lparr>argv_filter := c\<rparr>, world := w\<rparr>))"

definition argv_filter_store :: "('l, 'r, 'c, 'f, 'w) env \<Rightarrow> bytes \<Rightarrow> nat \<Rightarrow> ('l, 'r, 'c, 'f, 'w, unit) drv" where
  "argv_filter_store E key n = pure_st (\<lambda>s.
     ((), s\<lparr>transformer := (transformer s)\<lparr>argv_filter := ttl_store E (argv_filter (transformer s)) key n\<rparr>\<rparr>))"

definition exe_filter_count :: "('l, 'r, 'c, 'f, 'w) env \<Rightarrow> bytes \<Rightarrow> ('l, 'r, 'c, 'f, 'w, unit) drv" where
  "exe_filter_count E exe =
     bind_st (exe_filter_get_mut E exe) (\<lambda>found.
     case found of
       Some n \<Rightarrow>
         bind_st (if EXE_FILTER_QUOTA < n
                  then bind_st (kmod_add_exe E exe) (\<lambda>_. return_st 1) else return_st n) (\<lambda>n.
         exe_filter_store E exe (n + 1))
     | None \<Rightarrow> exe_filter_insert E exe 1 EXE_FILTER_WINDOW)"

text \<open>The second counter of the arm for \<open>execve\<close>. Its last branch inserts into \<open>exe_filter\<close>, as the source does.\<close>

definition argv_filter_count :: "('l, 'r, 'c, 'f, 'w) env \<Rightarrow> bytes \<Rightarrow> ('l, 'r, 'c, 'f, 'w, unit) drv" where
  "argv_filter_count E argv =
     bind_st (argv_filter_get_mut E argv) (\<lambda>found.
     case found of
       Some n \<Rightarrow>
         bind_st (if ARGV_FILTER_QUOTA < n
                  then bind_st (kmod_add_argv E argv) (\<lambda>_. return_st 1) else return_st n) (\<lambda>n.
         argv_filter_store E argv (n + 1))
     | None \<Rightarrow> exe_filter_insert E argv 1 ARGV_FILTER_WINDOW)"

definition exe_filter_guarded :: "('l, 'r, 'c, 'f, 'w) env \<Rightarrow> bytes \<Rightarrow> ('l, 'r, 'c, 'f, 'w, unit) drv" where
  "exe_filter_guarded E exe = (if \<not> exe_exempt exe then exe_filter_count E exe else return_st ())"

definition exe_argv_filter_guarded :: "('l, 'r, 'c, 'f, 'w) env \<Rightarrow> bytes \<Rightarrow> bytes \<Rightarrow> ('l, 'r, 'c, 'f, 'w, unit) drv" where
  "exe_argv_filter_guarded E exe argv =
     (if \<not> exe_exempt exe
      then bind_st (exe_filter_count E exe) (\<lambda>_. argv_filter_count E argv) else return_st ())"

definition ip_filtered :: "('l, 'r, 'c, 'f, 'w) env \<Rightarrow> bytes list \<Rightarrow> bool" where
  "ip_filtered E vals =
     (if vals ! 12 = ascii ''10''
      then case Option.bind (from_utf8 (vals ! 13)) parse_ipv6 of
             Some ip \<Rightarrow> iprange_contains_v6 E IPV6_FILTER ip | None \<Rightarrow> False
      else case Option.bind (from_utf8 (vals ! 13)) parse_ipv4 of
             Some ip \<Rightarrow> iprange_contains_v4 E IPV4_FILTER ip | None \<Rightarrow> False)"

definition connect_filtered :: "('l, 'r, 'c, 'f, 'w) env \<Rightarrow> bytes list \<Rightarrow> ('l, 'r, 'c, 'f, 'w, bool) drv" where
  "connect_filtered E vals =
     (if ip_filtered E vals then return_st True
      else pure_st (\<lambda>s.
        let key = vals ! 6 @ vals ! 13 @ vals ! 14 @ vals ! 17 in
        case conn_contains_key E (connect_filter (transformer s)) key (world s) of (found, w) \<Rightarrow>
          if found then (True, s\<lparr>world := w\<rparr>)
          else case conn_insert E (connect_filter (transformer s)) key CONNECT_FILTER_TIME w of (f, w) \<Rightarrow>
            (False, s\<lparr>transformer := (transformer s)\<lparr>connect_filter := f\<rparr>, world := w\<rparr>)))"

definition argv_dyn_filtered :: "('l, 'r, 'c, 'f, 'w) env \<Rightarrow> bytes \<Rightarrow> ('l, 'r, 'c, 'f, 'w, bool) drv" where
  "argv_dyn_filtered E argv =
     (if argv = ascii ''-3'' then return_st False
      else pure_st (\<lambda>s.
        case ttl_get_mut E (argv_dyn_filter (transformer s)) argv (world s) of
          (Some counter, c, w) \<Rightarrow>
            if ARGV_DYN_FILTER_QUOTA < counter
            then (True, s\<lparr>transformer := (transformer s)\<lparr>argv_dyn_filter := c\<rparr>, world := w\<rparr>)
            else (False, s\<lparr>transformer := (transformer s)\<lparr>argv_dyn_filter := ttl_store E c argv (counter + 1)\<rparr>, world := w\<rparr>)
        | (None, c, w) \<Rightarrow>
            (case ttl_insert E c argv 0 ARGV_DYN_FILTER_WINDOW w of (c, w) \<Rightarrow>
               (False, s\<lparr>transformer := (transformer s)\<lparr>argv_dyn_filter := c\<rparr>, world := w\<rparr>))))"

definition dns_whitelisted :: "bytes \<Rightarrow> bool" where
  "dns_whitelisted query = (case DNS_SUFFIX_WHITELIST of [] \<Rightarrow> False | i # _ \<Rightarrow> ends_with query i)"

definition schema_of :: "u32 \<Rightarrow> bytes list res" where
  "schema_of data_type = (case SCHEMA data_type of None \<Rightarrow> Inl Panic | Some keys \<Rightarrow> Inr keys)"

text \<open>\<open>encode\<close> of a build without the feature \<open>debug\<close>.\<close>

definition encode :: "u64 \<Rightarrow> bytes list \<Rightarrow> bytes list \<Rightarrow> bytes \<Rightarrow> u64 \<Rightarrow> (bytes \<times> nat) res" where
  "encode timestamp keys vals dst data_type = protobuf_encode timestamp keys vals dst data_type"

end
