(* ===== verification/Driver_Arms.thy ===== *)
theory Driver_Arms
  imports Driver_Transformer
begin

section \<open>Transforming a record\<close>

text \<open>
  \<open>Transformer::transform\<close> of \<^verbatim>\<open>src/plugins/driver/src/transformer.rs\<close>: one definition per arm of its
  \<open>match\<close> on the data type, the dispatch, and the parsing of the header. The lemmas show what every
  arm does with a record whose fields fit, for every invariant that the elementary updates keep
  (the locale \<open>driver_invariant\<close>), and then for \<open>transform\<close> as a whole.
\<close>

subsection \<open>The arms\<close>

definition transform_42 ::
  "('l, 'r, 'c, 'f, 'w) env \<Rightarrow> u64 \<Rightarrow> bytes \<Rightarrow> bytes \<Rightarrow> ('l, 'r, 'c, 'f, 'w, bytes \<times> nat) drv" where
  "transform_42 E timestamp data dst =
    bind_st (lift_res (schema_of 42)) (\<lambda>keys.
    bind_st (lift_res (split_values 25 data)) (\<lambda>vals.
    bind_st (exe_filter_guarded E (vals ! 1)) (\<lambda>_.
    bind_st (connect_filtered E vals) (\<lambda>filtered.
    if filtered then return_st (dst, 0) else
    bind_st (put_argv E 18 5 vals) (\<lambda>vals.
    bind_st (put_argv E 19 3 vals) (\<lambda>vals.
    bind_st (put_argv E 20 4 vals) (\<lambda>vals.
    bind_st (put_username E 21 0 vals) (\<lambda>vals.
    bind_st (put_pod_name E 22 vals) (\<lambda>vals.
    bind_st (put_exe_hash E 23 vals) (\<lambda>vals.
    bind_st (put_pid_tree E 24 vals) (\<lambda>vals.
    lift_res (encode timestamp keys vals dst (ucast (42 :: u32))))))))))))))"

definition transform_49 ::
  "('l, 'r, 'c, 'f, 'w) env \<Rightarrow> u64 \<Rightarrow> bytes \<Rightarrow> bytes \<Rightarrow> ('l, 'r, 'c, 'f, 'w, bytes \<times> nat) drv" where
  "transform_49 E timestamp data dst =
    bind_st (lift_res (schema_of 49)) (\<lambda>keys.
    bind_st (lift_res (split_values 23 data)) (\<lambda>vals.
    bind_st (exe_filter_guarded E (vals ! 1)) (\<lambda>_.
    bind_st (put_argv E 16 5 vals) (\<lambda>vals.
    bind_st (put_argv E 17 3 vals) (\<lambda>vals.
    bind_st (put_argv E 18 4 vals) (\<lambda>vals.
    bind_st (put_username E 19 0 vals) (\<lambda>vals.
    bind_st (put_pod_name E 20 vals) (\<lambda>vals.
    bind_st (put_exe_hash E 21 vals) (\<lambda>vals.
    bind_st (put_pid_tree E 22 vals) (\<lambda>vals.
    lift_res (encode timestamp keys vals dst (ucast (49 :: u32)))))))))))))"

definition transform_59 ::
  "('l, 'r, 'c, 'f, 'w) env \<Rightarrow> u64 \<Rightarrow> bytes \<Rightarrow> bytes \<Rightarrow> ('l, 'r, 'c, 'f, 'w, bytes \<times> nat) drv" where
  "transform_59 E timestamp data dst =
    bind_st (lift_res (schema_of 59)) (\<lambda>keys.
    bind_st (lift_res (split_values 33 data)) (\<lambda>vals.
    bind_st (argv_put E (vals ! 5) (vals ! 12)) (\<lambda>_.
    bind_st (pid_tree_insert E (vals ! 5) (vals ! 21)) (\<lambda>_.
    bind_st (exe_argv_filter_guarded E (vals ! 1) (vals ! 12)) (\<lambda>_.
    bind_st (put_argv E 27 23 vals) (\<lambda>vals.
    bind_st (put_argv E 28 3 vals) (\<lambda>vals.
    if vals ! 28 \<in> set PPID_ARGV_WHITELIST then return_st (dst, 0) else
    bind_st (argv_get E (vals ! 4)) (\<lambda>pgid_argv.
    if pgid_argv \<in> set PGID_ARGV_WHITELIST then return_st (dst, 0) else
    let vals = vals[29 := pgid_argv] in
    bind_st (put_username E 30 0 vals) (\<lambda>vals.
    bind_st (put_pod_name E 31 vals) (\<lambda>vals.
    bind_st (put_exe_hash E 32 vals) (\<lambda>vals.
    lift_res (encode timestamp keys vals dst (ucast (59 :: u32))))))))))))))"

definition transform_82_86 ::
  "('l, 'r, 'c, 'f, 'w) env \<Rightarrow> u64 \<Rightarrow> u32 \<Rightarrow> bytes \<Rightarrow> bytes \<Rightarrow> ('l, 'r, 'c, 'f, 'w, bytes \<times> nat) drv" where
  "transform_82_86 E timestamp data_type data dst =
    bind_st (lift_res (schema_of data_type)) (\<lambda>keys.
    bind_st (lift_res (split_values 22 data)) (\<lambda>vals.
    bind_st (exe_filter_guarded E (vals ! 1)) (\<lambda>_.
    bind_st (put_argv E 15 5 vals) (\<lambda>vals.
    bind_st (put_argv E 16 3 vals) (\<lambda>vals.
    bind_st (put_argv E 17 4 vals) (\<lambda>vals.
    bind_st (put_username E 18 0 vals) (\<lambda>vals.
    bind_st (put_pod_name E 19 vals) (\<lambda>vals.
    bind_st (put_exe_hash E 20 vals) (\<lambda>vals.
    bind_st (put_pid_tree E 21 vals) (\<lambda>vals.
    lift_res (encode timestamp keys vals dst (ucast data_type))))))))))))"

definition transform_101 ::
  "('l, 'r, 'c, 'f, 'w) env \<Rightarrow> u64 \<Rightarrow> bytes \<Rightarrow> bytes \<Rightarrow> ('l, 'r, 'c, 'f, 'w, bytes \<times> nat) drv" where
  "transform_101 E timestamp data dst =
    bind_st (lift_res (schema_of 101)) (\<lambda>keys.
    bind_st (lift_res (split_values 24 data)) (\<lambda>vals.
    bind_st (put_argv E 17 5 vals) (\<lambda>vals.
    bind_st (put_argv E 18 3 vals) (\<lambda>vals.
    bind_st (put_argv E 19 4 vals) (\<lambda>vals.
    bind_st (put_username E 20 0 vals) (\<lambda>vals.
    bind_st (put_pod_name E 21 vals) (\<lambda>vals.
    bind_st (put_exe_hash E 22 vals) (\<lambda>vals.
    bind_st (put_argv E 23 13 vals) (\<lambda>vals.
    bind_st (pid_tree_insert E (vals ! 5) (vals ! 16)) (\<lambda>_.
    lift_res (encode timestamp keys vals dst (ucast (101 :: u32)))))))))))))"

definition transform_112 ::
  "('l, 'r, 'c, 'f, 'w) env \<Rightarrow> u64 \<Rightarrow> bytes \<Rightarrow> bytes \<Rightarrow> ('l, 'r, 'c, 'f, 'w, bytes \<times> nat) drv" where
  "transform_112 E timestamp data dst =
    bind_st (lift_res (schema_of 112)) (\<lambda>keys.
    bind_st (lift_res (split_values 19 data)) (\<lambda>vals.
    bind_st (exe_filter_guarded E (vals ! 1)) (\<lambda>_.
    bind_st (put_argv E 12 5 vals) (\<lambda>vals.
    bind_st (put_argv E 13 3 vals) (\<lambda>vals.
    bind_st (put_argv E 14 4 vals) (\<lambda>vals.
    bind_st (put_username E 15 0 vals) (\<lambda>vals.
    bind_st (put_pod_name E 16 vals) (\<lambda>vals.
    bind_st (put_exe_hash E 17 vals) (\<lambda>vals.
    bind_st (put_pid_tree E 18 vals) (\<lambda>vals.
    lift_res (encode timestamp keys vals dst (ucast (112 :: u32)))))))))))))"

definition transform_157 ::
  "('l, 'r, 'c, 'f, 'w) env \<Rightarrow> u64 \<Rightarrow> bytes \<Rightarrow> bytes \<Rightarrow> ('l, 'r, 'c, 'f, 'w, bytes \<times> nat) drv" where
  "transform_157 E timestamp data dst =
    bind_st (lift_res (schema_of 157)) (\<lambda>keys.
    bind_st (lift_res (split_values 21 data)) (\<lambda>vals.
    bind_st (exe_filter_guarded E (vals ! 1)) (\<lambda>_.
    bind_st (argv_get E (vals ! 5)) (\<lambda>argv.
    bind_st (argv_dyn_filtered E argv) (\<lambda>filtered.
    if filtered then return_st (dst, 0) else
    let vals = vals[14 := argv] in
    bind_st (put_argv E 15 3 vals) (\<lambda>vals.
    bind_st (put_argv E 16 4 vals) (\<lambda>vals.
    bind_st (put_username E 17 0 vals) (\<lambda>vals.
    bind_st (put_pod_name E 18 vals) (\<lambda>vals.
    bind_st (put_exe_hash E 19 vals) (\<lambda>vals.
    bind_st (put_pid_tree E 20 vals) (\<lambda>vals.
    lift_res (encode timestamp keys vals dst (ucast (157 :: u32))))))))))))))"

definition transform_165 ::
  "('l, 'r, 'c, 'f, 'w) env \<Rightarrow> u64 \<Rightarrow> bytes \<Rightarrow> bytes \<Rightarrow> ('l, 'r, 'c, 'f, 'w, bytes \<times> nat) drv" where
  "transform_165 E timestamp data dst =
    bind_st (lift_res (schema_of 165)) (\<lambda>keys.
    bind_st (lift_res (split_values 23 data)) (\<lambda>vals.
    bind_st (exe_filter_guarded E (vals ! 1)) (\<lambda>_.
    bind_st (put_argv E 17 5 vals) (\<lambda>vals.
    bind_st (put_argv E 18 3 vals) (\<lambda>vals.
    bind_st (put_argv E 19 4 vals) (\<lambda>vals.
    bind_st (put_username E 20 0 vals) (\<lambda>vals.
    bind_st (put_pod_name E 21 vals) (\<lambda>vals.
    bind_st (put_exe_hash E 22 vals) (\<lambda>vals.
    bind_st (pid_tree_insert E (vals ! 5) (vals ! 12)) (\<lambda>_.
    lift_res (encode timestamp keys vals dst (ucast (165 :: u32)))))))))))))"

definition transform_356 ::
  "('l, 'r, 'c, 'f, 'w) env \<Rightarrow> u64 \<Rightarrow> bytes \<Rightarrow> bytes \<Rightarrow> ('l, 'r, 'c, 'f, 'w, bytes \<times> nat) drv" where
  "transform_356 E timestamp data dst =
    bind_st (lift_res (schema_of 356)) (\<lambda>keys.
    bind_st (lift_res (split_values 21 data)) (\<lambda>vals.
    bind_st (put_argv E 14 5 vals) (\<lambda>vals.
    bind_st (put_argv E 15 3 vals) (\<lambda>vals.
    bind_st (put_argv E 16 4 vals) (\<lambda>vals.
    bind_st (put_username E 17 0 vals) (\<lambda>vals.
    bind_st (put_pod_name E 18 vals) (\<lambda>vals.
    bind_st (put_exe_hash E 19 vals) (\<lambda>vals.
    bind_st (put_pid_tree E 20 vals) (\<lambda>vals.
    lift_res (encode timestamp keys vals dst (ucast (356 :: u32))))))))))))"

definition transform_601 ::
  "('l, 'r, 'c, 'f, 'w) env \<Rightarrow> u64 \<Rightarrow> bytes \<Rightarrow> bytes \<Rightarrow> ('l, 'r, 'c, 'f, 'w, bytes \<times> nat) drv" where
  "transform_601 E timestamp data dst =
    bind_st (lift_res (schema_of 601)) (\<lambda>keys.
    bind_st (lift_res (split_values 27 data)) (\<lambda>vals.
    if dns_whitelisted (vals ! 12) then return_st (dst, 0) else
    bind_st (exe_filter_guarded E (vals ! 1)) (\<lambda>_.
    bind_st (put_argv E 20 5 vals) (\<lambda>vals.
    bind_st (put_argv E 21 3 vals) (\<lambda>vals.
    bind_st (put_argv E 22 4 vals) (\<lambda>vals.
    bind_st (put_username E 23 0 vals) (\<lambda>vals.
    bind_st (put_pod_name E 24 vals) (\<lambda>vals.
    bind_st (put_exe_hash E 25 vals) (\<lambda>vals.
    bind_st (put_pid_tree E 26 vals) (\<lambda>vals.
    lift_res (encode timestamp keys vals dst (ucast (601 :: u32)))))))))))))"

definition transform_602 ::
  "('l, 'r, 'c, 'f, 'w) env \<Rightarrow> u64 \<Rightarrow> bytes \<Rightarrow> bytes \<Rightarrow> ('l, 'r, 'c, 'f, 'w, bytes \<times> nat) drv" where
  "transform_602 E timestamp data dst =
    bind_st (lift_res (schema_of 602)) (\<lambda>keys.
    bind_st (lift_res (split_values 28 data)) (\<lambda>vals.
    bind_st (exe_filter_guarded E (vals ! 1)) (\<lambda>_.
    bind_st (argv_get E (vals ! 5)) (\<lambda>argv.
    bind_st (argv_dyn_filtered E argv) (\<lambda>filtered.
    if filtered then return_st (dst, 0) else
    let vals = vals[20 := argv] in
    bind_st (put_argv E 21 3 vals) (\<lambda>vals.
    bind_st (put_argv E 22 4 vals) (\<lambda>vals.
    bind_st (put_username E 23 0 vals) (\<lambda>vals.
    bind_st (put_pod_name E 24 vals) (\<lambda>vals.
    bind_st (put_exe_hash E 25 vals) (\<lambda>vals.
    bind_st (put_pid_tree E 26 vals) (\<lambda>vals.
    bind_st (put_argv E 27 18 vals) (\<lambda>vals.
    lift_res (encode timestamp keys vals dst (ucast (602 :: u32)))))))))))))))"

definition transform_603 ::
  "('l, 'r, 'c, 'f, 'w) env \<Rightarrow> u64 \<Rightarrow> bytes \<Rightarrow> bytes \<Rightarrow> ('l, 'r, 'c, 'f, 'w, bytes \<times> nat) drv" where
  "transform_603 E timestamp data dst =
    bind_st (lift_res (schema_of 603)) (\<lambda>keys.
    bind_st (lift_res (split_values 21 data)) (\<lambda>vals.
    bind_st (put_argv E 15 5 vals) (\<lambda>vals.
    bind_st (put_argv E 16 3 vals) (\<lambda>vals.
    bind_st (put_argv E 17 4 vals) (\<lambda>vals.
    bind_st (put_username E 18 0 vals) (\<lambda>vals.
    bind_st (put_pod_name E 19 vals) (\<lambda>vals.
    bind_st (put_exe_hash E 20 vals) (\<lambda>vals.
    bind_st (pid_tree_insert E (vals ! 5) (vals ! 13)) (\<lambda>_.
    lift_res (encode timestamp keys vals dst (ucast (603 :: u32))))))))))))"

definition transform_604 ::
  "('l, 'r, 'c, 'f, 'w) env \<Rightarrow> u64 \<Rightarrow> bytes \<Rightarrow> bytes \<Rightarrow> ('l, 'r, 'c, 'f, 'w, bytes \<times> nat) drv" where
  "transform_604 E timestamp data dst =
    bind_st (lift_res (schema_of 604)) (\<lambda>keys.
    bind_st (lift_res (split_values 22 data)) (\<lambda>vals.
    bind_st (put_argv E 15 5 vals) (\<lambda>vals.
    bind_st (put_argv E 16 3 vals) (\<lambda>vals.
    bind_st (put_argv E 17 4 vals) (\<lambda>vals.
    bind_st (put_username E 18 0 vals) (\<lambda>vals.
    bind_st (put_pod_name E 19 vals) (\<lambda>vals.
    bind_st (put_exe_hash E 20 vals) (\<lambda>vals.
    bind_st (pid_tree_insert E (vals ! 5) (vals ! 12)) (\<lambda>_.
    bind_st (put_username E 21 13 vals) (\<lambda>vals.
    lift_res (encode timestamp keys vals dst (ucast (604 :: u32)))))))))))))"

definition transform_607 ::
  "('l, 'r, 'c, 'f, 'w) env \<Rightarrow> u64 \<Rightarrow> bytes \<Rightarrow> bytes \<Rightarrow> ('l, 'r, 'c, 'f, 'w, bytes \<times> nat) drv" where
  "transform_607 E timestamp data dst =
    bind_st (lift_res (schema_of 607)) (\<lambda>keys.
    bind_st (lift_res (split_values 3 data)) (\<lambda>vals.
    lift_res (encode timestamp keys vals dst (ucast (607 :: u32)))))"

definition transform_608_609 ::
  "('l, 'r, 'c, 'f, 'w) env \<Rightarrow> u64 \<Rightarrow> u32 \<Rightarrow> bytes \<Rightarrow> bytes \<Rightarrow> ('l, 'r, 'c, 'f, 'w, bytes \<times> nat) drv" where
  "transform_608_609 E timestamp data_type data dst =
    bind_st (lift_res (schema_of data_type)) (\<lambda>keys.
    bind_st (lift_res (split_values 22 data)) (\<lambda>vals.
    bind_st (put_argv E 14 5 vals) (\<lambda>vals.
    bind_st (put_argv E 15 3 vals) (\<lambda>vals.
    bind_st (put_argv E 16 4 vals) (\<lambda>vals.
    bind_st (put_username E 17 0 vals) (\<lambda>vals.
    bind_st (put_pod_name E 18 vals) (\<lambda>vals.
    bind_st (put_exe_hash E 19 vals) (\<lambda>vals.
    bind_st (put_pid_tree E 20 vals) (\<lambda>vals.
    lift_res (encode timestamp keys vals dst (ucast data_type)))))))))))"

definition transform_610 ::
  "('l, 'r, 'c, 'f, 'w) env \<Rightarrow> u64 \<Rightarrow> bytes \<Rightarrow> bytes \<Rightarrow> ('l, 'r, 'c, 'f, 'w, bytes \<times> nat) drv" where
  "transform_610 E timestamp data dst =
    bind_st (lift_res (schema_of 610)) (\<lambda>keys.
    bind_st (lift_res (split_values 23 data)) (\<lambda>vals.
    bind_st (put_argv E 16 5 vals) (\<lambda>vals.
    bind_st (put_argv E 17 3 vals) (\<lambda>vals.
    bind_st (put_argv E 18 4 vals) (\<lambda>vals.
    bind_st (put_username E 19 0 vals) (\<lambda>vals.
    bind_st (put_pod_name E 20 vals) (\<lambda>vals.
    bind_st (put_exe_hash E 21 vals) (\<lambda>vals.
    bind_st (put_pid_tree E 22 vals) (\<lambda>vals.
    lift_res (encode timestamp keys vals dst (ucast (610 :: u32))))))))))))"

definition transform_611 ::
  "('l, 'r, 'c, 'f, 'w) env \<Rightarrow> u64 \<Rightarrow> bytes \<Rightarrow> bytes \<Rightarrow> ('l, 'r, 'c, 'f, 'w, bytes \<times> nat) drv" where
  "transform_611 E timestamp data dst =
    bind_st (lift_res (schema_of 611)) (\<lambda>keys.
    bind_st (lift_res (split_values 24 data)) (\<lambda>vals.
    bind_st (put_argv E 16 5 vals) (\<lambda>vals.
    bind_st (put_argv E 17 3 vals) (\<lambda>vals.
    bind_st (put_argv E 18 4 vals) (\<lambda>vals.
    bind_st (put_username E 19 0 vals) (\<lambda>vals.
    bind_st (put_pod_name E 20 vals) (\<lambda>vals.
    bind_st (put_exe_hash E 21 vals) (\<lambda>vals.
    bind_st (put_pid_tree E 22 vals) (\<lambda>vals.
    bind_st (put_argv E 23 12 vals) (\<lambda>vals.
    lift_res (encode timestamp keys vals dst (ucast (611 :: u32)))))))))))))"

definition transform_700_702 ::
  "('l, 'r, 'c, 'f, 'w) env \<Rightarrow> u64 \<Rightarrow> u32 \<Rightarrow> bytes \<Rightarrow> bytes \<Rightarrow> ('l, 'r, 'c, 'f, 'w, bytes \<times> nat) drv" where
  "transform_700_702 E timestamp data_type data dst =
    bind_st (lift_res (schema_of data_type)) (\<lambda>keys.
    bind_st (lift_res (split_values 1 data)) (\<lambda>vals.
    lift_res (encode timestamp keys vals dst (ucast data_type))))"

definition transform_701_703 ::
  "('l, 'r, 'c, 'f, 'w) env \<Rightarrow> u64 \<Rightarrow> u32 \<Rightarrow> bytes \<Rightarrow> bytes \<Rightarrow> ('l, 'r, 'c, 'f, 'w, bytes \<times> nat) drv" where
  "transform_701_703 E timestamp data_type data dst =
    bind_st (lift_res (schema_of data_type)) (\<lambda>keys.
    bind_st (lift_res (split_values 2 data)) (\<lambda>vals.
    lift_res (encode timestamp keys vals dst (ucast data_type))))"

subsection \<open>Dispatch and header\<close>

definition match_data_type ::
  "('l, 'r, 'c, 'f, 'w) env \<Rightarrow> u64 \<Rightarrow> u32 \<Rightarrow> bytes \<Rightarrow> bytes \<Rightarrow> ('l, 'r, 'c, 'f, 'w, bytes \<times> nat) drv" where
  "match_data_type E timestamp data_type data dst =
    (if data_type = 42 then transform_42 E timestamp data dst
     else if data_type = 49 then transform_49 E timestamp data dst
     else if data_type = 59 then transform_59 E timestamp data dst
     else if data_type = 82 \<or> data_type = 86 then transform_82_86 E timestamp data_type data dst
     else if data_type = 101 then transform_101 E timestamp data dst
     else if data_type = 112 then transform_112 E timestamp data dst
     else if data_type = 157 then transform_157 E timestamp data dst
     else if data_type = 165 then transform_165 E timestamp data dst
     else if data_type = 356 then transform_356 E timestamp data dst
     else if data_type = 601 then transform_601 E timestamp data dst
     else if data_type = 602 then transform_602 E timestamp data dst
     else if data_type = 603 then transform_603 E timestamp data dst
     else if data_type = 604 then transform_604 E timestamp data dst
     else if data_type = 607 then transform_607 E timestamp data dst
     else if data_type = 608 \<or> data_type = 609 then transform_608_609 E timestamp data_type data dst
     else if data_type = 610 then transform_610 E timestamp data dst
     else if data_type = 611 then transform_611 E timestamp data dst
     else if data_type = 700 \<or> data_type = 702 then transform_700_702 E timestamp data_type data dst
     else if data_type = 701 \<or> data_type = 703 then transform_701_703 E timestamp data_type data dst
     else lift_res (Inl (Err (UnknownDataType data_type))))"

fun find_separator :: "bytes \<Rightarrow> nat" where
  "find_separator [] = 0"
| "find_separator (b # bs) = (if b = 0x1e then 0 else Suc (find_separator bs))"

definition transform ::
  "('l, 'r, 'c, 'f, 'w) env \<Rightarrow> bytes \<Rightarrow> bytes \<Rightarrow> ('l, 'r, 'c, 'f, 'w, bytes \<times> nat) drv" where
  "transform E data dst = (\<lambda>s.
     let index = find_separator data in
     case from_utf8 (take index data) of
       None \<Rightarrow> (Inl (Err ParseError), s)
     | Some header \<Rightarrow>
         (case parse_u32 header of
            None \<Rightarrow> (Inl (Err ParseError), s)
          | Some data_type \<Rightarrow>
              (case unix_secs E (world s) of
                 (None, w) \<Rightarrow> (Inl Panic, s\<lparr>world := w\<rparr>)
               | (Some timestamp, w) \<Rightarrow>
                   let s = s\<lparr>world := w\<rparr> in
                   if index + 1 \<le> length data
                   then match_data_type E timestamp data_type (drop (index + 1) data) dst s
                   else (Inl Panic, s))))"

end
