(* ===== verification/Driver_Outcome.thy ===== *)
theory Driver_Outcome
  imports Driver_Arms
begin

section \<open>What \<open>transform\<close> does with a record\<close>

text \<open>
  The locale \<open>driver_invariant\<close> is the interface between the steps of the transformer and the arms: an
  invariant of the driver's state that every elementary update keeps. From it follow the outcome of
  every step, of every arm and of \<open>transform\<close>. It is interpreted with the invariant that the control
  device is open (what is needed for the absence of panics) and with the invariant that ties the
  plugin's queues to the kernel's allowlists.
\<close>

subsection \<open>The shape of the records\<close>

text \<open>For every data type that \<open>transform\<close> handles: the size of its array of values and the number of leading
  fields that come from the kernel and that no step overwrites.\<close>

definition arm_shape :: "u32 \<Rightarrow> (nat \<times> nat) option" where
  "arm_shape = [42 \<mapsto> (25, 18),
     49 \<mapsto> (23, 16),
     59 \<mapsto> (33, 27),
     82 \<mapsto> (22, 15),
     86 \<mapsto> (22, 15),
     101 \<mapsto> (24, 17),
     112 \<mapsto> (19, 12),
     157 \<mapsto> (21, 14),
     165 \<mapsto> (23, 17),
     356 \<mapsto> (21, 14),
     601 \<mapsto> (27, 20),
     602 \<mapsto> (28, 20),
     603 \<mapsto> (21, 15),
     604 \<mapsto> (22, 15),
     607 \<mapsto> (3, 3),
     608 \<mapsto> (22, 14),
     609 \<mapsto> (22, 14),
     610 \<mapsto> (23, 16),
     611 \<mapsto> (24, 16),
     700 \<mapsto> (1, 1),
     701 \<mapsto> (2, 2),
     702 \<mapsto> (1, 1),
     703 \<mapsto> (2, 2)]"

lemma SCHEMA_simps:
  "SCHEMA 42 = Some schema_42"
  "SCHEMA 49 = Some schema_49"
  "SCHEMA 59 = Some schema_59"
  "SCHEMA 82 = Some schema_82"
  "SCHEMA 86 = Some schema_86"
  "SCHEMA 101 = Some schema_101"
  "SCHEMA 112 = Some schema_112"
  "SCHEMA 157 = Some schema_157"
  "SCHEMA 165 = Some schema_165"
  "SCHEMA 356 = Some schema_356"
  "SCHEMA 601 = Some schema_601"
  "SCHEMA 602 = Some schema_602"
  "SCHEMA 603 = Some schema_603"
  "SCHEMA 604 = Some schema_604"
  "SCHEMA 607 = Some schema_607"
  "SCHEMA 608 = Some schema_608"
  "SCHEMA 609 = Some schema_609"
  "SCHEMA 610 = Some schema_610"
  "SCHEMA 611 = Some schema_611"
  "SCHEMA 700 = Some schema_700"
  "SCHEMA 701 = Some schema_701"
  "SCHEMA 702 = Some schema_702"
  "SCHEMA 703 = Some schema_703"
  by (simp_all add: SCHEMA_def)

lemma schema_of_simps:
  "schema_of 42 = Inr schema_42"
  "schema_of 49 = Inr schema_49"
  "schema_of 59 = Inr schema_59"
  "schema_of 82 = Inr schema_82"
  "schema_of 86 = Inr schema_86"
  "schema_of 101 = Inr schema_101"
  "schema_of 112 = Inr schema_112"
  "schema_of 157 = Inr schema_157"
  "schema_of 165 = Inr schema_165"
  "schema_of 356 = Inr schema_356"
  "schema_of 601 = Inr schema_601"
  "schema_of 602 = Inr schema_602"
  "schema_of 603 = Inr schema_603"
  "schema_of 604 = Inr schema_604"
  "schema_of 607 = Inr schema_607"
  "schema_of 608 = Inr schema_608"
  "schema_of 609 = Inr schema_609"
  "schema_of 610 = Inr schema_610"
  "schema_of 611 = Inr schema_611"
  "schema_of 700 = Inr schema_700"
  "schema_of 701 = Inr schema_701"
  "schema_of 702 = Inr schema_702"
  "schema_of 703 = Inr schema_703"
  by (simp_all add: schema_of_def SCHEMA_simps)

lemma arm_shape_cases:
  assumes "arm_shape dt = Some nk"
  shows "(dt, nk) \<in> set [(42, 25, 18),
     (49, 23, 16),
     (59, 33, 27),
     (82, 22, 15),
     (86, 22, 15),
     (101, 24, 17),
     (112, 19, 12),
     (157, 21, 14),
     (165, 23, 17),
     (356, 21, 14),
     (601, 27, 20),
     (602, 28, 20),
     (603, 21, 15),
     (604, 22, 15),
     (607, 3, 3),
     (608, 22, 14),
     (609, 22, 14),
     (610, 23, 16),
     (611, 24, 16),
     (700, 1, 1),
     (701, 2, 2),
     (702, 1, 1),
     (703, 2, 2)]"
  using assms unfolding arm_shape_def by (simp split: if_splits)

definition arm_result :: "u64 \<Rightarrow> u32 \<Rightarrow> nat \<Rightarrow> bytes \<Rightarrow> bytes list \<Rightarrow> (bytes \<times> nat) res \<Rightarrow> bool" where
  "arm_result timestamp data_type kept dst vals r \<longleftrightarrow>
     data_type \<in> {42, 157, 602} \<and> r = Inr (dst, 0) \<or>
     (\<exists>keys v. SCHEMA data_type = Some keys \<and> length v = length vals \<and> take kept v = take kept vals \<and>
        r = encode timestamp keys v dst (ucast data_type))"

lemma arm_resultI:
  "SCHEMA data_type = Some keys \<Longrightarrow> length v = length vals \<Longrightarrow> take kept v = take kept vals \<Longrightarrow>
   arm_result timestamp data_type kept dst vals (encode timestamp keys v dst (ucast data_type))"
  by (auto simp: arm_result_def)

lemma arm_result_filtered: "data_type \<in> {42, 157, 602} \<Longrightarrow> arm_result timestamp data_type kept dst vals (Inr (dst, 0))"
  by (simp add: arm_result_def)

subsection \<open>Invariants of the driver\<close>

lemma bind_lift_Inr [simp]: "bind_st (lift_res (Inr x)) f = f x"
  by (simp add: bind_st_def lift_res_def)

lemma bind_lift_Inl [simp]: "bind_st (lift_res (Inl e)) f = lift_res (Inl e)"
  by (simp add: bind_st_def lift_res_def)

lemma outcome_bind_post:
  "outcome I m (\<lambda>r. \<exists>x. r = Inr x \<and> Q x) \<Longrightarrow> (\<And>x. Q x \<Longrightarrow> outcome I (f x) X) \<Longrightarrow> outcome I (bind_st m f) X"
  unfolding outcome_def bind_st_def by (force split: prod.splits sum.splits)

lemma total_option_case:
  "(\<And>n. total I (f n)) \<Longrightarrow> total I g \<Longrightarrow> total I (case x of Some n \<Rightarrow> f n | None \<Rightarrow> g)"
  by (cases x) simp_all

locale driver_invariant =
  fixes E :: "('l, 'r, 'c, 'f, 'w) env"
    and I :: "('l, 'r, 'c, 'f, 'w) driver \<Rightarrow> bool"
  assumes inv_world: "I s \<Longrightarrow> I (s\<lparr>world := w\<rparr>)"
    and inv_argv_cache: "I s \<Longrightarrow> I (s\<lparr>transformer := (transformer s)\<lparr>argv_cache := a\<rparr>\<rparr>)"
    and inv_hash_cache: "I s \<Longrightarrow> I (s\<lparr>transformer := (transformer s)\<lparr>hash_cache := h\<rparr>\<rparr>)"
    and inv_ns_cache: "I s \<Longrightarrow> I (s\<lparr>transformer := (transformer s)\<lparr>ns_cache := n\<rparr>\<rparr>)"
    and inv_user_cache: "I s \<Longrightarrow> I (s\<lparr>transformer := (transformer s)\<lparr>user_cache := u\<rparr>\<rparr>)"
    and inv_pid_tree_cache: "I s \<Longrightarrow> I (s\<lparr>transformer := (transformer s)\<lparr>pid_tree_cache := l\<rparr>\<rparr>)"
    and inv_connect_filter: "I s \<Longrightarrow> I (s\<lparr>transformer := (transformer s)\<lparr>connect_filter := f\<rparr>\<rparr>)"
    and inv_exe_filter: "I s \<Longrightarrow> I (s\<lparr>transformer := (transformer s)\<lparr>exe_filter := c\<rparr>\<rparr>)"
    and inv_argv_dyn_filter: "I s \<Longrightarrow> I (s\<lparr>transformer := (transformer s)\<lparr>argv_dyn_filter := c\<rparr>\<rparr>)"
    and inv_add_exe: "I s \<Longrightarrow> \<exists>k. add_filtered_exe now exe (kmod_of s) = Inr k \<and> I (s\<lparr>kmod_of := k\<rparr>)"
    and total_argv_filter_count: "total I (argv_filter_count E argv)"
begin

lemmas inv_intros = inv_world inv_argv_cache inv_hash_cache inv_ns_cache inv_user_cache
  inv_pid_tree_cache inv_connect_filter inv_exe_filter inv_argv_dyn_filter

lemma total_argv_get: "total I (argv_get E pid)"
  unfolding argv_get_def by (rule total_pure) (auto split: prod.splits intro: inv_intros)

lemma total_argv_put: "total I (argv_put E pid a)"
  unfolding argv_put_def by (rule total_pure) (auto intro: inv_intros)

lemma total_user_get: "total I (user_get E uid)"
  unfolding user_get_def by (rule total_pure) (auto split: prod.splits intro: inv_intros)

lemma total_ns_get: "total I (ns_get E pns pid)"
  unfolding ns_get_def by (rule total_pure) (auto split: prod.splits intro: inv_intros)

lemma total_hash_get: "total I (hash_get E exe)"
  unfolding hash_get_def by (rule total_pure) (auto split: prod.splits intro: inv_intros)

lemma total_pid_tree_get: "total I (pid_tree_get E pid)"
  unfolding pid_tree_get_def by (rule total_pure) (auto split: prod.splits intro: inv_intros)

lemma total_pid_tree_insert: "total I (pid_tree_insert E pid tree)"
  unfolding pid_tree_insert_def by (rule total_pure) (auto intro: inv_intros)

lemma total_kmod_add_exe: "total I (kmod_add_exe E exe)"
  unfolding total_def
proof (rule outcomeI)
  fix s assume s: "I s"
  obtain now w where n: "instant_now E (world s) = (now, w)" by fastforce
  obtain k where "add_filtered_exe now exe (kmod_of s) = Inr k" "I (s\<lparr>kmod_of := k\<rparr>)"
    using inv_add_exe[OF s] by blast
  then show "(\<exists>x. fst (kmod_add_exe E exe s) = Inr x) \<and> I (snd (kmod_add_exe E exe s))"
    using inv_world[of "s\<lparr>kmod_of := k\<rparr>" w] n by (simp add: kmod_add_exe_def)
qed

lemma total_exe_filter_count: "total I (exe_filter_count E exe)"
proof -
  have "total I (exe_filter_get_mut E exe)"
    unfolding exe_filter_get_mut_def by (rule total_pure) (auto split: prod.splits intro: inv_intros)
  moreover have "total I (exe_filter_store E exe n)" for n
    unfolding exe_filter_store_def by (rule total_pure) (auto intro: inv_intros)
  moreover have "total I (exe_filter_insert E exe n d)" for n d
    unfolding exe_filter_insert_def by (rule total_pure) (auto split: prod.splits intro: inv_intros)
  ultimately show ?thesis
    unfolding exe_filter_count_def
    by (intro total_bind total_option_case total_if total_kmod_add_exe total_return)
qed

lemma total_exe_filter_guarded: "total I (exe_filter_guarded E exe)"
  unfolding exe_filter_guarded_def by (intro total_if total_exe_filter_count total_return)

lemma total_exe_argv_filter_guarded: "total I (exe_argv_filter_guarded E exe argv)"
  unfolding exe_argv_filter_guarded_def
  by (intro total_if total_bind total_exe_filter_count total_argv_filter_count total_return)

lemma total_connect_filtered: "total I (connect_filtered E vals)"
  unfolding connect_filtered_def Let_def
  by (intro total_if total_return total_pure) (auto split: prod.splits intro!: inv_intros)

lemma total_argv_dyn_filtered: "total I (argv_dyn_filtered E argv)"
  unfolding argv_dyn_filtered_def
  by (intro total_if total_return total_pure) (auto split: prod.splits option.splits intro!: inv_intros)

lemmas total_steps = total_argv_get total_argv_put total_user_get total_ns_get total_hash_get
  total_pid_tree_get total_pid_tree_insert total_exe_filter_guarded total_exe_argv_filter_guarded
  total_connect_filtered total_argv_dyn_filtered

text \<open>A step that stores into a slot: whatever it stores, the rest of the arm has the outcome.\<close>

lemma outcome_slot:
  assumes "total I m" "\<And>v. outcome I (f (vals[slot := v])) X"
  shows "outcome I (bind_st (bind_st m (\<lambda>v. return_st (vals[slot := v]))) f) X"
  unfolding bind_st_assoc by (rule outcome_bind[OF assms(1)]) (simp add: assms(2))

lemma outcome_put_argv: "(\<And>v. outcome I (f (vals[slot := v])) X) \<Longrightarrow>
    outcome I (bind_st (put_argv E slot pid vals) f) X"
  unfolding put_argv_def by (rule outcome_slot[OF total_argv_get])

lemma outcome_put_username: "(\<And>v. outcome I (f (vals[slot := v])) X) \<Longrightarrow>
    outcome I (bind_st (put_username E slot uid vals) f) X"
  unfolding put_username_def by (rule outcome_slot[OF total_user_get])

lemma outcome_put_pod_name: "(\<And>v. outcome I (f (vals[slot := v])) X) \<Longrightarrow>
    outcome I (bind_st (put_pod_name E slot vals) f) X"
  unfolding put_pod_name_def by (rule outcome_slot) (intro total_if total_ns_get total_return)

lemma outcome_put_exe_hash: "(\<And>v. outcome I (f (vals[slot := v])) X) \<Longrightarrow>
    outcome I (bind_st (put_exe_hash E slot vals) f) X"
  unfolding put_exe_hash_def by (rule outcome_slot[OF total_hash_get])

lemma outcome_put_pid_tree: "(\<And>v. outcome I (f (vals[slot := v])) X) \<Longrightarrow>
    outcome I (bind_st (put_pid_tree E slot vals) f) X"
  unfolding put_pid_tree_def by (rule outcome_slot[OF total_pid_tree_get])

lemmas arm_intros = outcome_put_argv outcome_put_username outcome_put_pod_name outcome_put_exe_hash
  outcome_put_pid_tree outcome_if outcome_return outcome_lift outcome_bind total_steps

lemmas arm_simps = Let_def bind_lift_Inr schema_of_simps

lemmas whitelists = PPID_ARGV_WHITELIST_def PGID_ARGV_WHITELIST_def DNS_SUFFIX_WHITELIST_def dns_whitelisted_def

lemma outcome_transform_42:
  assumes "split_values 25 data = Inr vals"
  shows "outcome I (transform_42 E ts data dst) (arm_result ts 42 18 dst vals)"
  unfolding transform_42_def assms arm_simps
  by (intro arm_intros arm_resultI arm_result_filtered; simp add: SCHEMA_simps whitelists)

lemma outcome_transform_49:
  assumes "split_values 23 data = Inr vals"
  shows "outcome I (transform_49 E ts data dst) (arm_result ts 49 16 dst vals)"
  unfolding transform_49_def assms arm_simps
  by (intro arm_intros arm_resultI arm_result_filtered; simp add: SCHEMA_simps whitelists)

lemma outcome_transform_59:
  assumes "split_values 33 data = Inr vals"
  shows "outcome I (transform_59 E ts data dst) (arm_result ts 59 27 dst vals)"
  unfolding transform_59_def assms arm_simps
  by (intro arm_intros arm_resultI arm_result_filtered; simp add: SCHEMA_simps whitelists)

lemma outcome_transform_101:
  assumes "split_values 24 data = Inr vals"
  shows "outcome I (transform_101 E ts data dst) (arm_result ts 101 17 dst vals)"
  unfolding transform_101_def assms arm_simps
  by (intro arm_intros arm_resultI arm_result_filtered; simp add: SCHEMA_simps whitelists)

lemma outcome_transform_112:
  assumes "split_values 19 data = Inr vals"
  shows "outcome I (transform_112 E ts data dst) (arm_result ts 112 12 dst vals)"
  unfolding transform_112_def assms arm_simps
  by (intro arm_intros arm_resultI arm_result_filtered; simp add: SCHEMA_simps whitelists)

lemma outcome_transform_157:
  assumes "split_values 21 data = Inr vals"
  shows "outcome I (transform_157 E ts data dst) (arm_result ts 157 14 dst vals)"
  unfolding transform_157_def assms arm_simps
  by (intro arm_intros arm_resultI arm_result_filtered; simp add: SCHEMA_simps whitelists)

lemma outcome_transform_165:
  assumes "split_values 23 data = Inr vals"
  shows "outcome I (transform_165 E ts data dst) (arm_result ts 165 17 dst vals)"
  unfolding transform_165_def assms arm_simps
  by (intro arm_intros arm_resultI arm_result_filtered; simp add: SCHEMA_simps whitelists)

lemma outcome_transform_356:
  assumes "split_values 21 data = Inr vals"
  shows "outcome I (transform_356 E ts data dst) (arm_result ts 356 14 dst vals)"
  unfolding transform_356_def assms arm_simps
  by (intro arm_intros arm_resultI arm_result_filtered; simp add: SCHEMA_simps whitelists)

lemma outcome_transform_601:
  assumes "split_values 27 data = Inr vals"
  shows "outcome I (transform_601 E ts data dst) (arm_result ts 601 20 dst vals)"
  unfolding transform_601_def assms arm_simps
  by (intro arm_intros arm_resultI arm_result_filtered; simp add: SCHEMA_simps whitelists)

lemma outcome_transform_602:
  assumes "split_values 28 data = Inr vals"
  shows "outcome I (transform_602 E ts data dst) (arm_result ts 602 20 dst vals)"
  unfolding transform_602_def assms arm_simps
  by (intro arm_intros arm_resultI arm_result_filtered; simp add: SCHEMA_simps whitelists)

lemma outcome_transform_603:
  assumes "split_values 21 data = Inr vals"
  shows "outcome I (transform_603 E ts data dst) (arm_result ts 603 15 dst vals)"
  unfolding transform_603_def assms arm_simps
  by (intro arm_intros arm_resultI arm_result_filtered; simp add: SCHEMA_simps whitelists)

lemma outcome_transform_604:
  assumes "split_values 22 data = Inr vals"
  shows "outcome I (transform_604 E ts data dst) (arm_result ts 604 15 dst vals)"
  unfolding transform_604_def assms arm_simps
  by (intro arm_intros arm_resultI arm_result_filtered; simp add: SCHEMA_simps whitelists)

lemma outcome_transform_607:
  assumes "split_values 3 data = Inr vals"
  shows "outcome I (transform_607 E ts data dst) (arm_result ts 607 3 dst vals)"
  unfolding transform_607_def assms arm_simps
  by (intro arm_intros arm_resultI arm_result_filtered; simp add: SCHEMA_simps whitelists)

lemma outcome_transform_610:
  assumes "split_values 23 data = Inr vals"
  shows "outcome I (transform_610 E ts data dst) (arm_result ts 610 16 dst vals)"
  unfolding transform_610_def assms arm_simps
  by (intro arm_intros arm_resultI arm_result_filtered; simp add: SCHEMA_simps whitelists)

lemma outcome_transform_611:
  assumes "split_values 24 data = Inr vals"
  shows "outcome I (transform_611 E ts data dst) (arm_result ts 611 16 dst vals)"
  unfolding transform_611_def assms arm_simps
  by (intro arm_intros arm_resultI arm_result_filtered; simp add: SCHEMA_simps whitelists)

lemma outcome_transform_82_86:
  assumes "split_values 22 data = Inr vals" "dt = 82 \<or> dt = 86"
  shows "outcome I (transform_82_86 E ts dt data dst) (arm_result ts dt 15 dst vals)"
proof -
  obtain keys where k: "SCHEMA dt = Some keys" "schema_of dt = Inr keys"
    using assms(2) SCHEMA_simps schema_of_simps by auto
  show ?thesis
    unfolding transform_82_86_def assms(1) k(2) arm_simps
    by (intro arm_intros arm_resultI; simp add: k(1))
qed

lemma outcome_transform_608_609:
  assumes "split_values 22 data = Inr vals" "dt = 608 \<or> dt = 609"
  shows "outcome I (transform_608_609 E ts dt data dst) (arm_result ts dt 14 dst vals)"
proof -
  obtain keys where k: "SCHEMA dt = Some keys" "schema_of dt = Inr keys"
    using assms(2) SCHEMA_simps schema_of_simps by auto
  show ?thesis
    unfolding transform_608_609_def assms(1) k(2) arm_simps
    by (intro arm_intros arm_resultI; simp add: k(1))
qed

lemma outcome_transform_700_702:
  assumes "split_values 1 data = Inr vals" "dt = 700 \<or> dt = 702"
  shows "outcome I (transform_700_702 E ts dt data dst) (arm_result ts dt 1 dst vals)"
proof -
  obtain keys where k: "SCHEMA dt = Some keys" "schema_of dt = Inr keys"
    using assms(2) SCHEMA_simps schema_of_simps by auto
  show ?thesis
    unfolding transform_700_702_def assms(1) k(2) arm_simps
    by (intro arm_intros arm_resultI; simp add: k(1))
qed

lemma outcome_transform_701_703:
  assumes "split_values 2 data = Inr vals" "dt = 701 \<or> dt = 703"
  shows "outcome I (transform_701_703 E ts dt data dst) (arm_result ts dt 2 dst vals)"
proof -
  obtain keys where k: "SCHEMA dt = Some keys" "schema_of dt = Inr keys"
    using assms(2) SCHEMA_simps schema_of_simps by auto
  show ?thesis
    unfolding transform_701_703_def assms(1) k(2) arm_simps
    by (intro arm_intros arm_resultI; simp add: k(1))
qed

lemmas arm_outcomes = outcome_transform_42
  outcome_transform_49
  outcome_transform_59
  outcome_transform_101
  outcome_transform_112
  outcome_transform_157
  outcome_transform_165
  outcome_transform_356
  outcome_transform_601
  outcome_transform_602
  outcome_transform_603
  outcome_transform_604
  outcome_transform_607
  outcome_transform_610
  outcome_transform_611
  outcome_transform_82_86
  outcome_transform_608_609
  outcome_transform_700_702
  outcome_transform_701_703

lemma outcome_match_data_type:
  assumes "arm_shape dt = Some (n, k)" "split_values n data = Inr vals"
  shows "outcome I (match_data_type E ts dt data dst) (arm_result ts dt k dst vals)"
  using arm_shape_cases[OF assms(1)] assms(2)
  unfolding list.set insert_iff empty_iff Pair_inject
  by (elim disjE conjE FalseE) (simp_all add: match_data_type_def arm_outcomes del: One_nat_def)

end

lemma find_separator_split: "0x1e \<notin> set h \<Longrightarrow> find_separator (h @ 0x1e # b) = length h"
  by (induction h) auto

lemma find_separator_none: "0x1e \<notin> set h \<Longrightarrow> find_separator h = length h"
  by (induction h) auto

lemma parse_digits_bytes: "parse_digits bound bs n = Some m \<Longrightarrow> b \<in> set bs \<Longrightarrow> 0x30 \<le> b \<and> b \<le> 0x39"
  by (induction bs arbitrary: n) (auto simp: digit_val_def split: option.splits if_splits)

lemma parse_u32_bytes:
  assumes "parse_u32 h = Some dt" "b \<in> set h"
  shows "b = 0x2b \<or> 0x30 \<le> b \<and> b \<le> 0x39"
proof (cases h)
  case (Cons a h')
  obtain n where "parse_uint (2 ^ 32) h = Some n" using assms(1) by (auto simp: parse_u32_def)
  then have "(a = 0x2b \<and> parse_digits (2 ^ 32) h' 0 = Some n) \<or> parse_digits (2 ^ 32) h 0 = Some n"
    unfolding parse_uint_def Cons list.case by (simp only: split: if_splits) simp_all
  then show ?thesis
  proof (elim disjE conjE)
    assume "a = 0x2b" "parse_digits (2 ^ 32) h' 0 = Some n"
    then show ?thesis using assms(2) Cons parse_digits_bytes[of "2 ^ 32" h' 0 n b] by auto
  next
    assume p: "parse_digits (2 ^ 32) h 0 = Some n"
    show ?thesis using parse_digits_bytes[OF p assms(2)] by simp
  qed
qed (use assms in simp)

lemma parse_u32_header:
  assumes "parse_u32 h = Some dt"
  shows "0x1e \<notin> set h" "from_utf8 h = Some h"
proof -
  show "0x1e \<notin> set h" using parse_u32_bytes[OF assms, of "0x1e"] by auto
  have "b < 0x80" if "b \<in> set h" for b
    using parse_u32_bytes[OF assms that] by (auto simp: word_less_nat_alt word_le_nat_alt)
  then show "from_utf8 h = Some h" by (simp add: from_utf8_def valid_utf8_ascii)
qed

lemma transform_header:
  assumes "parse_u32 h = Some dt" "unix_secs E (world s) = (Some ts, w)"
  shows "transform E (h @ 0x1e # body) dst s = match_data_type E ts dt body dst (s\<lparr>world := w\<rparr>)"
  using parse_u32_header[OF assms(1)] assms
  by (simp add: transform_def find_separator_split)

lemma split_values_panic: "n < length (split_on 0x1e body) \<Longrightarrow> split_values n body = Inl Panic"
  by (simp add: split_values_eq Let_def)

lemma match_data_type_unknown:
  "arm_shape dt = None \<Longrightarrow> match_data_type E ts dt data dst = lift_res (Inl (Err (UnknownDataType dt)))"
  by (simp add: arm_shape_def match_data_type_def split: if_splits)

lemmas transform_arm_defs = transform_42_def transform_49_def transform_59_def transform_82_86_def
  transform_101_def transform_112_def transform_157_def transform_165_def transform_356_def
  transform_601_def transform_602_def transform_603_def transform_604_def transform_607_def
  transform_608_609_def transform_610_def transform_611_def transform_700_702_def transform_701_703_def

lemma match_data_type_overflow:
  assumes "arm_shape dt = Some (n, k)" "n < length (split_on 0x1e data)"
  shows "match_data_type E ts dt data dst = lift_res (Inl Panic)"
proof -
  note sv = split_values_panic[OF assms(2)]
  show ?thesis
    using arm_shape_cases[OF assms(1)] sv
    unfolding list.set insert_iff empty_iff Pair_inject
    by (elim disjE conjE FalseE)
       (simp_all add: match_data_type_def transform_arm_defs schema_of_simps)
qed

context driver_invariant
begin

text \<open>\<open>transform\<close> keeps the invariant, whatever the record.\<close>

lemma inv_match_data_type: "I s \<Longrightarrow> I (snd (match_data_type E ts dt data dst s))"
proof (cases "arm_shape dt")
  case (Some nk)
  obtain n k where nk: "nk = (n, k)" by fastforce
  assume s: "I s"
  show ?thesis
  proof (cases "length (split_on 0x1e data) \<le> n")
    case True
    then have "\<exists>vals. split_values n data = Inr vals" by (simp add: split_values_eq Let_def)
    then show ?thesis
      using outcomeD[OF outcome_match_data_type s] Some nk by blast
  next
    case False
    then show ?thesis
      using match_data_type_overflow[of dt n k data E ts dst] Some nk s by (simp add: lift_res_def)
  qed
qed (simp add: match_data_type_unknown lift_res_def)

lemma inv_transform: "I s \<Longrightarrow> I (snd (transform E data dst s))"
  using inv_world inv_match_data_type
  by (auto simp: transform_def Let_def split: option.splits prod.splits)

end

definition device_open :: "('l, 'r, 'c, 'f, 'w) driver \<Rightarrow> bool" where
  "device_open s \<longleftrightarrow> controler (kmod_of s) \<noteq> None"

lemma total_argv_filter_count_open: "total device_open (argv_filter_count E argv)"
  for E :: "('l, 'r, 'c, 'f, 'w) env"
proof -
  have "total device_open (argv_filter_get_mut E argv)"
    unfolding argv_filter_get_mut_def
    by (rule total_pure) (auto simp: device_open_def split: prod.splits)
  moreover have "total device_open (argv_filter_store E argv n)" for n
    unfolding argv_filter_store_def by (rule total_pure) (auto simp: device_open_def)
  moreover have "total device_open (exe_filter_insert E argv n d)" for n d
    unfolding exe_filter_insert_def by (rule total_pure) (auto simp: device_open_def split: prod.splits)
  moreover have "total device_open (kmod_add_argv E argv)"
    unfolding total_def
  proof (rule outcomeI)
    fix s :: "('l, 'r, 'c, 'f, 'w) driver"
    assume "device_open s"
    then obtain c where "controler (kmod_of s) = Some c" by (auto simp: device_open_def)
    from add_filtered_argv_frame[OF this]
    show "(\<exists>x. fst (kmod_add_argv E argv s) = Inr x) \<and> device_open (snd (kmod_add_argv E argv s))"
      by (auto simp: kmod_add_argv_def device_open_def split: prod.splits sum.splits)
         (metis Inl_Inr_False Inr_inject option.distinct(1))+
  qed
  ultimately show ?thesis
    unfolding argv_filter_count_def
    by (intro total_bind total_option_case total_if total_return)
qed

interpretation open_inv: driver_invariant E device_open
  for E :: "('l, 'r, 'c, 'f, 'w) env"
proof unfold_locales
  fix s :: "('l, 'r, 'c, 'f, 'w) driver" and now exe
  assume "device_open s"
  then obtain c where "controler (kmod_of s) = Some c" by (auto simp: device_open_def)
  then show "\<exists>k. add_filtered_exe now exe (kmod_of s) = Inr k \<and> device_open (s\<lparr>kmod_of := k\<rparr>)"
    by (rule add_filtered_exe_cases) (auto simp: device_open_def)
qed (auto simp: device_open_def total_argv_filter_count_open)


subsection \<open>Properties of \<open>transform\<close>\<close>

definition padded_fields :: "nat \<Rightarrow> bytes \<Rightarrow> bytes list" where
  "padded_fields n body = split_on 0x1e body @ replicate (n - length (split_on 0x1e body)) []"

lemma split_values_padded:
  "length (split_on 0x1e body) \<le> n \<Longrightarrow> split_values n body = Inr (padded_fields n body)"
  by (simp add: split_values_eq padded_fields_def Let_def)

lemma schema_lengths:
  assumes "arm_shape dt = Some (n, k)" "SCHEMA dt = Some keys"
  shows "keys \<noteq> [] \<and> length keys \<le> n \<and> (length keys = n \<or> dt = 608 \<or> dt = 609) \<and> n \<le> 33 \<and> k \<le> n \<and> dt \<noteq> 0"
  using arm_shape_cases[OF assms(1)] assms(2)
  unfolding list.set insert_iff empty_iff Pair_inject
  by (elim disjE conjE FalseE) (simp_all add: SCHEMA_simps, (auto simp: schema_defs)+)

lemma ucast_u32_u64 [simp]: "unat (ucast (dt :: u32) :: u64) = unat dt"
proof -
  have "unat dt < 2 ^ 32" using unsigned_less[of dt, where 'a=nat] by simp
  then have "unat dt < 2 ^ 64" by (rule less_trans) simp
  then show ?thesis by (simp add: unsigned_ucast_eq take_bit_nat_eq_self)
qed

lemma transform_cases:
  assumes "parse_u32 header = Some dt" "arm_shape dt = Some (n, k)"
    and "length (split_on 0x1e body) \<le> n" "device_open s"
    and "unix_secs E (world s) = (Some ts, w)" "ts \<noteq> 0" "length dst \<le> 2 ^ 32"
  shows "\<exists>keys v. SCHEMA dt = Some keys \<and> length v = n \<and> take k v = take k (padded_fields n body) \<and>
    (case fst (transform E (header @ 0x1e # body) dst s) of
       Inl e \<Rightarrow> e = Err WriteZero \<and> length dst < length (frame ts keys v (ucast dt))
     | Inr (dst', m) \<Rightarrow>
         m = 0 \<and> dst' = dst \<and> dt \<in> {42, 157, 602} \<or>
         0 < m \<and> length dst' = length dst \<and> drop m dst' = drop m dst \<and>
         decode_frame (take m dst') = Some ((unat dt, unat ts, rev (zip keys v)), []))"
proof -
  let ?vals = "padded_fields n body" and ?r = "fst (transform E (header @ 0x1e # body) dst s)"
  have "device_open (s\<lparr>world := w\<rparr>)" using assms(4) by (simp add: device_open_def)
  from outcomeD[OF open_inv.outcome_match_data_type[OF assms(2) split_values_padded[OF assms(3)]] this]
  have res: "arm_result ts dt k dst ?vals ?r"
    using transform_header[OF assms(1,5)] by simp
  have len: "length ?vals = n" using assms(3) by (simp add: padded_fields_def)
  from arm_shape_cases[OF assms(2)] have "dt \<noteq> 0" "\<exists>keys. SCHEMA dt = Some keys"
    by (auto simp: SCHEMA_simps)
  then obtain keys where keys: "SCHEMA dt = Some keys" by blast
  note sl = schema_lengths[OF assms(2) keys]
  from res show ?thesis
    unfolding arm_result_def
  proof (elim disjE conjE exE)
    assume "dt \<in> {42, 157, 602}" "?r = Inr (dst, 0)"
    then show ?thesis using keys len by fastforce
  next
    fix keys' v
    assume v: "SCHEMA dt = Some keys'" "length v = length ?vals" "take k v = take k ?vals"
      "?r = encode ts keys' v dst (ucast dt)"
    let ?f = "frame ts keys v (ucast dt)"
    have "ucast dt \<noteq> (0 :: u64)" using sl by (metis ucast_u32_u64 unat_0 unat_eq_0)
    then have r: "?r = (if length dst < length ?f then Inl (Err WriteZero)
        else Inr (?f @ drop (length ?f) dst, length ?f))"
      using protobuf_encode_cases[of "ucast dt" ts keys v dst] v keys sl len assms(6,7)
      by (simp add: encode_def Let_def)
    have "decode_frame ?f = Some ((unat dt, unat ts, rev (zip keys v)), [])" if "\<not> length dst < length ?f"
      using decode_frame_frame[of ts keys v "ucast dt" "[]"] that assms(7) by simp
    moreover have "0 < length ?f" by (simp add: length_frame)
    ultimately show ?thesis
      using v(2,3) keys len unfolding r by (intro exI[of _ keys] exI[of _ v]) auto
  qed
qed


lemma transform_open:
  assumes "parse_u32 header = Some dt" "arm_shape dt = Some (n, k)" "length (split_on 0x1e body) \<le> n"
    and "device_open s" "unix_secs E (world s) = (Some ts, w)"
  shows "device_open (snd (transform E (header @ 0x1e # body) dst s))"
proof -
  have "device_open (s\<lparr>world := w\<rparr>)" using assms(4) by (simp add: device_open_def)
  from outcomeD[OF open_inv.outcome_match_data_type[OF assms(2) split_values_padded[OF assms(3)]] this]
  show ?thesis using transform_header[OF assms(1,5)] by simp
qed

text \<open>C1: a record of a known type whose fields fit is never lost to a panic. With the control device open,
  the clock past the epoch and a buffer of at most 4 GiB, \<open>transform\<close> either drops the record on purpose
  (only a \<open>connect\<close>, \<open>prctl\<close> or file creation record that a filter matches), or reports that the
  buffer is too small, or returns a frame that decodes to the data type, the current time and the names
  of the schema paired with values whose leading part are the fields that the kernel sent, in order.\<close>

theorem transform_record:
  assumes "parse_u32 header = Some dt" "arm_shape dt = Some (n, k)"
    and "length (split_on 0x1e body) \<le> n" "device_open s"
    and "unix_secs E (world s) = (Some ts, w)" "ts \<noteq> 0" "length dst \<le> 2 ^ 32"
  shows "\<exists>keys v. SCHEMA dt = Some keys \<and> length v = n \<and> take k v = take k (padded_fields n body) \<and>
    (case fst (transform E (header @ 0x1e # body) dst s) of
       Inl e \<Rightarrow> e = Err WriteZero \<and> length dst < length (frame ts keys v (ucast dt))
     | Inr (dst', m) \<Rightarrow>
         m = 0 \<and> dst' = dst \<and> dt \<in> {42, 157, 602} \<or>
         0 < m \<and> length dst' = length dst \<and> drop m dst' = drop m dst \<and>
         decode_frame (take m dst') = Some ((unat dt, unat ts, rev (zip keys v)), []))"
  by (rule transform_cases[OF assms])

theorem transform_record_witness:
  "\<exists>keys v. SCHEMA 700 = Some keys \<and> length v = 1 \<and> take 1 v = take 1 (padded_fields 1 (ascii ''kmod'')) \<and>
    (case fst (transform sample_env (ascii ''700'' @ 0x1e # ascii ''kmod'') (replicate 100 0)
        \<lparr>transformer = Transformer_new sample_env, kmod_of = kmod_init, world = 5\<rparr>) of
       Inl e \<Rightarrow> e = Err WriteZero \<and> length (replicate 100 (0 :: byte)) < length (frame 1600000000 keys v (ucast (700 :: u32)))
     | Inr (dst', m) \<Rightarrow>
         m = 0 \<and> dst' = replicate 100 0 \<and> (700 :: u32) \<in> {42, 157, 602} \<or>
         0 < m \<and> length dst' = length (replicate 100 (0 :: byte)) \<and> drop m dst' = drop m (replicate 100 0) \<and>
         decode_frame (take m dst') = Some ((unat (700 :: u32), unat (1600000000 :: u64), rev (zip keys v)), []))"
  by (rule transform_record)
     (simp_all add: parse_u32_def parse_uint_def digit_val_def arm_shape_def split_on_none kmod_init_def device_open_def)

text \<open>C23: how \<open>transform\<close> fails. A header that is not UTF-8 or not a \<open>u32\<close> is an error and changes nothing;
  a type without an arm is the error \<open>unknown data type\<close>, also when the schema knows it; a record without a
  separator after its header, or with more fields than the arm has room for, panics.\<close>

theorem transform_failures:
  assumes "unix_secs E (world s) = (Some ts, w)"
  shows "(Option.bind (from_utf8 (take (find_separator data) data)) parse_u32 = None \<longrightarrow>
      transform E data dst s = (Inl (Err ParseError), s)) \<and>
    (parse_u32 header = Some dt \<and> arm_shape dt = None \<longrightarrow>
      transform E (header @ 0x1e # body) dst s = (Inl (Err (UnknownDataType dt)), s\<lparr>world := w\<rparr>)) \<and>
    (parse_u32 header = Some dt \<longrightarrow> transform E header dst s = (Inl Panic, s\<lparr>world := w\<rparr>)) \<and>
    (parse_u32 header = Some dt \<and> arm_shape dt = Some (n, k) \<and> n < length (split_on 0x1e body) \<longrightarrow>
      transform E (header @ 0x1e # body) dst s = (Inl Panic, s\<lparr>world := w\<rparr>))"
proof (intro conjI impI; (elim conjE)?)
  show "transform E data dst s = (Inl (Err ParseError), s)"
    if "Option.bind (from_utf8 (take (find_separator data) data)) parse_u32 = None"
    using that by (auto simp: transform_def Let_def bind_eq_None_conv split: option.splits)
  show "transform E (header @ 0x1e # body) dst s = (Inl (Err (UnknownDataType dt)), s\<lparr>world := w\<rparr>)"
    if "parse_u32 header = Some dt" "arm_shape dt = None"
    using transform_header[OF that(1) assms] match_data_type_unknown[OF that(2), of E ts body dst] by (simp add: lift_res_def)
  show "transform E header dst s = (Inl Panic, s\<lparr>world := w\<rparr>)" if "parse_u32 header = Some dt"
    using parse_u32_header[OF that] that assms by (simp add: transform_def find_separator_none)
  show "transform E (header @ 0x1e # body) dst s = (Inl Panic, s\<lparr>world := w\<rparr>)"
    if "parse_u32 header = Some dt" "arm_shape dt = Some (n, k)" "n < length (split_on 0x1e body)"
    using transform_header[OF that(1) assms] match_data_type_overflow[OF that(2,3), of E ts dst] by (simp add: lift_res_def)
qed

theorem transform_failures_witness:
  "transform sample_env (ascii ''x'') [] \<lparr>transformer = Transformer_new sample_env, kmod_of = kmod_init, world = 5\<rparr> =
     (Inl (Err ParseError), \<lparr>transformer = Transformer_new sample_env, kmod_of = kmod_init, world = 5\<rparr>) \<and>
   transform sample_env (ascii ''60'' @ 0x1e # ascii ''y'') [] \<lparr>transformer = Transformer_new sample_env, kmod_of = kmod_init, world = 5\<rparr> =
     (Inl (Err (UnknownDataType 60)), \<lparr>transformer = Transformer_new sample_env, kmod_of = kmod_init, world = 5\<rparr>) \<and>
   transform sample_env (ascii ''60'') [] \<lparr>transformer = Transformer_new sample_env, kmod_of = kmod_init, world = 5\<rparr> =
     (Inl Panic, \<lparr>transformer = Transformer_new sample_env, kmod_of = kmod_init, world = 5\<rparr>) \<and>
   transform sample_env (ascii ''700'' @ 0x1e # [0x1e]) [] \<lparr>transformer = Transformer_new sample_env, kmod_of = kmod_init, world = 5\<rparr> =
     (Inl Panic, \<lparr>transformer = Transformer_new sample_env, kmod_of = kmod_init, world = 5\<rparr>)"
proof -
  let ?s = "\<lparr>transformer = Transformer_new sample_env, kmod_of = kmod_init, world = 5 :: nat\<rparr>"
  have t: "unix_secs sample_env (world ?s) = (Some 1600000000, 5)" by simp
  note ev = parse_u32_def parse_uint_def digit_val_def arm_shape_def from_utf8_def
  show ?thesis
    using transform_failures[OF t, where data = "ascii ''x''" and dst = "[]"]
      transform_failures[OF t, where header = "ascii ''60''" and dt = 60 and body = "ascii ''y''" and dst = "[]"]
      transform_failures[OF t, where header = "ascii ''700''" and dt = 700 and body = "[0x1e]" and n = 1 and k = 1 and dst = "[]"]
    by (simp add: ev)
qed

end
