(* ===== verification/Plugin_Client.thy ===== *)
theory Plugin_Client
  imports Driver_Wire
begin

section \<open>The connection between a plugin and the agent\<close>

text \<open>
  \<open>Client\<close> of \<^verbatim>\<open>src/plugins/lib/rust/src/lib.rs\<close>. A plugin writes frames (four bytes of length, then that
  many bytes of a message) through a \<open>BufWriter\<close> of the standard library with a capacity of 512 KiB to a
  pipe, and reads frames from another pipe. The pipe of type \<open>'p\<close> is the operating system's: the parameter
  \<open>pipe_write_all\<close> writes bytes to it until all are written or an error occurs, and returns how many
  the pipe took; the error is the case of fewer than all. The encoding of messages is the one of the protobuf
  crate and of the generated code: the parameters \<open>compute_size\<close>, \<open>write_to\<close> (of the type \<open>'m\<close> of records) and \<open>parse_from\<close> (of the type \<open>'t\<close> of
  tasks), which \<open>Plugin_Bridge\<close> gives; the two ends of the pipes meet in \<open>Agent_Plugin\<close>. The read side is the list of the bytes that arrive before the pipe is closed. Each method holds the writer's
  or the reader's lock for its whole duration.
\<close>

subsection \<open>Writing\<close>

definition BUF_CAPACITY :: nat where "BUF_CAPACITY = 512 * 1024"

record 'p Client =
  writer_buf :: bytes
  writer_pipe :: 'p
  reader_input :: bytes

definition flush_buf :: "(bytes \<Rightarrow> 'p \<Rightarrow> nat \<times> 'p) \<Rightarrow> ('p Client, unit) prog" where
  "flush_buf pipe_write_all = (\<lambda>c.
     if writer_buf c = [] then (Inr (), c)
     else case pipe_write_all (writer_buf c) (writer_pipe c) of (n, p) \<Rightarrow>
       (if n = length (writer_buf c) then Inr () else Inl (Err IoError),
        c\<lparr>writer_buf := drop n (writer_buf c), writer_pipe := p\<rparr>))"

text \<open>\<open>BufWriter::write_all\<close> of the standard library.\<close>

definition buf_write_all :: "(bytes \<Rightarrow> 'p \<Rightarrow> nat \<times> 'p) \<Rightarrow> bytes \<Rightarrow> ('p Client, unit) prog" where
  "buf_write_all pipe_write_all buf = (\<lambda>c.
     if length buf < BUF_CAPACITY - length (writer_buf c)
     then (Inr (), c\<lparr>writer_buf := writer_buf c @ buf\<rparr>)
     else bind_st
       (if BUF_CAPACITY - length (writer_buf c) < length buf then flush_buf pipe_write_all else return_st ())
       (\<lambda>_ c. if BUF_CAPACITY \<le> length buf
              then case pipe_write_all buf (writer_pipe c) of (n, p) \<Rightarrow>
                (if n = length buf then Inr () else Inl (Err IoError), c\<lparr>writer_pipe := p\<rparr>)
              else (Inr (), c\<lparr>writer_buf := writer_buf c @ buf\<rparr>)) c)"

definition raw_write_all :: "(bytes \<Rightarrow> 'p \<Rightarrow> nat \<times> 'p) \<Rightarrow> bytes \<Rightarrow> ('p Client, unit) prog" where
  "raw_write_all pipe_write_all buf = buf_write_all pipe_write_all buf"

definition raw_flush :: "(bytes \<Rightarrow> 'p \<Rightarrow> nat \<times> 'p) \<Rightarrow> ('p Client, unit) prog" where
  "raw_flush pipe_write_all = flush_buf pipe_write_all"

definition send_record ::
  "(bytes \<Rightarrow> 'p \<Rightarrow> nat \<times> 'p) \<Rightarrow> ('m \<Rightarrow> u32) \<Rightarrow> ('m \<Rightarrow> bytes) \<Rightarrow> 'm \<Rightarrow> ('p Client, unit) prog" where
  "send_record pipe_write_all compute_size write_to rec =
     bind_st (buf_write_all pipe_write_all (u32_to_le_bytes (compute_size rec))) (\<lambda>_.
     buf_write_all pipe_write_all (write_to rec))"

fun send_records ::
  "(bytes \<Rightarrow> 'p \<Rightarrow> nat \<times> 'p) \<Rightarrow> ('m \<Rightarrow> u32) \<Rightarrow> ('m \<Rightarrow> bytes) \<Rightarrow> 'm list \<Rightarrow> ('p Client, unit) prog" where
  "send_records pipe_write_all compute_size write_to [] = return_st ()"
| "send_records pipe_write_all compute_size write_to (rec # recs) =
     bind_st (buf_write_all pipe_write_all (u32_to_le_bytes (compute_size rec))) (\<lambda>_.
     bind_st (buf_write_all pipe_write_all (write_to rec)) (\<lambda>_.
     send_records pipe_write_all compute_size write_to recs))"

subsection \<open>Reading\<close>

definition read_exact :: "nat \<Rightarrow> ('p Client, bytes) prog" where
  "read_exact n = (\<lambda>c.
     if n \<le> length (reader_input c)
     then (Inr (take n (reader_input c)), c\<lparr>reader_input := drop n (reader_input c)\<rparr>)
     else (Inl (Err IoError), c\<lparr>reader_input := []\<rparr>))"

definition receive :: "(bytes \<Rightarrow> 't option) \<Rightarrow> ('p Client, 't) prog" where
  "receive parse_from =
     bind_st (read_exact 4) (\<lambda>bytes.
     bind_st (read_exact (u32_from_le_bytes bytes)) (\<lambda>buf.
     case parse_from buf of None \<Rightarrow> lift_res (Inl (Err ParseError)) | Some task \<Rightarrow> return_st task))"

fun receive_n :: "nat \<Rightarrow> (bytes \<Rightarrow> 't option) \<Rightarrow> ('p Client, 't list) prog" where
  "receive_n 0 parse_from = return_st []"
| "receive_n (Suc n) parse_from =
     bind_st (receive parse_from) (\<lambda>t. bind_st (receive_n n parse_from) (\<lambda>ts. return_st (t # ts)))"

subsection \<open>Framing as an interface\<close>

text \<open>An encoder and a decoder such that the decoder takes exactly one message off the front.\<close>

locale framing =
  fixes enc :: "'a \<Rightarrow> bytes"
    and dec :: "bytes \<Rightarrow> ('b \<times> bytes) option"
    and meaning :: "'a \<Rightarrow> 'b"
    and valid :: "'a \<Rightarrow> bool"
  assumes dec_enc: "valid x \<Longrightarrow> dec (enc x @ rest) = Some (meaning x, rest)"
begin

fun dec_n :: "nat \<Rightarrow> bytes \<Rightarrow> ('b list \<times> bytes) option" where
  "dec_n 0 bs = Some ([], bs)"
| "dec_n (Suc n) bs = (case dec bs of None \<Rightarrow> None
     | Some (x, bs) \<Rightarrow> (case dec_n n bs of None \<Rightarrow> None | Some (xs, bs) \<Rightarrow> Some (x # xs, bs)))"

lemma dec_n_stream:
  "list_all valid xs \<Longrightarrow> dec_n (length xs) (concat (map enc xs) @ rest) = Some (map meaning xs, rest)"
  by (induction xs) (simp_all add: dec_enc)

lemma enc_unique:
  "valid x \<Longrightarrow> valid y \<Longrightarrow> enc x @ r = enc y @ r' \<Longrightarrow> meaning x = meaning y \<and> r = r'"
  by (metis dec_enc option.inject prod.inject)

end

definition length_frame_of :: "bytes \<Rightarrow> bytes" where
  "length_frame_of b = u32_to_le_bytes (of_nat (length b)) @ b"

definition unframe :: "bytes \<Rightarrow> (bytes \<times> bytes) option" where
  "unframe bs = (let n = u32_from_le_bytes (take 4 bs) in
     if 4 + n \<le> length bs then Some (take n (drop 4 bs), drop (4 + n) bs) else None)"

interpretation raw_frames: framing length_frame_of unframe id "\<lambda>b. length b < 2 ^ 32"
  by unfold_locales
     (simp add: unframe_def length_frame_of_def u32_le_roundtrip unat_of_nat Let_def)

interpretation record_frames: framing
  "\<lambda>(ts, keys, vals, dt). frame ts keys vals dt" decode_frame
  "\<lambda>(ts, keys, vals, dt). (unat dt, unat ts, rev (zip keys vals))"
  "\<lambda>(ts, keys, vals, dt). length (frame ts keys vals dt) \<le> 2 ^ 32"
  by unfold_locales (auto simp: decode_frame_frame)

lemma frame_is_length_frame:
  "frame ts keys vals dt = length_frame_of (record_bytes ts keys vals dt)"
  by (simp add: frame_def length_frame_of_def Let_def)


subsection \<open>The byte stream\<close>

text \<open>What the system documents for a pipe: it takes the bytes in order, a prefix of them in case of an
  error. \<open>contents\<close> is what the pipe has taken so far.\<close>

definition pipe_lawful :: "(bytes \<Rightarrow> 'p \<Rightarrow> nat \<times> 'p) \<Rightarrow> ('p \<Rightarrow> bytes) \<Rightarrow> bool" where
  "pipe_lawful W contents \<longleftrightarrow>
     (\<forall>b p. fst (W b p) \<le> length b \<and> contents (snd (W b p)) = contents p @ take (fst (W b p)) b)"

definition client_stream :: "('p \<Rightarrow> bytes) \<Rightarrow> 'p Client \<Rightarrow> bytes" where
  "client_stream contents c = contents (writer_pipe c) @ writer_buf c"

lemma flush_stream:
  assumes "pipe_lawful W contents"
  shows "client_stream contents (snd (flush_buf W c)) = client_stream contents c"
    and "fst (flush_buf W c) = Inr () \<Longrightarrow> writer_buf (snd (flush_buf W c)) = []"
  using assms by (auto simp: flush_buf_def client_stream_def pipe_lawful_def split_beta split: if_splits)

text \<open>A write appends to the stream: all of its bytes, or a prefix in case of an error.\<close>

lemma buf_write_stream:
  assumes law: "pipe_lawful W contents" and bounded: "length (writer_buf c) \<le> BUF_CAPACITY"
  shows "\<exists>b'. prefix b' b \<and> client_stream contents (snd (buf_write_all W b c)) = client_stream contents c @ b' \<and>
    (fst (buf_write_all W b c) = Inr () \<longrightarrow> b' = b) \<and> length (writer_buf (snd (buf_write_all W b c))) \<le> BUF_CAPACITY"
proof (cases "length b < BUF_CAPACITY - length (writer_buf c)")
  case True
  then show ?thesis
    by (intro exI[of _ b]) (simp add: buf_write_all_def client_stream_def)
next
  case False
  define m where "m = (if BUF_CAPACITY - length (writer_buf c) < length b then flush_buf W else return_st ())"
  obtain r c1 where m: "m c = (r, c1)" by fastforce
  have s1: "client_stream contents c1 = client_stream contents c"
    using flush_stream(1)[OF law, of c] m by (auto simp: m_def return_st_def split: if_splits)
  have b1: "length (writer_buf c1) \<le> BUF_CAPACITY"
    using m bounded by (auto simp: m_def return_st_def flush_buf_def split_beta split: if_splits)
  have w: "buf_write_all W b c = (case r of Inl e \<Rightarrow> (Inl e, c1) | Inr _ \<Rightarrow>
      if BUF_CAPACITY \<le> length b
      then (if fst (W b (writer_pipe c1)) = length b then Inr () else Inl (Err IoError),
            c1\<lparr>writer_pipe := snd (W b (writer_pipe c1))\<rparr>)
      else (Inr (), c1\<lparr>writer_buf := writer_buf c1 @ b\<rparr>))"
    using False m by (simp add: buf_write_all_def m_def[symmetric] bind_st_def split_beta split: sum.splits)
  show ?thesis
  proof (cases r)
    case (Inl e)
    then show ?thesis using w s1 b1 by (intro exI[of _ "[]"]) simp
  next
    case (Inr u)
    have len: "writer_buf c1 = [] \<or> length (writer_buf c1) + length b \<le> BUF_CAPACITY"
      using m Inr flush_stream(2)[OF law, of c] bounded False
      by (auto simp: m_def return_st_def split: if_splits)
    show ?thesis
    proof (cases "BUF_CAPACITY \<le> length b")
      case True
      then have "writer_buf c1 = []"
        using len by (cases "writer_buf c1") (auto simp: BUF_CAPACITY_def)
      then show ?thesis
        using law True w Inr s1 unfolding pipe_lawful_def
        by (intro exI[of _ "take (fst (W b (writer_pipe c1))) b"])
           (auto simp: client_stream_def take_is_prefix)
    next
      case small: False
      then show ?thesis
        using w Inr s1 len by (intro exI[of _ b]) (auto simp: client_stream_def)
    qed
  qed
qed


lemma bind_write_stream:
  assumes law: "pipe_lawful W contents" and bounded: "length (writer_buf c) \<le> BUF_CAPACITY"
    and rest: "\<And>c'. length (writer_buf c') \<le> BUF_CAPACITY \<Longrightarrow>
      \<exists>b'. prefix b' t \<and> client_stream contents (snd (f c')) = client_stream contents c' @ b' \<and>
        (fst (f c') = Inr () \<longrightarrow> b' = t) \<and> length (writer_buf (snd (f c'))) \<le> BUF_CAPACITY"
  shows "\<exists>b'. prefix b' (b @ t) \<and>
    client_stream contents (snd (bind_st (buf_write_all W b) (\<lambda>_. f) c)) = client_stream contents c @ b' \<and>
    (fst (bind_st (buf_write_all W b) (\<lambda>_. f) c) = Inr () \<longrightarrow> b' = b @ t) \<and>
    length (writer_buf (snd (bind_st (buf_write_all W b) (\<lambda>_. f) c))) \<le> BUF_CAPACITY"
proof -
  obtain r c1 where w: "buf_write_all W b c = (r, c1)" by fastforce
  obtain b1 where b1: "prefix b1 b" "client_stream contents c1 = client_stream contents c @ b1"
    "r = Inr () \<longrightarrow> b1 = b" "length (writer_buf c1) \<le> BUF_CAPACITY"
    using buf_write_stream[OF law bounded, of b] w by auto
  show ?thesis
  proof (cases r)
    case (Inl e)
    then show ?thesis using w b1 by (intro exI[of _ b1]) (simp add: bind_st_def)
  next
    case (Inr u)
    obtain b2 where "prefix b2 t" "client_stream contents (snd (f c1)) = client_stream contents c1 @ b2"
      "fst (f c1) = Inr () \<longrightarrow> b2 = t" "length (writer_buf (snd (f c1))) \<le> BUF_CAPACITY"
      using rest[OF b1(4)] by blast
    then show ?thesis
      using w b1 Inr by (intro exI[of _ "b @ b2"]) (simp add: bind_st_def)
  qed
qed

definition wire_of :: "('m \<Rightarrow> u32) \<Rightarrow> ('m \<Rightarrow> bytes) \<Rightarrow> 'm list \<Rightarrow> bytes" where
  "wire_of compute_size write_to recs = concat (map (\<lambda>r. u32_to_le_bytes (compute_size r) @ write_to r) recs)"

lemma send_records_stream:
  assumes law: "pipe_lawful W contents" and bounded: "length (writer_buf c) \<le> BUF_CAPACITY"
  shows "\<exists>b'. prefix b' (wire_of compute_size write_to recs) \<and>
    client_stream contents (snd (send_records W compute_size write_to recs c)) = client_stream contents c @ b' \<and>
    (fst (send_records W compute_size write_to recs c) = Inr () \<longrightarrow> b' = wire_of compute_size write_to recs) \<and>
    length (writer_buf (snd (send_records W compute_size write_to recs c))) \<le> BUF_CAPACITY"
  using bounded
proof (induction recs arbitrary: c)
  case Nil
  then show ?case by (simp add: return_st_def wire_of_def)
next
  case (Cons r recs)
  show ?case
    unfolding send_records.simps wire_of_def list.map concat.simps append_assoc
    by (intro bind_write_stream[OF law] Cons.prems) (use Cons.IH in \<open>simp_all add: wire_of_def\<close>)
qed

lemma receive_frame:
  assumes "unat n = length b" "parse_from b = Some t" "reader_input c = u32_to_le_bytes n @ b @ rest"
  shows "receive parse_from c = (Inr t, c\<lparr>reader_input := rest\<rparr>)"
  using assms by (simp add: receive_def read_exact_def bind_st_def return_st_def u32_le_roundtrip)

lemma receive_n_wire:
  assumes "\<And>r. r \<in> set recs \<Longrightarrow> unat (compute_size r) = length (write_to r) \<and> parse_from (write_to r) = Some r"
    and "reader_input c = wire_of compute_size write_to recs @ rest"
  shows "receive_n (length recs) parse_from c = (Inr recs, c\<lparr>reader_input := rest\<rparr>)"
  using assms
proof (induction recs arbitrary: c)
  case (Cons r recs)
  let ?c1 = "c\<lparr>reader_input := wire_of compute_size write_to recs @ rest\<rparr>"
  have "receive parse_from c = (Inr r, ?c1)"
    by (rule receive_frame) (use Cons.prems in \<open>auto simp: wire_of_def\<close>)
  moreover have "receive_n (length recs) parse_from ?c1 = (Inr recs, ?c1\<lparr>reader_input := rest\<rparr>)"
    by (rule Cons.IH) (use Cons.prems in auto)
  ultimately show ?case by (simp add: bind_st_def return_st_def)
qed (simp add: return_st_def wire_of_def)

subsection \<open>Properties of the client\<close>

text \<open>\<open>send_records\<close> never loses, repeats or reorders bytes. What the pipe and the writer's buffer hold grows
  by the frames of the records in order, or in case of an error by a prefix of them, and the buffer
  stays within its capacity.\<close>

theorem send_records_in_order:
  assumes "pipe_lawful W contents" "length (writer_buf c) \<le> BUF_CAPACITY"
  shows "\<exists>b. prefix b (wire_of compute_size write_to recs) \<and>
    client_stream contents (snd (send_records W compute_size write_to recs c)) = client_stream contents c @ b \<and>
    (fst (send_records W compute_size write_to recs c) = Inr () \<longrightarrow> b = wire_of compute_size write_to recs) \<and>
    length (writer_buf (snd (send_records W compute_size write_to recs c))) \<le> BUF_CAPACITY"
  by (rule send_records_stream[OF assms])

definition sample_pipe :: "bytes \<Rightarrow> bytes \<Rightarrow> nat \<times> bytes" where
  "sample_pipe b p = (length b, p @ b)"

lemma sample_pipe_lawful: "pipe_lawful sample_pipe id"
  by (simp add: pipe_lawful_def sample_pipe_def)

lemmas client_eval = buf_write_all_def flush_buf_def raw_flush_def BUF_CAPACITY_def bind_st_def return_st_def
  u32_to_le_bytes_def upt_conv_Cons sample_pipe_def drop_bit_eq_div

lemma sample_send:
  "send_records sample_pipe (\<lambda>m. of_nat (length m)) id [[7, 8], [9]]
     \<lparr>writer_buf = [], writer_pipe = [], reader_input = []\<rparr> =
   (Inr (), \<lparr>writer_buf = [2, 0, 0, 0, 7, 8, 1, 0, 0, 0, 9], writer_pipe = [], reader_input = []\<rparr>)"
  by (simp add: client_eval)

theorem send_records_in_order_witness:
  "client_stream id (snd (send_records sample_pipe (\<lambda>m. of_nat (length m)) id [[7, 8], [9]]
      \<lparr>writer_buf = [], writer_pipe = [], reader_input = []\<rparr>)) =
    wire_of (\<lambda>m. of_nat (length m)) id [[7, 8], [9]]"
  using send_records_in_order[OF sample_pipe_lawful, of "\<lparr>writer_buf = [], writer_pipe = [], reader_input = []\<rparr>"
      "\<lambda>m. of_nat (length m)" id "[[7, 8], [9]]"]
  unfolding sample_send by (simp add: client_stream_def)

end
