(* ===== verification/Driver_Main.thy ===== *)
theory Driver_Main
  imports Driver_Outcome Plugin_Client
begin

section \<open>The main loop of the driver plugin\<close>

text \<open>
  The thread \<open>record_send\<close> of \<^verbatim>\<open>src/plugins/driver/src/main.rs\<close>: it reads the records of the kernel module,
  separated by the byte 0x17, transforms each into a buffer of 1 MiB and writes the frame to the agent.
  The flag \<open>control_l\<close>, which another thread sets when the agent is gone, is read from the world by the
  parameter \<open>control_load\<close>. A read error of the device is the record \<open>None\<close>.
\<close>

datatype loop_exit = Finished | Stopped | ReadFailed | SendFailed | Panicked

record ('l, 'r, 'c, 'f, 'w, 'p) sender =
  driver_of :: "('l, 'r, 'c, 'f, 'w) driver"
  client_of :: "'p Client"
  buf_of :: bytes

text \<open>\<open>BufRead::split(0x17)\<close> on the bytes of the device: a last piece that is empty is not delivered.\<close>

definition ringbuf :: "bytes \<Rightarrow> bytes list" where
  "ringbuf stream = (let ps = split_on 0x17 stream in if last ps = [] then butlast ps else ps)"

definition check_control ::
  "('w \<Rightarrow> bool \<times> 'w) \<Rightarrow> ('l, 'r, 'c, 'f, 'w, 'p) sender \<Rightarrow> bool \<times> ('l, 'r, 'c, 'f, 'w, 'p) sender" where
  "check_control control_load st =
     (case control_load (world (driver_of st)) of (stop, w) \<Rightarrow>
        (stop, st\<lparr>driver_of := (driver_of st)\<lparr>world := w\<rparr>\<rparr>))"

fun record_send ::
  "('l, 'r, 'c, 'f, 'w) env \<Rightarrow> ('w \<Rightarrow> bool \<times> 'w) \<Rightarrow> (bytes \<Rightarrow> 'p \<Rightarrow> nat \<times> 'p) \<Rightarrow> bytes option list \<Rightarrow>
   ('l, 'r, 'c, 'f, 'w, 'p) sender \<Rightarrow> loop_exit \<times> ('l, 'r, 'c, 'f, 'w, 'p) sender" where
  "record_send E control_load W [] st = (Finished, st)"
| "record_send E control_load W (rec # recs) st =
     (case check_control control_load st of (stop, st) \<Rightarrow>
      if stop then (Stopped, st)
      else case rec of
        None \<Rightarrow> (ReadFailed, st)
      | Some rec \<Rightarrow>
          (case transform E rec (buf_of st) (driver_of st) of
             (Inr (buf, written), d) \<Rightarrow>
               let st = st\<lparr>driver_of := d, buf_of := buf\<rparr> in
               (case raw_write_all W (take written (buf_of st)) (client_of st) of
                  (Inl _, c) \<Rightarrow> (SendFailed, st\<lparr>client_of := c\<rparr>)
                | (Inr _, c) \<Rightarrow>
                    (case check_control control_load (st\<lparr>client_of := c\<rparr>) of (stop, st) \<Rightarrow>
                       if stop then (Stopped, st) else record_send E control_load W recs st))
           | (Inl (Err _), d) \<Rightarrow> record_send E control_load W recs (st\<lparr>driver_of := d\<rparr>)
           | (Inl Panic, d) \<Rightarrow> (Panicked, st\<lparr>driver_of := d\<rparr>)))"

definition sender_new :: "('l, 'r, 'c, 'f, 'w) env \<Rightarrow> kmod \<Rightarrow> 'p Client \<Rightarrow> 'w \<Rightarrow> ('l, 'r, 'c, 'f, 'w, 'p) sender" where
  "sender_new E k c w = \<lparr>
     driver_of = \<lparr>transformer = Transformer_new E, kmod_of = k, world = w\<rparr>,
     client_of = c,
     buf_of = replicate (1024 * 1024) 0\<rparr>"

subsection \<open>Properties of the loop\<close>

text \<open>A record that the kernel module may send: a header with a known type, a separator, and no more
  fields than the type has.\<close>

definition well_formed_record :: "bytes \<Rightarrow> bool" where
  "well_formed_record rec \<longleftrightarrow> (\<exists>header dt n k body. rec = header @ 0x1e # body \<and> parse_u32 header = Some dt \<and>
     arm_shape dt = Some (n, k) \<and> length (split_on 0x1e body) \<le> n)"

definition clock_ok :: "('l, 'r, 'c, 'f, 'w) env \<Rightarrow> bool" where
  "clock_ok E \<longleftrightarrow> (\<forall>w. \<exists>ts w'. unix_secs E w = (Some ts, w') \<and> ts \<noteq> 0)"

definition is_frame :: "bytes \<Rightarrow> bool" where
  "is_frame m \<longleftrightarrow> (\<exists>r. decode_frame m = Some (r, []))"

definition sender_ok :: "('l, 'r, 'c, 'f, 'w, 'p) sender \<Rightarrow> bool" where
  "sender_ok st \<longleftrightarrow> device_open (driver_of st) \<and> length (buf_of st) \<le> 2 ^ 32 \<and>
     length (writer_buf (client_of st)) \<le> BUF_CAPACITY"

lemma check_control_keeps:
  assumes "check_control control_load st = (stop, st')" "sender_ok st"
  shows "sender_ok st'" "client_of st' = client_of st"
  using assms by (auto simp: check_control_def sender_ok_def device_open_def split: prod.splits)


lemma transform_step:
  assumes "well_formed_record rec" "clock_ok E" "device_open d" "length dst \<le> 2 ^ 32"
  obtains d' where "transform E rec dst d = (Inl (Err WriteZero), d')" "device_open d'"
  | dst' m d' where "transform E rec dst d = (Inr (dst', m), d')" "device_open d'" "length dst' = length dst"
      "m = 0 \<or> is_frame (take m dst')"
proof -
  obtain header dt n k body where rec: "rec = header @ 0x1e # body" "parse_u32 header = Some dt"
    "arm_shape dt = Some (n, k)" "length (split_on 0x1e body) \<le> n"
    using assms(1) by (auto simp: well_formed_record_def)
  obtain ts w where clock: "unix_secs E (world d) = (Some ts, w)" "ts \<noteq> 0"
    using assms(2) unfolding clock_ok_def by blast
  obtain r d' where r: "transform E rec dst d = (r, d')" by fastforce
  have opn: "device_open d'"
    using transform_open[OF rec(2-4) assms(3) clock(1), of dst] r rec(1) by simp
  from transform_cases[OF rec(2-4) assms(3) clock assms(4)] r rec(1)
  have "(case r of Inl e \<Rightarrow> e = Err WriteZero
     | Inr (dst', m) \<Rightarrow> length dst' = length dst \<and> (m = 0 \<or> is_frame (take m dst')))"
    by (auto simp: is_frame_def split: sum.splits)
  then show ?thesis using that r opn by (auto split: sum.splits)
qed

lemma is_frame_Cons_concat: "m = 0 \<or> is_frame (take m b) \<Longrightarrow> list_all is_frame ms \<Longrightarrow>
  \<exists>ms'. list_all is_frame ms' \<and> concat ms' = take m b @ concat ms \<and> length ms' \<le> Suc (length ms)"
  by (cases "m = 0") (auto intro: exI[of _ ms] exI[of _ "take m b # ms"])

lemma record_send_frames:
  assumes "pipe_lawful W contents" "clock_ok E" "list_all well_formed_record recs" "sender_ok st"
    and "record_send E control_load W (map Some recs) st = (ex, st')"
  shows "ex \<in> {Finished, Stopped, SendFailed} \<and>
    (ex \<noteq> SendFailed \<longrightarrow> (\<exists>ms. list_all is_frame ms \<and> length ms \<le> length recs \<and>
      client_stream contents (client_of st') = client_stream contents (client_of st) @ concat ms))"
  using assms(3-5)
proof (induction recs arbitrary: st)
  case Nil
  then show ?case by (auto intro: exI[of _ "[]"])
next
  case (Cons rec recs)
  obtain stop st1 where cc: "check_control control_load st = (stop, st1)" by fastforce
  note k1 = check_control_keeps[OF cc Cons.prems(2)]
  show ?case
  proof (cases stop)
    case True
    then show ?thesis using Cons.prems(3) cc k1 by (auto intro: exI[of _ "[]"])
  next
    case False
    have wf: "well_formed_record rec" "device_open (driver_of st1)" "length (buf_of st1) \<le> 2 ^ 32"
      "length (writer_buf (client_of st1)) \<le> BUF_CAPACITY"
      using Cons.prems(1) k1(1) by (auto simp: sender_ok_def)
    from wf(1) assms(2) wf(2,3) show ?thesis
    proof (cases rule: transform_step)
      case (1 d)
      let ?st = "st1\<lparr>driver_of := d\<rparr>"
      have "sender_ok ?st" using 1 wf by (simp add: sender_ok_def)
      moreover have "record_send E control_load W (map Some recs) ?st = (ex, st')"
        using Cons.prems(3) cc False 1 by simp
      ultimately show ?thesis using Cons.IH[of ?st] Cons.prems(1) k1(2) by fastforce
    next
      case (2 dst m d)
      let ?st = "st1\<lparr>driver_of := d, buf_of := dst\<rparr>"
      obtain r c where w: "raw_write_all W (take m dst) (client_of st1) = (r, c)" by fastforce
      from buf_write_stream[OF assms(1) wf(4), of "take m dst"] w
      have c: "r = Inr () \<longrightarrow> client_stream contents c = client_stream contents (client_of st1) @ take m dst"
        "length (writer_buf c) \<le> BUF_CAPACITY" by (auto simp: raw_write_all_def)
      show ?thesis
      proof (cases r)
        case (Inl e)
        then show ?thesis using Cons.prems(3) cc False 2 w by auto
      next
        case (Inr u)
        obtain stop2 st2 where cc2: "check_control control_load (?st\<lparr>client_of := c\<rparr>) = (stop2, st2)"
          by fastforce
        have "sender_ok (?st\<lparr>client_of := c\<rparr>)" using 2 wf c(2) by (simp add: sender_ok_def)
        note k2 = check_control_keeps[OF cc2 this]
        have app: "client_stream contents (client_of st2) = client_stream contents (client_of st) @ take m dst"
          using c(1) Inr k1(2) k2(2) by simp
        show ?thesis
        proof (cases stop2)
          case True
          then have "(ex, st') = (Stopped, st2)" using Cons.prems(3) cc False 2 w Inr cc2 by simp
          then show ?thesis
            using app is_frame_Cons_concat[OF 2(4), of "[]"] by auto
        next
          case go: False
          have "record_send E control_load W (map Some recs) st2 = (ex, st')"
            using Cons.prems(3) cc False 2 w Inr cc2 go by simp
          from Cons.IH[OF _ k2(1) this] Cons.prems(1) app is_frame_Cons_concat[OF 2(4)]
          show ?thesis by fastforce
        qed
      qed
    qed
  qed
qed


text \<open>C2: from well formed records the main loop never panics, and the agent is only ever sent whole frames:
  unless the pipe fails, the bytes written are the concatenation of at most as many frames as there
  were records, each of which decodes to one record.\<close>

theorem record_send_only_frames:
  assumes "pipe_lawful W contents" "clock_ok E" "list_all well_formed_record recs" "sender_ok st"
  shows "\<exists>ex st'. record_send E control_load W (map Some recs) st = (ex, st') \<and>
    ex \<in> {Finished, Stopped, SendFailed} \<and>
    (ex = SendFailed \<or> (\<exists>ms. list_all is_frame ms \<and> length ms \<le> length recs \<and>
      client_stream contents (client_of st') = client_stream contents (client_of st) @ concat ms))"
proof -
  obtain ex st' where r: "record_send E control_load W (map Some recs) st = (ex, st')" by fastforce
  from record_send_frames[OF assms r] r show ?thesis by blast
qed

theorem record_send_only_frames_witness:
  "\<exists>ex st'. record_send sample_env (\<lambda>w. (False, w)) sample_pipe (map Some [ascii ''700'' @ 0x1e # ascii ''kmod''])
      (sender_new sample_env kmod_init \<lparr>writer_buf = [], writer_pipe = [], reader_input = []\<rparr> 5) = (ex, st') \<and>
    ex \<in> {Finished, Stopped, SendFailed} \<and>
    (ex = SendFailed \<or> (\<exists>ms. list_all is_frame ms \<and> length ms \<le> length [ascii ''700'' @ 0x1e # ascii ''kmod''] \<and>
      client_stream id (client_of st') = client_stream id (client_of
        (sender_new sample_env kmod_init \<lparr>writer_buf = [], writer_pipe = [], reader_input = []\<rparr> 5)) @ concat ms))"
proof (rule record_send_only_frames[OF sample_pipe_lawful])
  have "well_formed_record (ascii ''700'' @ 0x1e # ascii ''kmod'')"
    unfolding well_formed_record_def
    by (intro exI[of _ "ascii ''700''"] exI[of _ 700] exI[of _ 1] exI[of _ "ascii ''kmod''"])
       (simp add: parse_u32_def parse_uint_def digit_val_def arm_shape_def)
  then show "list_all well_formed_record [ascii ''700'' @ 0x1e # ascii ''kmod'']" by simp
qed (simp_all add: clock_ok_def sender_ok_def sender_new_def kmod_init_def device_open_def)

lemma join_with_snoc_Nil: "join_with sep (xs @ [[]]) = (if xs = [] then [] else join_with sep xs @ [sep])"
proof (induction xs)
  case (Cons x xs)
  then show ?case by (cases xs) auto
qed simp

text \<open>Reading the device loses nothing: no delivered record contains the separator, and joining the records
  with it gives the stream back, up to a separator at its end.\<close>

theorem ringbuf_complete:
  "list_all (\<lambda>rec. 0x17 \<notin> set rec) (ringbuf stream) \<and>
   stream = join_with 0x17 (ringbuf stream) @ (if stream \<noteq> [] \<and> last (split_on 0x17 stream) = [] then [0x17] else [])"
proof -
  let ?ps = "split_on 0x17 stream"
  have j: "join_with 0x17 ?ps = stream" by simp
  have split: "?ps = butlast ?ps @ [last ?ps]" by simp
  have fields: "0x17 \<notin> set f" if "f \<in> set (ringbuf stream)" for f
    using that split_on_fields[of f "0x17" stream] in_set_butlastD[of f ?ps]
    by (auto simp: ringbuf_def Let_def split: if_splits)
  have "stream = join_with 0x17 (ringbuf stream) @ (if stream \<noteq> [] \<and> last ?ps = [] then [0x17] else [])"
  proof (cases "last ?ps = []")
    case True
    then have "stream = (if butlast ?ps = [] then [] else join_with 0x17 (butlast ?ps) @ [0x17])"
      using j split join_with_snoc_Nil[of "0x17" "butlast ?ps"] by metis
    then show ?thesis
      using True by (cases "butlast ?ps = []") (auto simp: ringbuf_def Let_def)
  qed (simp add: ringbuf_def Let_def)
  then show ?thesis using fields by (simp add: list_all_iff)
qed

end
