(* ===== verification/Plugin_Bridge.thy ===== *)
theory Plugin_Bridge
  imports Plugin_Client Rust_Std
begin

unbundle bit_operations_syntax

section \<open>The messages of the pipe\<close>

text \<open>
  \<open>Record\<close>, \<open>Payload\<close> and \<open>Task\<close> of \<^verbatim>\<open>src/plugins/lib/rust/src/bridge.rs\<close>: their sizes, their encoding and the parser of
  tasks. The functions of the protobuf crate that they call are the fields of \<open>protobuf_rt\<close>; \<open>rt_writes\<close> and
  \<open>rt_reads\<close> state what the encoding guide of protocol buffers says about them. The fields of a payload are a hash map: a list of the
  pairs in the order in which the map is traversed. Unknown fields come only from parsing a message and are
  empty in a record that a plugin makes. A cached size is the one that \<open>compute_size\<close> found last, and both methods that send a record
  call it first.
\<close>

type_synonym i32 = "32 word"
type_synonym i64 = "64 word"

record BridgePayload =
  pld_fields :: "(bytes \<times> bytes) list"

record BridgeRecord =
  br_data_type :: i32
  br_timestamp :: i64
  br_data :: "BridgePayload option"

record BridgeTask =
  task_data_type :: i32
  task_object_name :: bytes
  task_data :: bytes
  task_token :: bytes

text \<open>A function that writes gives the bytes it writes; a function that reads gives the value and the bytes that are left.
  The numbers are the field and the wire type.\<close>

record protobuf_rt =
  value_size_int32 :: "nat \<Rightarrow> i32 \<Rightarrow> u32"
  value_size_int64 :: "nat \<Rightarrow> i64 \<Rightarrow> u32"
  compute_raw_varint32_size :: "u32 \<Rightarrow> u32"
  compute_map_size :: "nat \<Rightarrow> (bytes \<times> bytes) list \<Rightarrow> u32"
  write_int32 :: "nat \<Rightarrow> i32 \<Rightarrow> bytes"
  write_int64 :: "nat \<Rightarrow> i64 \<Rightarrow> bytes"
  write_tag :: "nat \<Rightarrow> nat \<Rightarrow> bytes"
  write_raw_varint32 :: "u32 \<Rightarrow> bytes"
  write_map :: "nat \<Rightarrow> (bytes \<times> bytes) list \<Rightarrow> bytes"
  read_tag_unpack :: "bytes \<Rightarrow> ((nat \<times> nat) \<times> bytes) option"
  read_int32 :: "bytes \<Rightarrow> (i32 \<times> bytes) option"
  read_proto3_string :: "nat \<Rightarrow> bytes \<Rightarrow> (bytes \<times> bytes) option"
  read_unknown :: "nat \<Rightarrow> nat \<Rightarrow> bytes \<Rightarrow> bytes option"

definition WireTypeVarint :: nat where "WireTypeVarint = 0"
definition WireTypeLengthDelimited :: nat where "WireTypeLengthDelimited = 2"

subsection \<open>Records\<close>

definition Payload_compute_size :: "protobuf_rt \<Rightarrow> BridgePayload \<Rightarrow> u32" where
  "Payload_compute_size R v = compute_map_size R 1 (pld_fields v)"

definition Payload_write_to :: "protobuf_rt \<Rightarrow> BridgePayload \<Rightarrow> bytes" where
  "Payload_write_to R v = write_map R 1 (pld_fields v)"

definition Record_compute_size :: "protobuf_rt \<Rightarrow> BridgeRecord \<Rightarrow> u32" where
  "Record_compute_size R r =
     (let my_size = 0;
          my_size = (if br_data_type r \<noteq> 0 then my_size + value_size_int32 R 1 (br_data_type r) else my_size);
          my_size = (if br_timestamp r \<noteq> 0 then my_size + value_size_int64 R 2 (br_timestamp r) else my_size)
      in case br_data r of None \<Rightarrow> my_size
         | Some v \<Rightarrow> (let len = Payload_compute_size R v in my_size + (1 + compute_raw_varint32_size R len + len)))"

definition Record_write_to :: "protobuf_rt \<Rightarrow> BridgeRecord \<Rightarrow> bytes" where
  "Record_write_to R r =
     (if br_data_type r \<noteq> 0 then write_int32 R 1 (br_data_type r) else []) @
     (if br_timestamp r \<noteq> 0 then write_int64 R 2 (br_timestamp r) else []) @
     (case br_data r of None \<Rightarrow> []
      | Some v \<Rightarrow> write_tag R 3 WireTypeLengthDelimited @ write_raw_varint32 R (Payload_compute_size R v) @ Payload_write_to R v)"

subsection \<open>Tasks\<close>

definition Task_new :: BridgeTask where
  "Task_new = \<lparr>task_data_type = 0, task_object_name = [], task_data = [], task_token = []\<rparr>"

text \<open>The loop of \<open>merge_from\<close> takes at least the byte of a tag in each turn, so the number of the bytes bounds the turns;
  \<open>fuel\<close> counts them.\<close>

definition merge_field :: "protobuf_rt \<Rightarrow> nat \<Rightarrow> nat \<Rightarrow> BridgeTask \<Rightarrow> bytes \<Rightarrow> (BridgeTask \<times> bytes) option" where
  "merge_field R field_number wire_type t bs =
     (if field_number = 1 then
        (if wire_type \<noteq> WireTypeVarint then None
         else map_option (\<lambda>(tmp, bs). (t\<lparr>task_data_type := tmp\<rparr>, bs)) (read_int32 R bs))
      else if field_number = 2 then
        map_option (\<lambda>(s, bs). (t\<lparr>task_object_name := s\<rparr>, bs)) (read_proto3_string R wire_type bs)
      else if field_number = 3 then
        map_option (\<lambda>(s, bs). (t\<lparr>task_data := s\<rparr>, bs)) (read_proto3_string R wire_type bs)
      else if field_number = 4 then
        map_option (\<lambda>(s, bs). (t\<lparr>task_token := s\<rparr>, bs)) (read_proto3_string R wire_type bs)
      else map_option (Pair t) (read_unknown R field_number wire_type bs))"

fun merge_from :: "protobuf_rt \<Rightarrow> nat \<Rightarrow> BridgeTask \<Rightarrow> bytes \<Rightarrow> BridgeTask option" where
  "merge_from R fuel t [] = Some t"
| "merge_from R 0 t (b # bs) = None"
| "merge_from R (Suc fuel) t (b # bs) =
     (case read_tag_unpack R (b # bs) of None \<Rightarrow> None
      | Some ((field_number, wire_type), bs) \<Rightarrow>
          (case merge_field R field_number wire_type t bs of None \<Rightarrow> None
           | Some (t, bs) \<Rightarrow> merge_from R fuel t bs))"

definition Task_parse :: "protobuf_rt \<Rightarrow> bytes \<Rightarrow> BridgeTask option" where
  "Task_parse R bs = merge_from R (length bs) Task_new bs"

subsection \<open>The encoding guide\<close>

text \<open>A tag is the varint of the field number times 8 plus the wire type; an integer is the varint of its 64 bits in two's
  complement; a string, a message and an entry of a map are preceded by their length. The size functions give the length of what is
  written, in \<open>u32\<close>.\<close>

definition int32_bits :: "i32 \<Rightarrow> nat" where
  "int32_bits v = unat (scast v :: u64)"

definition rt_writes :: "protobuf_rt \<Rightarrow> bool" where
  "rt_writes R \<longleftrightarrow>
     (\<forall>f v. write_int32 R f v = varint (8 * f) @ varint (int32_bits v) \<and>
        value_size_int32 R f v = of_nat (length (write_int32 R f v))) \<and>
     (\<forall>f v. write_int64 R f v = varint (8 * f) @ varint (unat v) \<and>
        value_size_int64 R f v = of_nat (length (write_int64 R f v))) \<and>
     (\<forall>f w. write_tag R f w = varint (8 * f + w)) \<and>
     (\<forall>n. write_raw_varint32 R n = varint (unat n) \<and> compute_raw_varint32_size R n = of_nat (length (varint (unat n)))) \<and>
     (\<forall>kvs. compute_map_size R 1 kvs = of_nat (length (write_map R 1 kvs)) \<and>
        (length (write_map R 1 kvs) < 2 ^ 32 \<longrightarrow> write_map R 1 kvs = concat (map (\<lambda>(k, v). entry k v) kvs)))"

definition rt_reads :: "protobuf_rt \<Rightarrow> bool" where
  "rt_reads R \<longleftrightarrow>
     (\<forall>f w rest. 0 < f \<longrightarrow> f < 16 \<longrightarrow> w < 6 \<longrightarrow> read_tag_unpack R (varint (8 * f + w) @ rest) = Some ((f, w), rest)) \<and>
     (\<forall>v rest. read_int32 R (varint (int32_bits v) @ rest) = Some (v, rest)) \<and>
     (\<forall>s rest. valid_utf8 s \<longrightarrow> length s < 2 ^ 32 \<longrightarrow>
        read_proto3_string R WireTypeLengthDelimited (varint (length s) @ s @ rest) = Some (s, rest))"

text \<open>The bytes of a record as its three fields.\<close>

definition three_fields :: "nat \<Rightarrow> nat \<Rightarrow> bytes \<Rightarrow> bytes" where
  "three_fields dt ts payload = 0x8 # varint dt @ 0x10 # varint ts @ 0x1a # varint (length payload) @ payload"

lemma record_bytes_fields: "record_bytes ts keys vals dt = three_fields (unat dt) (unat ts) (map_bytes keys vals)"
  by (simp add: record_bytes_def three_fields_def)

lemma rt_writesD:
  assumes "rt_writes R"
  shows "write_int32 R f v = varint (8 * f) @ varint (int32_bits v)" "value_size_int32 R f v = of_nat (length (write_int32 R f v))"
    "write_int64 R f w = varint (8 * f) @ varint (unat w)" "value_size_int64 R f w = of_nat (length (write_int64 R f w))"
    "write_tag R f t = varint (8 * f + t)" "write_raw_varint32 R n = varint (unat n)"
    "compute_raw_varint32_size R n = of_nat (length (varint (unat n)))"
    "compute_map_size R 1 kvs = of_nat (length (write_map R 1 kvs))"
    "length (write_map R 1 kvs) < 2 ^ 32 \<Longrightarrow> write_map R 1 kvs = concat (map (\<lambda>(k, v). entry k v) kvs)"
  using assms by (simp_all add: rt_writes_def)

text \<open>The announced size is the length of the encoding.\<close>

lemma Record_size:
  assumes "rt_writes R"
  shows "Record_compute_size R r = of_nat (length (Record_write_to R r))"
  using rt_writesD[OF assms]
  by (simp add: Record_compute_size_def Record_write_to_def Let_def Payload_compute_size_def Payload_write_to_def
      WireTypeLengthDelimited_def split: option.splits)

lemma Record_frame:
  assumes "rt_writes R" "br_data_type r \<noteq> 0" "br_timestamp r \<noteq> 0" "br_data r = Some v" "length (Record_write_to R r) < 2 ^ 32"
  shows "Record_write_to R r = three_fields (int32_bits (br_data_type r)) (unat (br_timestamp r)) (Payload_write_to R v)"
proof -
  have "length (Payload_write_to R v) < 2 ^ 32" using assms(4,5) by (simp add: Record_write_to_def)
  then have "unat (Payload_compute_size R v) = length (Payload_write_to R v)"
    using rt_writesD(8)[OF assms(1)] by (simp add: Payload_compute_size_def Payload_write_to_def unat_of_nat)
  then show ?thesis using assms(2-4) rt_writesD[OF assms(1)]
    by (simp add: Record_write_to_def three_fields_def WireTypeLengthDelimited_def)
qed

end
