(* ===== verification/Agent_Plugin.thy ===== *)
theory Agent_Plugin
  imports Plugin_Bridge
begin

unbundle bit_operations_syntax

section \<open>The agent's end of the pipe\<close>

text \<open>
  \<open>readVarint\<close> of \<^verbatim>\<open>src/agent/plugin/protocol.go\<close>, \<open>ReceiveData\<close> of \<^verbatim>\<open>src/agent/plugin/plugin.go\<close>, the two goroutines of
  \<^verbatim>\<open>src/agent/plugin/plugin_linux.go\<close> that receive records and send tasks, and \<open>Task\<close> of \<^verbatim>\<open>src/agent/proto/grpc.pb.go\<close>. The agent does not parse a
  record with a protobuf library: it skips the bytes where it expects the tags of the three fields. The reader is the list of the
  bytes that arrive before the plugin closes the pipe. A Go \<open>int\<close> has 64 bits.
\<close>

subsection \<open>Reading\<close>

datatype go_error = EOF | UnexpectedEOF | IntOverflow

type_synonym 'a go = "(go_error + 'a) \<times> bytes"

fun readVarint_loop :: "nat \<Rightarrow> u64 \<Rightarrow> nat \<Rightarrow> bytes \<Rightarrow> (u64 \<times> nat) go" where
  "readVarint_loop shift v eaten [] = (if 64 \<le> shift then (Inl IntOverflow, []) else (Inl EOF, []))"
| "readVarint_loop shift v eaten (b # bs) =
     (if 64 \<le> shift then (Inl IntOverflow, b # bs)
      else let v = v OR push_bit shift (ucast (b AND 0x7F))
           in if b < 0x80 then (Inr (v, eaten + 1), bs) else readVarint_loop (shift + 7) v (eaten + 1) bs)"

definition readVarint :: "bytes \<Rightarrow> (u64 \<times> nat) go" where
  "readVarint bs = readVarint_loop 0 0 0 bs"

text \<open>\<open>binary.Read\<close> of a \<open>uint32\<close>, \<open>Discard(1)\<close>, and \<open>io.ReadFull\<close>, which also gives what it could read.\<close>

definition read_u32 :: "bytes \<Rightarrow> nat go" where
  "read_u32 bs = (if bs = [] then (Inl EOF, []) else if length bs < 4 then (Inl UnexpectedEOF, [])
     else (Inr (u32_from_le_bytes (take 4 bs)), drop 4 bs))"

fun Discard1 :: "bytes \<Rightarrow> unit go" where
  "Discard1 [] = (Inl EOF, [])"
| "Discard1 (b # bs) = (Inr (), bs)"

definition ReadFull :: "nat \<Rightarrow> bytes \<Rightarrow> (go_error option \<times> bytes) \<times> bytes" where
  "ReadFull n bs = ((if n \<le> length bs then None else if bs = [] then Some EOF else Some UnexpectedEOF, take n bs), drop n bs)"

text \<open>A record comes from a pool of used ones. \<open>Data_array\<close> is the whole array behind the slice \<open>Data\<close>, with what an earlier
  record left in it, and \<open>Data_len\<close> the length of the slice.\<close>

record EncodedRecord =
  DataType :: "32 word"
  Timestamp :: "64 word"
  Data_array :: bytes
  Data_len :: nat

definition Data :: "EncodedRecord \<Rightarrow> bytes" where
  "Data r = take (Data_len r) (Data_array r)"

text \<open>\<open>Panicked\<close> is the end of the agent, and \<open>None\<close> the nil record.\<close>

datatype received = Panicked | Received "EncodedRecord option" "go_error option"

definition or_return :: "EncodedRecord option \<Rightarrow> 'a go \<Rightarrow> ('a \<Rightarrow> bytes \<Rightarrow> received \<times> bytes) \<Rightarrow> received \<times> bytes" where
  "or_return rec m k = (case m of (Inl e, bs) \<Rightarrow> (Received rec (Some e), bs) | (Inr x, bs) \<Rightarrow> k x bs)"

definition receive_payload :: "EncodedRecord \<Rightarrow> int \<Rightarrow> bytes \<Rightarrow> received \<times> bytes" where
  "receive_payload rec ne bs =
     (if ne < 0 then (Panicked, bs)
      else let rec = (if int (length (Data_array rec)) < ne then rec\<lparr>Data_array := replicate (nat ne) 0, Data_len := nat ne\<rparr>
                      else rec\<lparr>Data_len := nat ne\<rparr>);
               ((err, got), bs) = ReadFull (nat ne) bs
           in (Received (Some (rec\<lparr>Data_array := got @ drop (length got) (Data_array rec)\<rparr>)) err, bs))"

definition ReceiveData :: "EncodedRecord \<Rightarrow> bytes \<Rightarrow> received \<times> bytes" where
  "ReceiveData pooled bs =
     or_return None (read_u32 bs) (\<lambda>l bs.
     or_return None (Discard1 bs) (\<lambda>_ bs.
     let te = 1; rec = pooled in
     or_return (Some rec) (readVarint bs) (\<lambda>(dt, e) bs.
     or_return (Some rec) (Discard1 bs) (\<lambda>_ bs.
     let te = te + (e + 1); rec = rec\<lparr>DataType := ucast dt\<rparr> in
     or_return (Some rec) (readVarint bs) (\<lambda>(ts, e) bs.
     or_return (Some rec) (Discard1 bs) (\<lambda>_ bs.
     let te = te + (e + 1); rec = rec\<lparr>Timestamp := ts\<rparr> in
     if te < l
     then or_return (Some rec) (readVarint bs) (\<lambda>(_, e) bs.
       let te = te + e in receive_payload rec (int l - int te) bs)
     else (Received (Some rec) None, bs)))))))"

subsection \<open>The goroutine that receives\<close>

lemma readVarint_loop_shorter: "length (snd (readVarint_loop shift v eaten bs)) \<le> length bs"
  by (induction shift v eaten bs rule: readVarint_loop.induct) (auto simp: Let_def intro: le_SucI)

lemma reads_shorter:
  "length (snd (readVarint bs)) \<le> length bs" "length (snd (Discard1 bs)) \<le> length bs"
  "length (snd (receive_payload rec ne bs)) \<le> length bs"
  by (auto simp: readVarint_def readVarint_loop_shorter receive_payload_def ReadFull_def Let_def) (cases bs; simp)

lemma or_return_shorter:
  assumes "\<And>x bs. length (snd (k x bs)) \<le> length bs"
  shows "length (snd (or_return rec m k)) \<le> length (snd m)"
  using assms by (cases m) (auto simp: or_return_def split: sum.splits)

lemmas ReceiveData_parts_shorter =
  order_trans[OF or_return_shorter reads_shorter(1)] order_trans[OF or_return_shorter reads_shorter(2)]

text \<open>Reading either finds the pipe closed or takes something from it.\<close>

lemma ReceiveData_shorter:
  assumes "ReceiveData pooled bs = (r, bs')" "bs \<noteq> []"
  shows "length bs' < length bs"
proof -
  define k where "k = (\<lambda>l bs. or_return None (Discard1 bs) (\<lambda>_ bs.
     let te = 1; rec = pooled in
     or_return (Some rec) (readVarint bs) (\<lambda>(dt, e) bs.
     or_return (Some rec) (Discard1 bs) (\<lambda>_ bs.
     let te = te + (e + 1); rec = rec\<lparr>DataType := ucast dt\<rparr> in
     or_return (Some rec) (readVarint bs) (\<lambda>(ts, e) bs.
     or_return (Some rec) (Discard1 bs) (\<lambda>_ bs.
     let te = te + (e + 1); rec = rec\<lparr>Timestamp := ts\<rparr> in
     if te < l
     then or_return (Some rec) (readVarint bs) (\<lambda>(_, e) bs.
       let te = te + e in receive_payload rec (int l - int te) bs)
     else (Received (Some rec) None, bs)))))))"
  have "length (snd (k l bs)) \<le> length bs" for l bs
    unfolding k_def Let_def
    by (intro ReceiveData_parts_shorter) (auto split: prod.split intro!: ReceiveData_parts_shorter reads_shorter(3))
  then have "length (snd (ReceiveData pooled bs)) \<le> length (snd (read_u32 bs))"
    unfolding ReceiveData_def k_def[symmetric] by (rule or_return_shorter)
  moreover have "length (snd (read_u32 bs)) < length bs" using assms(2) by (simp add: read_u32_def)
  ultimately show ?thesis using assms(1) by simp
qed

lemma ReceiveData_closed: "ReceiveData pooled [] = (Received None (Some EOF), [])"
  by (simp add: ReceiveData_def read_u32_def or_return_def)

text \<open>The loop: the records that go to \<open>WriteEncodedRecord\<close>, and whether the agent panicked. Only the end of the
  input ends it; after another error the record is passed on as it is. \<open>pool n\<close> is the record that the pool gives at
  the \<open>n\<close>-th call.\<close>

function receive_loop :: "(nat \<Rightarrow> EncodedRecord) \<Rightarrow> nat \<Rightarrow> bytes \<Rightarrow> EncodedRecord option list \<times> bool" where
  "receive_loop pool n bs =
     (case ReceiveData (pool n) bs of
        (Panicked, bs') \<Rightarrow> ([], True)
      | (Received rec err, bs') \<Rightarrow>
          if err = Some EOF then ([], False)
          else case receive_loop pool (n + 1) bs' of (recs, died) \<Rightarrow> (rec # recs, died))"
  by pat_completeness auto
termination
proof (relation "measure (\<lambda>(pool, n, bs). length bs)", goal_cases)
  case (2 pool n bs r bs' rec err)
  then have r: "ReceiveData (pool n) bs = (Received rec err, bs')" "err \<noteq> Some EOF" by simp_all
  then have "bs \<noteq> []" by (auto simp: ReceiveData_closed)
  then show ?case using ReceiveData_shorter[OF r(1)] by simp
qed simp

declare receive_loop.simps [simp del]

subsection \<open>What the reader makes of the fields\<close>

lemma of_nat_digit: "(of_nat n :: u64) = of_nat (n mod 128) OR push_bit 7 (of_nat (n div 128))"
proof -
  have "n mod 128 = take_bit 7 n" "n div 128 = drop_bit 7 n" by (simp_all add: take_bit_eq_mod drop_bit_eq_div)
  then show ?thesis
    by (auto intro!: bit_eqI simp: bit_simps)
qed

lemma digit_byte:
  assumes "m < 128"
  shows "ucast ((of_nat m :: byte) AND 0x7F) = (of_nat m :: u64)" "ucast ((of_nat (m + 128) :: byte) AND 0x7F) = (of_nat m :: u64)"
    "(of_nat m :: byte) < 0x80" "\<not> (of_nat (m + 128) :: byte) < 0x80"
proof -
  have mask: "(0x7F :: byte) = mask 7" by (simp add: mask_eq_exp_minus_1)
  have u: "unat (of_nat m :: byte) = m" "unat (of_nat (m + 128) :: byte) = m + 128" using assms by (simp_all add: unat_of_nat del: of_nat_add)
  have v: "ucast (b AND 0x7F) = (of_nat (unat b mod 128) :: u64)" for b :: byte
  proof -
    have "unat (b AND 0x7F) = unat b mod 128"
      unfolding mask take_bit_eq_mask[symmetric] by (simp add: unsigned_take_bit_eq take_bit_eq_mod unat_mod)
    then show ?thesis by (metis of_nat_unat)
  qed
  show "ucast ((of_nat m :: byte) AND 0x7F) = (of_nat m :: u64)" "ucast ((of_nat (m + 128) :: byte) AND 0x7F) = (of_nat m :: u64)"
    unfolding v u using assms by simp_all
  show "(of_nat m :: byte) < 0x80" "\<not> (of_nat (m + 128) :: byte) < 0x80"
    using u assms by (simp_all add: word_less_nat_alt)
qed

lemma readVarint_loop_varint:
  assumes "shift < 64" "n * 2 ^ shift < 2 ^ 64"
  shows "readVarint_loop shift v eaten (varint n @ rest) = (Inr (v OR push_bit shift (of_nat n), eaten + length (varint n)), rest)"
  using assms
proof (induction n arbitrary: shift v eaten rule: varint.induct)
  case (1 n)
  show ?case
  proof (cases "n < 128")
    case True
    then show ?thesis using 1 digit_byte[OF True] by simp
  next
    case False
    have small: "n mod 128 < 128" by simp
    have "(2::nat) ^ (shift + 7) \<le> n * 2 ^ shift" using False by (simp add: power_add)
    then have "(2::nat) ^ (shift + 7) < 2 ^ 64" using 1(3) by (rule le_less_trans)
    then have shift: "shift + 7 < 64" by (rule power_less_imp_less_exp[rotated]) simp
    have "n div 128 * 2 ^ (shift + 7) \<le> n * 2 ^ shift" by (simp add: power_add)
    then have "n div 128 * 2 ^ (shift + 7) < 2 ^ 64" using 1(3) by (rule le_less_trans)
    note IH = 1(1)[OF False shift this]
    have "push_bit shift (of_nat n) = push_bit shift (of_nat (n mod 128)) OR push_bit (shift + 7) (of_nat (n div 128) :: u64)"
      by (subst of_nat_digit) (simp add: push_bit_or push_bit_push_bit add.commute)
    then show ?thesis
      using False 1(2) digit_byte(2,4)[OF small] IH by (subst varint.simps, subst (2) varint.simps) (simp add: Let_def or.assoc)
  qed
qed

lemma readVarint_varint [simp]:
  "n < 2 ^ 64 \<Longrightarrow> readVarint (varint n @ rest) = (Inr (of_nat n, length (varint n)), rest)"
  by (simp add: readVarint_def readVarint_loop_varint)

lemma or_return_Inr [simp]: "or_return rec (Inr x, bs) k = k x bs"
  by (simp add: or_return_def)

lemma read_u32_le [simp]: "l < 2 ^ 32 \<Longrightarrow> read_u32 (u32_to_le_bytes (of_nat l) @ bs) = (Inr l, bs)"
  by (auto simp: read_u32_def u32_le_roundtrip unat_of_nat) (metis length_u32_to_le_bytes list.size(3) zero_neq_numeral)

text \<open>The reader takes a frame for three bytes, whatever they are, that are followed by a varint each, and for what is left of the announced
  length after them.\<close>

lemma ReceiveData_header:
  assumes "dt < 2 ^ 64" "ts < 2 ^ 64" "n < 2 ^ 64" "l < 2 ^ 32" "l = 3 + length (varint dt) + length (varint ts) + length (varint n) + m"
  shows "ReceiveData pooled (u32_to_le_bytes (of_nat l) @ a # varint dt @ b # varint ts @ c # varint n @ bs) =
    receive_payload (pooled\<lparr>DataType := ucast (of_nat dt :: u64), Timestamp := of_nat ts\<rparr>) (int m) bs"
proof -
  have "0 < length (varint n)" by simp
  then have rest: "1 + (length (varint dt) + 1) + (length (varint ts) + 1) < l" using assms(5) by linarith
  have "int l - int (1 + (length (varint dt) + 1) + (length (varint ts) + 1) + length (varint n)) = int m"
    unfolding assms(5) by simp
  then show ?thesis using rest
    by (simp add: ReceiveData_def Let_def read_u32_le[OF assms(4)] readVarint_varint[OF assms(1)] readVarint_varint[OF assms(2)]
        readVarint_varint[OF assms(3)])
qed

lemma receive_payload_all:
  "receive_payload rec (int (length payload)) (payload @ rest) =
     (Received (Some (rec\<lparr>Data_array := payload @ drop (length payload) (Data_array rec), Data_len := length payload\<rparr>)) None, rest)"
  by (simp add: receive_payload_def ReadFull_def Let_def)

lemma receive_payload_cut:
  assumes "length p < n" "p \<noteq> []"
  obtains rec' where "receive_payload rec (int n) p = (Received (Some rec') (Some UnexpectedEOF), [])"
    "DataType rec' = DataType rec" "Timestamp rec' = Timestamp rec"
    "Data rec' = p @ (if length (Data_array rec) < n then replicate (n - length p) 0 else take (n - length p) (drop (length p) (Data_array rec)))"
proof (cases "length (Data_array rec) < n")
  case True
  then show ?thesis
    by (intro that[of "rec\<lparr>Data_array := p @ drop (length p) (replicate n 0), Data_len := n\<rparr>"])
       (use assms in \<open>simp_all add: receive_payload_def ReadFull_def Let_def Data_def\<close>)
next
  case False
  then show ?thesis
    by (intro that[of "rec\<lparr>Data_array := p @ drop (length p) (Data_array rec), Data_len := n\<rparr>"])
       (use assms in \<open>simp_all add: receive_payload_def ReadFull_def Let_def Data_def\<close>)
qed

lemma ReceiveData_fields:
  assumes "dt < 2 ^ 64" "ts < 2 ^ 64" "length (three_fields dt ts payload) < 2 ^ 32"
  obtains rec where "ReceiveData pooled (length_frame_of (three_fields dt ts payload) @ rest) = (Received (Some rec) None, rest)"
    "DataType rec = ucast (of_nat dt :: u64)" "Timestamp rec = of_nat ts" "Data rec = payload"
proof -
  let ?l = "length (three_fields dt ts payload)"
  have l: "?l = 3 + length (varint dt) + length (varint ts) + length (varint (length payload)) + length payload"
    by (simp add: three_fields_def)
  then have "length payload < 2 ^ 64" using assms(3) by simp
  from ReceiveData_header[OF assms(1,2) this assms(3) l, where pooled = pooled and a = "0x8" and b = "0x10" and c = "0x1a" and bs = "payload @ rest",
      unfolded receive_payload_all]
  show ?thesis
    by (intro that[of "pooled\<lparr>DataType := ucast (of_nat dt :: u64), Timestamp := of_nat ts,
          Data_array := payload @ drop (length payload) (Data_array pooled), Data_len := length payload\<rparr>"])
       (simp_all only: length_frame_of_def three_fields_def append_assoc append_Cons Data_def EncodedRecord.simps, simp_all)
qed

text \<open>The stream of frames, one after the other.\<close>

lemma receive_loop_frames:
  assumes "list_all (\<lambda>(dt, ts, payload). dt < 2 ^ 64 \<and> ts < 2 ^ 64 \<and> length (three_fields dt ts payload) < 2 ^ 32) fs"
  shows "\<exists>recs. receive_loop pool n (concat (map (\<lambda>(dt, ts, payload). length_frame_of (three_fields dt ts payload)) fs)) = (map Some recs, False) \<and>
    map (\<lambda>r. (DataType r, Timestamp r, Data r)) recs = map (\<lambda>(dt, ts, payload). (ucast (of_nat dt :: u64), of_nat ts, payload)) fs"
  using assms
proof (induction fs arbitrary: n)
  case Nil
  show ?case by (subst receive_loop.simps) (simp add: ReceiveData_closed)
next
  case (Cons f fs)
  obtain dt ts payload where f: "f = (dt, ts, payload)" by (metis prod_cases3)
  let ?rest = "concat (map (\<lambda>(dt, ts, payload). length_frame_of (three_fields dt ts payload)) fs)"
  obtain rec where rec: "ReceiveData (pool n) (length_frame_of (three_fields dt ts payload) @ ?rest) = (Received (Some rec) None, ?rest)"
    "DataType rec = ucast (of_nat dt :: u64)" "Timestamp rec = of_nat ts" "Data rec = payload"
    using ReceiveData_fields[of dt ts payload "pool n" ?rest] Cons.prems f by auto
  obtain recs where recs: "receive_loop pool (n + 1) ?rest = (map Some recs, False)"
    "map (\<lambda>r. (DataType r, Timestamp r, Data r)) recs = map (\<lambda>(dt, ts, payload). (ucast (of_nat dt :: u64), of_nat ts, payload)) fs"
    using Cons.IH[of "n + 1"] Cons.prems by auto
  show ?case
    by (intro exI[of _ "rec # recs"], subst receive_loop.simps) (use rec recs f in simp)
qed

text \<open>What the agent sees of a record of the bridge.\<close>

definition delivered :: "protobuf_rt \<Rightarrow> BridgeRecord \<Rightarrow> i32 \<times> i64 \<times> bytes" where
  "delivered R r = (br_data_type r, br_timestamp r, case br_data r of None \<Rightarrow> [] | Some v \<Rightarrow> Payload_write_to R v)"

lemma int32_bits_back: "ucast (of_nat (int32_bits v) :: u64) = v"
proof -
  have "(of_nat (int32_bits v) :: u64) = scast v" by (simp add: int32_bits_def)
  moreover have "ucast (scast v :: u64) = v"
  proof (rule bit_word_eqI)
    fix n :: nat
    assume "n < LENGTH(32)"
    then have "n < 31 \<or> n = 31" by auto
    then show "bit (ucast (scast v :: u64) :: i32) n = bit v n" by (auto simp: bit_simps min_def)
  qed
  ultimately show ?thesis by simp
qed

lemma int32_bits_bound: "int32_bits v < 2 ^ 64"
  using unsigned_less[of "scast v :: u64", where 'a = nat] by (simp add: int32_bits_def)

definition sendable :: "protobuf_rt \<Rightarrow> BridgeRecord \<Rightarrow> bool" where
  "sendable R r \<longleftrightarrow> br_data_type r \<noteq> 0 \<and> br_timestamp r \<noteq> 0 \<and> br_data r \<noteq> None \<and> length (Record_write_to R r) < 2 ^ 32"

lemma sendable_frame:
  assumes "rt_writes R" "sendable R r"
  obtains v where "br_data r = Some v"
    "u32_to_le_bytes (Record_compute_size R r) @ Record_write_to R r =
       length_frame_of (three_fields (int32_bits (br_data_type r)) (unat (br_timestamp r)) (Payload_write_to R v))"
    "length (three_fields (int32_bits (br_data_type r)) (unat (br_timestamp r)) (Payload_write_to R v)) < 2 ^ 32"
proof -
  obtain v where "br_data r = Some v" using assms(2) by (auto simp: sendable_def)
  with Record_frame[OF assms(1) _ _ this] assms(2) show ?thesis
    by (intro that[of v]) (simp_all add: sendable_def length_frame_of_def Record_size[OF assms(1)])
qed

lemma wire_received:
  assumes "rt_writes R" "list_all (sendable R) rs"
  shows "\<exists>recs. receive_loop pool n (wire_of (Record_compute_size R) (Record_write_to R) rs) = (map Some recs, False) \<and>
    map (\<lambda>r. (DataType r, Timestamp r, Data r)) recs = map (delivered R) rs"
proof -
  define fields where "fields = (\<lambda>r. (int32_bits (br_data_type r), unat (br_timestamp r), snd (snd (delivered R r))))"
  have "(u32_to_le_bytes (Record_compute_size R r) @ Record_write_to R r =
        (\<lambda>(dt, ts, payload). length_frame_of (three_fields dt ts payload)) (fields r)) \<and>
      (\<lambda>(dt, ts, payload). dt < 2 ^ 64 \<and> ts < 2 ^ 64 \<and> length (three_fields dt ts payload) < 2 ^ 32) (fields r) \<and>
      (\<lambda>(dt, ts, payload). (ucast (of_nat dt :: u64), of_nat ts, payload)) (fields r) = delivered R r" if "r \<in> set rs" for r
  proof -
    have "sendable R r" using assms(2) that by (simp add: list_all_iff)
    from sendable_frame[OF assms(1) this] obtain v where v: "br_data r = Some v"
      "u32_to_le_bytes (Record_compute_size R r) @ Record_write_to R r =
         length_frame_of (three_fields (int32_bits (br_data_type r)) (unat (br_timestamp r)) (Payload_write_to R v))"
      "length (three_fields (int32_bits (br_data_type r)) (unat (br_timestamp r)) (Payload_write_to R v)) < 2 ^ 32" .
    have "unat (br_timestamp r) < 2 ^ 64" using unsigned_less[of "br_timestamp r", where 'a = nat] by simp
    with v show ?thesis using int32_bits_back int32_bits_bound by (simp add: fields_def delivered_def)
  qed
  then have fields: "wire_of (Record_compute_size R) (Record_write_to R) rs =
      concat (map (\<lambda>(dt, ts, payload). length_frame_of (three_fields dt ts payload)) (map fields rs))"
    "list_all (\<lambda>(dt, ts, payload). dt < 2 ^ 64 \<and> ts < 2 ^ 64 \<and> length (three_fields dt ts payload) < 2 ^ 32) (map fields rs)"
    "map (\<lambda>(dt, ts, payload). (ucast (of_nat dt :: u64), of_nat ts, payload)) (map fields rs) = map (delivered R) rs"
    by (simp_all add: wire_of_def list_all_iff cong: map_cong)
  show ?thesis using receive_loop_frames[OF fields(2), of pool n] unfolding fields(1,3) .
qed

subsection \<open>Sending tasks\<close>

text \<open>\<open>Task\<close> of the agent has the fields of the task of the bridge. Its encoder fills a buffer from the end; \<open>st\<close> is the buffer and the
  index \<open>i\<close>.\<close>

definition sovGrpc :: "u64 \<Rightarrow> nat" where
  "sovGrpc x = (64 - unat (leading_zeros (x OR 1)) + 6) div 7"

function encodeVarintGrpc_loop :: "u64 \<Rightarrow> bytes \<Rightarrow> nat \<Rightarrow> bytes res" where
  "encodeVarintGrpc_loop v dAtA offset =
     (if 128 \<le> v
      then bind_res (store dAtA offset (ucast (v AND 0x7f OR 0x80))) (\<lambda>dAtA. encodeVarintGrpc_loop (drop_bit 7 v) dAtA (offset + 1))
      else store dAtA offset (ucast v))"
  by pat_completeness auto
termination
  by (relation "measure (\<lambda>(v, dAtA, offset). unat v)") (auto simp: unat_drop7 word_le_nat_alt)

declare encodeVarintGrpc_loop.simps [simp del]

definition encodeVarintGrpc :: "u64 \<Rightarrow> bytes \<times> nat \<Rightarrow> (bytes \<times> nat) res" where
  "encodeVarintGrpc v = (\<lambda>(dAtA, offset).
     bind_res (usub offset (sovGrpc v)) (\<lambda>base.
     bind_res (encodeVarintGrpc_loop v dAtA base) (\<lambda>dAtA. Inr (dAtA, base))))"

definition marshal_string :: "byte \<Rightarrow> bytes \<Rightarrow> bytes \<times> nat \<Rightarrow> (bytes \<times> nat) res" where
  "marshal_string tag s st = (if 0 < length s then
      bind_res (put_slice s st) (\<lambda>st.
      bind_res (encodeVarintGrpc (of_nat (length s)) st) (\<lambda>st.
      put_byte tag st))
    else Inr st)"

definition MarshalToSizedBuffer :: "BridgeTask \<Rightarrow> bytes \<Rightarrow> (bytes \<times> nat) res" where
  "MarshalToSizedBuffer m dAtA =
     bind_res (marshal_string 0x22 (task_token m) (dAtA, length dAtA)) (\<lambda>st.
     bind_res (marshal_string 0x1a (task_data m) st) (\<lambda>st.
     bind_res (marshal_string 0x12 (task_object_name m) st) (\<lambda>st.
     bind_res (if task_data_type m \<noteq> 0
               then bind_res (encodeVarintGrpc (scast (task_data_type m)) st) (\<lambda>st. put_byte 0x8 st)
               else Inr st) (\<lambda>(dAtA, i).
     Inr (dAtA, length dAtA - i)))))"

definition string_Size :: "bytes \<Rightarrow> nat" where
  "string_Size s = (let l = length s in if 0 < l then 1 + l + sovGrpc (of_nat l) else 0)"

definition Task_Size :: "BridgeTask \<Rightarrow> nat" where
  "Task_Size m = (if task_data_type m \<noteq> 0 then 1 + sovGrpc (scast (task_data_type m)) else 0) +
     string_Size (task_object_name m) + string_Size (task_data m) + string_Size (task_token m)"

text \<open>What the goroutine writes for a task: the size and the encoding.\<close>

definition task_frame :: "BridgeTask \<Rightarrow> bytes res" where
  "task_frame m = (let s = Task_Size m in
     bind_res (MarshalToSizedBuffer m (replicate s 0)) (\<lambda>(dst, n). Inr (u32_to_le_bytes (of_nat s) @ dst)))"

fun send_tasks :: "BridgeTask list \<Rightarrow> bytes res" where
  "send_tasks [] = Inr []"
| "send_tasks (m # ms) = bind_res (task_frame m) (\<lambda>dst. bind_res (send_tasks ms) (\<lambda>rest. Inr (dst @ rest)))"

text \<open>The encoding as the list of its fields.\<close>

definition string_field :: "nat \<Rightarrow> bytes \<Rightarrow> bytes" where
  "string_field f s = (if s = [] then [] else varint (8 * f + 2) @ varint (length s) @ s)"

definition task_bytes :: "BridgeTask \<Rightarrow> bytes" where
  "task_bytes m = (if task_data_type m \<noteq> 0 then 0x8 # varint (int32_bits (task_data_type m)) else []) @
     string_field 2 (task_object_name m) @ string_field 3 (task_data m) @ string_field 4 (task_token m)"

lemma sovGrpc_varint [simp]: "sovGrpc n = length (varint (unat n))"
proof -
  have pos: "0 < unat (n OR 1)"
    unfolding unat_or_1 by (cases "unat n = 0") auto
  obtain k where k: "2 ^ k \<le> unat (n OR 1)" "unat (n OR 1) < 2 ^ Suc k"
    using log2_exists[OF pos] by blast
  note k64 = pow_le_u64[OF k(1)]
  have "leading_zeros (n OR 1) = of_nat (63 - k)"
    using leading_zeros_eq[OF k k64] k64 by (simp add: of_nat_diff)
  then have "unat (leading_zeros (n OR 1)) = 63 - k" by (simp add: unat_of_nat)
  then have "sovGrpc n = (k + 7) div 7" using k64 by (simp add: sovGrpc_def)
  also have "\<dots> = length (varint (unat n))"
    unfolding varint_length_or_1[of n, symmetric] varint_length[OF k] by simp
  finally show ?thesis .
qed

lemma grpc_byte: "(ucast (v AND 0x7f OR 0x80 :: u64) :: byte) = 128 OR ucast v"
proof (rule bit_word_eqI)
  fix n :: nat
  assume "n < LENGTH(8)"
  then have n: "n < 7 \<or> n = 7" by auto
  have mask: "(0x7f :: u64) = mask 7" by (simp add: mask_eq_exp_minus_1)
  have "bit (128 :: byte) 7" "bit (128 :: u64) 7" by simp_all
  moreover have "bit (128 :: byte) n = bit (128 :: u64) n" using n bit_exp_iff[where 'a = byte, of 7 n] bit_exp_iff[where 'a = u64, of 7 n] by auto
  ultimately show "bit (ucast (v AND 0x7f OR 0x80 :: u64) :: byte) n = bit (128 OR ucast v :: byte) n"
    using n unfolding mask by (auto simp: bit_simps)
qed

lemma encodeVarintGrpc_loop_eq: "encodeVarintGrpc_loop v dst i = bind_res (encode_varint_loop v dst i) (\<lambda>(dst, _). Inr dst)"
proof (induction v dst i rule: encodeVarintGrpc_loop.induct)
  case (1 v dst i)
  show ?case
  proof (cases "128 \<le> v")
    case True
    then show ?thesis using 1
      by (subst encodeVarintGrpc_loop.simps, subst encode_varint_loop.simps) (simp add: grpc_byte bind_res_def store_def)
  next
    case False
    then show ?thesis
      by (subst encodeVarintGrpc_loop.simps, subst encode_varint_loop.simps) (simp add: store_def)
  qed
qed

lemma encodeVarintGrpc_prepend: "fits st \<Longrightarrow> encodeVarintGrpc n st = prepend (varint (unat n)) st"
proof -
  assume fits: "fits st"
  obtain dst i where st: "st = (dst, i)" by fastforce
  let ?v = "varint (unat n)"
  show ?thesis
  proof (cases "length ?v \<le> i")
    case True
    let ?j = "i - length ?v"
    have "dst = take ?j dst @ take (length ?v) (drop ?j dst) @ drop i dst"
      using True by (metis append_take_drop_id drop_drop le_add_diff_inverse2 add.commute)
    moreover have "length (take (length ?v) (drop ?j dst)) = length ?v" "?j = length (take ?j dst)"
      using True fits st by (simp_all add: fits_def)
    ultimately have "encode_varint_loop n dst ?j = Inr (take ?j dst @ ?v @ drop i dst, ?j + length ?v)"
      using encode_varint_loop_split[of "take (length ?v) (drop ?j dst)" n ?j "take ?j dst" "drop i dst"] by metis
    then show ?thesis using True st by (simp add: encodeVarintGrpc_def encodeVarintGrpc_loop_eq prepend_def)
  qed (simp add: st encodeVarintGrpc_def prepend_def usub_def)
qed

lemmas marshal_prepend = bind_prepend_cong[OF _ encodeVarintGrpc_prepend] encodeVarintGrpc_prepend

lemma marshal_string_prepend:
  assumes "fits st" "length s < 2 ^ 64" "f < 15"
  shows "marshal_string (of_nat (8 * f + 2)) s st = prepend (string_field f s) st"
proof (cases "s = []")
  case True
  then show ?thesis using assms(1) by (cases st) (simp add: marshal_string_def string_field_def prepend_def)
next
  case False
  have "varint (8 * f + 2) = [of_nat (8 * f + 2)]" using assms(3) by simp
  then show ?thesis
    using assms(1) False unat_len[OF assms(2)]
    by (simp add: marshal_string_def wire_simps marshal_prepend string_field_def del: of_nat_add of_nat_mult)
qed

text \<open>The encoder fills the buffer of the computed size exactly.\<close>

lemma length_task_bytes:
  assumes "Task_Size m < 2 ^ 32"
  shows "Task_Size m = length (task_bytes m)"
proof -
  have "length (task_object_name m) < 2 ^ 64" "length (task_data m) < 2 ^ 64" "length (task_token m) < 2 ^ 64"
    using assms by (auto simp: Task_Size_def string_Size_def Let_def split: if_splits)
  then show ?thesis
    by (simp add: Task_Size_def task_bytes_def string_Size_def string_field_def Let_def unat_len int32_bits_def)
qed

lemma marshal_field_prepend:
  "fits st \<Longrightarrow> length s < 2 ^ 64 \<Longrightarrow> marshal_string 0x22 s st = prepend (string_field 4 s) st"
  "fits st \<Longrightarrow> length s < 2 ^ 64 \<Longrightarrow> marshal_string 0x1a s st = prepend (string_field 3 s) st"
  "fits st \<Longrightarrow> length s < 2 ^ 64 \<Longrightarrow> marshal_string 0x12 s st = prepend (string_field 2 s) st"
  using marshal_string_prepend[of st s 4] marshal_string_prepend[of st s 3] marshal_string_prepend[of st s 2] by simp_all

lemma marshal_type_prepend:
  assumes "fits st"
  shows "(if task_data_type m \<noteq> 0 then bind_res (encodeVarintGrpc (scast (task_data_type m)) st) (\<lambda>st. put_byte 0x8 st) else Inr st) =
    prepend (if task_data_type m \<noteq> 0 then 0x8 # varint (int32_bits (task_data_type m)) else []) st"
proof (cases "task_data_type m = 0")
  case True
  then show ?thesis using assms by (cases st) (simp add: prepend_def)
next
  case False
  then show ?thesis using assms by (simp add: wire_simps marshal_prepend int32_bits_def)
qed

lemma MarshalToSizedBuffer_eq:
  assumes "length (task_bytes m) < 2 ^ 32" "length dAtA = length (task_bytes m)"
  shows "MarshalToSizedBuffer m dAtA = Inr (task_bytes m, length (task_bytes m))"
proof -
  have len: "length (task_object_name m) < 2 ^ 64" "length (task_data m) < 2 ^ 64" "length (task_token m) < 2 ^ 64"
    using assms(1) by (auto simp: task_bytes_def string_field_def split: if_splits)
  have fits: "fits (dAtA, length dAtA)" by (simp add: fits_def)
  have "MarshalToSizedBuffer m dAtA = bind_res (prepend (task_bytes m) (dAtA, length dAtA)) (\<lambda>(dAtA, i). Inr (dAtA, length dAtA - i))"
    unfolding MarshalToSizedBuffer_def task_bytes_def
    using fits len
    by (simp add: marshal_field_prepend(1) bind_prepend_cong[OF _ marshal_field_prepend(2)] bind_prepend_cong[OF _ marshal_field_prepend(3)]
        bind_prepend_cong[OF _ marshal_type_prepend] del: One_nat_def)
  also have "\<dots> = Inr (task_bytes m, length (task_bytes m))"
    using assms(2) by (simp add: prepend_def)
  finally show ?thesis .
qed

lemma task_frame_eq: "Task_Size m < 2 ^ 32 \<Longrightarrow> task_frame m = Inr (length_frame_of (task_bytes m))"
  using length_task_bytes[of m] MarshalToSizedBuffer_eq[of m "replicate (Task_Size m) 0"]
  by (simp add: task_frame_def Let_def length_frame_of_def)

text \<open>The parser of the plugin reads the fields back.\<close>

definition task_strings_ok :: "BridgeTask \<Rightarrow> bool" where
  "task_strings_ok m \<longleftrightarrow> valid_utf8 (task_object_name m) \<and> valid_utf8 (task_data m) \<and> valid_utf8 (task_token m)"

lemma rt_readsD:
  assumes "rt_reads R"
  shows "0 < f \<Longrightarrow> f < 16 \<Longrightarrow> w < 6 \<Longrightarrow> read_tag_unpack R (varint (8 * f + w) @ rest) = Some ((f, w), rest)"
    "read_int32 R (varint (int32_bits v) @ rest) = Some (v, rest)"
    "valid_utf8 s \<Longrightarrow> length s < 2 ^ 32 \<Longrightarrow> read_proto3_string R 2 (varint (length s) @ s @ rest) = Some (s, rest)"
  using assms unfolding rt_reads_def WireTypeLengthDelimited_def by blast+

lemma merge_from_step:
  assumes "read_tag_unpack R (bs @ cs) = Some ((f, w), cs)" "merge_field R f w t cs = Some (t', ds)" "bs \<noteq> []"
  shows "merge_from R (Suc fuel) t (bs @ cs) = merge_from R fuel t' ds"
  using assms by (cases bs) simp_all

lemma merge_string_field:
  assumes R: "rt_reads R" and s: "valid_utf8 s" "length s < 2 ^ 32" and f: "f \<in> {2, 3, 4}" and fuel: "length (string_field f s @ rest) \<le> fuel"
    and upd: "\<And>bs. map_option (\<lambda>(s, bs). (upd s t, bs)) (read_proto3_string R 2 bs) = merge_field R f 2 t bs" "upd [] t = t"
  shows "\<exists>fuel'. length rest \<le> fuel' \<and> merge_from R fuel t (string_field f s @ rest) = merge_from R fuel' (upd s t) rest"
proof (cases "s = []")
  case True
  then show ?thesis using fuel upd(2) by (auto simp: string_field_def)
next
  case False
  obtain n where n: "fuel = Suc n" "length rest \<le> n" proof (cases fuel)
    case (Suc n)
    then have "length rest \<le> n" using fuel False by (cases s) (simp_all add: string_field_def)
    then show ?thesis using that Suc by blast
  qed (use fuel False in \<open>simp add: string_field_def\<close>)
  have "read_tag_unpack R (varint (8 * f + 2) @ varint (length s) @ s @ rest) = Some ((f, 2), varint (length s) @ s @ rest)"
    by (rule rt_readsD(1)[OF R]) (use f in auto)
  moreover have "merge_field R f 2 t (varint (length s) @ s @ rest) = Some (upd s t, rest)"
    using rt_readsD(3)[OF R s] upd(1)[symmetric] by simp
  ultimately have "merge_from R (Suc n) t (varint (8 * f + 2) @ varint (length s) @ s @ rest) = merge_from R n (upd s t) rest"
    by (rule merge_from_step) simp
  then show ?thesis using n False by (auto simp: string_field_def)
qed

lemma Task_parse_bytes:
  assumes R: "rt_reads R" and m: "task_strings_ok m" "length (task_bytes m) < 2 ^ 32"
  shows "Task_parse R (task_bytes m) = Some m"
proof -
  let ?a = "string_field 2 (task_object_name m)" and ?b = "string_field 3 (task_data m)" and ?c = "string_field 4 (task_token m)"
  let ?t0 = "Task_new\<lparr>task_data_type := task_data_type m\<rparr>"
  let ?t1 = "?t0\<lparr>task_object_name := task_object_name m\<rparr>"
  let ?t2 = "?t1\<lparr>task_data := task_data m\<rparr>"
  have len: "length (task_object_name m) < 2 ^ 32" "length (task_data m) < 2 ^ 32" "length (task_token m) < 2 ^ 32"
    using m(2) by (auto simp: task_bytes_def string_field_def split: if_splits)
  have "\<exists>n0. length (?a @ ?b @ ?c) \<le> n0 \<and> Task_parse R (task_bytes m) = merge_from R n0 ?t0 (?a @ ?b @ ?c)"
  proof (cases "task_data_type m = 0")
    case True
    then show ?thesis by (auto simp: Task_parse_def task_bytes_def Task_new_def)
  next
    case False
    have tag: "varint (8 * 1 + 0) = [0x8]" by simp
    let ?v = "varint (int32_bits (task_data_type m))"
    have "read_tag_unpack R (varint (8 * 1 + 0) @ ?v @ ?a @ ?b @ ?c) = Some ((1, 0), ?v @ ?a @ ?b @ ?c)"
      by (rule rt_readsD(1)[OF R]) simp_all
    moreover have "merge_field R 1 0 Task_new (?v @ ?a @ ?b @ ?c) = Some (?t0, ?a @ ?b @ ?c)"
      using rt_readsD(2)[OF R] by (simp add: merge_field_def WireTypeVarint_def)
    ultimately have "merge_from R (Suc n) Task_new (varint (8 * 1 + 0) @ ?v @ ?a @ ?b @ ?c) = merge_from R n ?t0 (?a @ ?b @ ?c)" for n
      by (rule merge_from_step) simp
    then show ?thesis using False by (intro exI[of _ "length (?v @ ?a @ ?b @ ?c)"]) (simp add: Task_parse_def task_bytes_def tag)
  qed
  then obtain n0 where n0: "length (?a @ ?b @ ?c) \<le> n0" "Task_parse R (task_bytes m) = merge_from R n0 ?t0 (?a @ ?b @ ?c)" by blast
  obtain n1 where n1: "length (?b @ ?c) \<le> n1" "merge_from R n0 ?t0 (?a @ ?b @ ?c) = merge_from R n1 ?t1 (?b @ ?c)"
    using merge_string_field[OF R _ len(1) _ n0(1), where t = ?t0 and upd = "\<lambda>s t. t\<lparr>task_object_name := s\<rparr>"] m(1)
    by (auto simp: task_strings_ok_def merge_field_def Task_new_def)
  obtain n2 where n2: "length ?c \<le> n2" "merge_from R n1 ?t1 (?b @ ?c) = merge_from R n2 ?t2 ?c"
    using merge_string_field[OF R _ len(2) _ n1(1), where t = ?t1 and upd = "\<lambda>s t. t\<lparr>task_data := s\<rparr>"] m(1)
    by (auto simp: task_strings_ok_def merge_field_def Task_new_def)
  have "length (?c @ []) \<le> n2" using n2(1) by simp
  from merge_string_field[OF R _ len(3) _ this, where t = ?t2 and upd = "\<lambda>s t. t\<lparr>task_token := s\<rparr>"] m(1)
  have "merge_from R n2 ?t2 ?c = Some (?t2\<lparr>task_token := task_token m\<rparr>)"
    by (auto simp: task_strings_ok_def merge_field_def Task_new_def)
  then show ?thesis using n0 n1 n2 by (simp add: Task_new_def)
qed

subsection \<open>Properties of the pipe\<close>

text \<open>An instance of the functions of the protobuf crate, for the examples.\<close>

definition sample_rt :: protobuf_rt where
  "sample_rt = (let int32 = (\<lambda>f v. varint (8 * f) @ varint (int32_bits v)); int64 = (\<lambda>f v. varint (8 * f) @ varint (unat v));
       entries = (\<lambda>kvs. concat (map (\<lambda>(k, v). entry k v) kvs)) in
     \<lparr>value_size_int32 = (\<lambda>f v. of_nat (length (int32 f v))), value_size_int64 = (\<lambda>f v. of_nat (length (int64 f v))),
      compute_raw_varint32_size = (\<lambda>n. of_nat (length (varint (unat n)))), compute_map_size = (\<lambda>f kvs. of_nat (length (entries kvs))),
      write_int32 = int32, write_int64 = int64, write_tag = (\<lambda>f w. varint (8 * f + w)), write_raw_varint32 = (\<lambda>n. varint (unat n)),
      write_map = (\<lambda>f kvs. entries kvs),
      read_tag_unpack = (\<lambda>bs. map_option (\<lambda>(n, bs). ((n div 8, n mod 8), bs)) (decode_varint bs)),
      read_int32 = (\<lambda>bs. map_option (\<lambda>(n, bs). (of_nat n, bs)) (decode_varint bs)),
      read_proto3_string = (\<lambda>w bs. case decode_varint bs of None \<Rightarrow> None
        | Some (n, bs) \<Rightarrow> if w = 2 \<and> n \<le> length bs \<and> valid_utf8 (take n bs) then Some (take n bs, drop n bs) else None),
      read_unknown = (\<lambda>f w bs. None)\<rparr>)"

lemma sample_rt_writes: "rt_writes sample_rt"
  by (simp add: rt_writes_def sample_rt_def Let_def)

lemma sample_rt_reads: "rt_reads sample_rt"
proof -
  have "(of_nat (int32_bits v) :: i32) = v" for v
    using int32_bits_back[of v] int32_bits_bound[of v] by (simp add: unsigned_of_nat take_bit_nat_eq_self)
  moreover have "decode_varint (varint (8 * f + w) @ rest) = Some (8 * f + w, rest)" for f w rest by simp
  ultimately show ?thesis by (simp add: rt_reads_def sample_rt_def Let_def WireTypeLengthDelimited_def del: varint_small)
qed

definition sample_record :: "i64 \<Rightarrow> BridgeRecord" where
  "sample_record ts = \<lparr>br_data_type = 4000, br_timestamp = ts, br_data = Some \<lparr>pld_fields = [(ascii ''k'', ascii ''v'')]\<rparr>\<rparr>"

definition sample_pool :: "nat \<Rightarrow> EncodedRecord" where
  "sample_pool n = \<lparr>DataType = 0, Timestamp = 0, Data_array = [1, 2, 3, 4], Data_len = 0\<rparr>"

lemma sample_record_bytes:
  "Record_write_to sample_rt (sample_record 5) = [0x8, 0xa0, 0x1f, 0x10, 5, 0x1a, 8, 0xa, 6, 0xa, 1, 0x6b, 0x12, 1, 0x76]"
  "Record_write_to sample_rt (sample_record 0) = [0x8, 0xa0, 0x1f, 0x1a, 8, 0xa, 6, 0xa, 1, 0x6b, 0x12, 1, 0x76]"
  by code_simp+

lemma sample_record_size: "Record_compute_size sample_rt (sample_record 5) = 15"
  by (simp add: Record_size[OF sample_rt_writes] sample_record_bytes)

text \<open>C8: what a plugin sends arrives. When \<open>send_records\<close> and the flush succeed on a fresh client, the goroutine of the agent
  passes on exactly these records, in order, each with its data type, its timestamp and the encoding of its payload, and ends with the
  pipe; whatever the records that it reuses held before. Each record has a data type and a timestamp other than zero, a payload, and
  less than 4 GiB.\<close>

theorem records_reach_the_agent:
  assumes "pipe_lawful W contents" "contents (writer_pipe c) = []" "writer_buf c = []" "rt_writes R" "list_all (sendable R) recs"
    and "send_records W (Record_compute_size R) (Record_write_to R) recs c = (Inr (), c1)" "raw_flush W c1 = (Inr (), c2)"
  shows "\<exists>out. receive_loop pool 0 (contents (writer_pipe c2)) = (map Some out, False) \<and>
    map (\<lambda>r. (DataType r, Timestamp r, Data r)) out = map (delivered R) recs"
proof -
  have "client_stream contents c1 = wire_of (Record_compute_size R) (Record_write_to R) recs"
    using send_records_stream[OF assms(1), of c "Record_compute_size R" "Record_write_to R" recs] assms(2,3,6)
    by (auto simp: client_stream_def)
  moreover have "client_stream contents c2 = client_stream contents c1" "writer_buf c2 = []"
    using flush_stream[OF assms(1), of c1] assms(7) by (simp_all add: raw_flush_def)
  ultimately have "contents (writer_pipe c2) = wire_of (Record_compute_size R) (Record_write_to R) recs"
    by (simp add: client_stream_def)
  then show ?thesis using wire_received[OF assms(4,5), of pool 0] by simp
qed

theorem records_reach_the_agent_witness:
  "\<exists>out. receive_loop sample_pool 0 (u32_to_le_bytes 15 @ Record_write_to sample_rt (sample_record 5)) = (map Some out, False) \<and>
    map (\<lambda>r. (DataType r, Timestamp r, Data r)) out = map (delivered sample_rt) [sample_record 5]"
proof -
  let ?bytes = "u32_to_le_bytes 15 @ Record_write_to sample_rt (sample_record 5)"
  have send: "send_records sample_pipe (Record_compute_size sample_rt) (Record_write_to sample_rt) [sample_record 5]
      \<lparr>writer_buf = [], writer_pipe = [], reader_input = []\<rparr> = (Inr (), \<lparr>writer_buf = ?bytes, writer_pipe = [], reader_input = []\<rparr>)"
    by (simp add: client_eval sample_record_bytes sample_record_size)
  have flush: "raw_flush sample_pipe \<lparr>writer_buf = ?bytes, writer_pipe = [], reader_input = []\<rparr> =
      (Inr (), \<lparr>writer_buf = [], writer_pipe = ?bytes, reader_input = []\<rparr>)"
    by (simp add: raw_flush_def flush_buf_def sample_pipe_def sample_record_bytes)
  have "list_all (sendable sample_rt) [sample_record 5]"
    by (simp add: sendable_def sample_record_bytes) (simp add: sample_record_def)
  from records_reach_the_agent[OF sample_pipe_lawful _ _ sample_rt_writes this send flush, of sample_pool]
  show ?thesis by (simp only: id_apply Client.simps refl simp_thms)
qed

text \<open>C9: the tasks go the other way. The agent's encoder fills the buffer of the computed size exactly and without a panic, and the
  plugin receives the tasks that were sent, in order, when their strings are UTF-8 and each task has less than 4 GiB.\<close>

theorem tasks_reach_the_plugin:
  assumes "rt_reads R" "list_all (\<lambda>m. task_strings_ok m \<and> Task_Size m < 2 ^ 32) tasks"
  shows "\<exists>bs. send_tasks tasks = Inr bs \<and>
    receive_n (length tasks) (Task_parse R) (c\<lparr>reader_input := bs\<rparr>) = (Inr tasks, c\<lparr>reader_input := []\<rparr>)"
proof -
  let ?wire = "wire_of (\<lambda>m. of_nat (length (task_bytes m))) task_bytes tasks"
  have "send_tasks tasks = Inr ?wire"
    using assms(2) by (induction tasks) (simp_all add: wire_of_def task_frame_eq length_frame_of_def)
  moreover have "unat (of_nat (length (task_bytes m)) :: u32) = length (task_bytes m) \<and> Task_parse R (task_bytes m) = Some m"
    if "m \<in> set tasks" for m
  proof -
    have "task_strings_ok m" "Task_Size m < 2 ^ 32" using assms(2) that by (auto simp: list_all_iff)
    then show ?thesis using Task_parse_bytes[OF assms(1), of m] length_task_bytes[of m] by (simp add: unat_of_nat)
  qed
  ultimately show ?thesis
    using receive_n_wire[of tasks "\<lambda>m. of_nat (length (task_bytes m))" task_bytes "Task_parse R" "c\<lparr>reader_input := ?wire\<rparr>" "[]"] by simp
qed

definition sample_task :: BridgeTask where
  "sample_task = \<lparr>task_data_type = 6, task_object_name = ascii ''scanner'', task_data = [], task_token = ascii ''t''\<rparr>"

theorem tasks_reach_the_plugin_witness:
  "\<exists>bs. send_tasks [sample_task] = Inr bs \<and>
    receive_n (length [sample_task]) (Task_parse sample_rt) (\<lparr>writer_buf = [], writer_pipe = (), reader_input = []\<rparr>\<lparr>reader_input := bs\<rparr>) =
      (Inr [sample_task], \<lparr>writer_buf = [], writer_pipe = (), reader_input = []\<rparr>\<lparr>reader_input := []\<rparr>)"
proof (rule tasks_reach_the_plugin[OF sample_rt_reads])
  have "task_strings_ok sample_task \<and> Task_Size sample_task = 14" by code_simp
  then show "list_all (\<lambda>m. task_strings_ok m \<and> Task_Size m < 2 ^ 32) [sample_task]" by simp
qed

text \<open>C10: the frames that the driver plugin encodes itself are received as well: the agent gets the data type (its low 32
  bits), the timestamp and the payload, which decodes to the pairs of keys and values.\<close>

theorem driver_frame_reaches_the_agent:
  assumes "data_type \<noteq> 0" "timestamp \<noteq> 0" "keys \<noteq> []" "length keys \<le> length vals"
    and "length dst \<le> 2 ^ 32" "length (frame timestamp keys vals data_type) \<le> length dst"
  shows "\<exists>dst' n rec. protobuf_encode timestamp keys vals dst data_type = Inr (dst', n) \<and>
    ReceiveData pooled (take n dst' @ rest) = (Received (Some rec) None, rest) \<and>
    DataType rec = ucast data_type \<and> Timestamp rec = timestamp \<and> decode_map (Data rec) = Some (rev (zip keys vals))"
proof -
  let ?f = "frame timestamp keys vals data_type"
  let ?b = "three_fields (unat data_type) (unat timestamp) (map_bytes keys vals)"
  have f: "?f = length_frame_of ?b" by (simp only: frame_is_length_frame record_bytes_fields)
  have u: "unat w < 2 ^ 64" for w :: u64 using unsigned_less[of w, where 'a = nat] by simp
  have "length ?f = 4 + length ?b" by (simp add: f length_frame_of_def)
  then have "length ?b < 2 ^ 32" using assms(5,6) by simp
  from ReceiveData_fields[OF u[of data_type] u[of timestamp] this, of pooled rest] obtain rec where
    "ReceiveData pooled (?f @ rest) = (Received (Some rec) None, rest)" "DataType rec = ucast data_type" "Timestamp rec = timestamp"
    "Data rec = map_bytes keys vals" unfolding f by auto
  moreover have "protobuf_encode timestamp keys vals dst data_type = Inr (?f @ drop (length ?f) dst, length ?f)"
    using protobuf_encode_eq[OF assms(1-4), of dst] assms(5,6) by (simp add: Let_def)
  ultimately show ?thesis using decode_map_bytes by simp
qed

theorem driver_frame_reaches_the_agent_witness:
  "\<exists>dst' n rec. protobuf_encode 5 [ascii ''uid'', ascii ''exe''] [ascii ''0'', ascii ''/x''] (replicate 40 0xff) 59 = Inr (dst', n) \<and>
    ReceiveData (sample_pool 0) (take n dst' @ [7]) = (Received (Some rec) None, [7]) \<and>
    DataType rec = ucast (59 :: u64) \<and> Timestamp rec = 5 \<and>
    decode_map (Data rec) = Some (rev (zip [ascii ''uid'', ascii ''exe''] [ascii ''0'', ascii ''/x'']))"
proof -
  have "length (frame 5 [ascii ''uid'', ascii ''exe''] [ascii ''0'', ascii ''/x''] 59) = 31"
    by code_simp
  then show ?thesis by (intro driver_frame_reaches_the_agent) simp_all
qed

text \<open>C39: a record whose timestamp is zero is misread, because the encoder leaves the field out and the agent skips tags without looking
  at them. The agent takes the length of the payload for the timestamp, and the first entry of the payload without its header
  for the beginning of the data. A probe decides on its timestamp: \<open>make_record\<close> of the RASP plugin takes over the one in its message.\<close>

theorem zero_timestamp_is_misread:
  assumes "rt_writes R" "br_data_type r \<noteq> 0" "br_timestamp r = 0" "br_data r = Some v" "pld_fields v = (key, val) # kvs"
    and "length (Record_write_to R r) < 2 ^ 32"
  shows "\<exists>rec. ReceiveData pooled (u32_to_le_bytes (Record_compute_size R r) @ Record_write_to R r @ rest) = (Received (Some rec) None, rest) \<and>
    DataType rec = br_data_type r \<and> Timestamp rec = of_nat (length (Payload_write_to R v)) \<and>
    Payload_write_to R v = 0xa # varint (length (entry_body key val)) @ Data rec"
proof -
  let ?p = "Payload_write_to R v" and ?e = "length (entry_body key val)"
  define body where "body = entry_body key val @ concat (map (\<lambda>(k, v). entry k v) kvs)"
  have len: "length ?p < 2 ^ 32" using assms(4,6) by (simp add: Record_write_to_def)
  then have p: "?p = 0xa # varint ?e @ body"
    using rt_writesD(9)[OF assms(1), of "pld_fields v"] assms(5) by (simp add: Payload_write_to_def entry_def body_def)
  have "unat (Payload_compute_size R v) = length ?p"
    using len rt_writesD(8)[OF assms(1)] by (simp add: Payload_compute_size_def Payload_write_to_def unat_of_nat)
  then have w: "Record_write_to R r = 0x8 # varint (int32_bits (br_data_type r)) @ 0x1a # varint (length ?p) @ 0xa # varint ?e @ body"
    using assms(2-4) rt_writesD[OF assms(1)] p by (simp add: Record_write_to_def WireTypeLengthDelimited_def)
  have l: "length (Record_write_to R r) =
      3 + length (varint (int32_bits (br_data_type r))) + length (varint (length ?p)) + length (varint ?e) + length body"
    unfolding w by simp
  have bounds: "length ?p < 2 ^ 64" "?e < 2 ^ 64" using len p by (simp_all add: body_def)
  note header = ReceiveData_header[OF int32_bits_bound bounds assms(6) l, where pooled = pooled and a = "0x8" and b = "0x1a" and c = "0xa" and
      bs = "body @ rest", unfolded receive_payload_all]
  have bytes: "u32_to_le_bytes (Record_compute_size R r) @ Record_write_to R r @ rest =
      u32_to_le_bytes (of_nat (length (Record_write_to R r))) @ 0x8 # varint (int32_bits (br_data_type r)) @ 0x1a # varint (length ?p) @
        0xa # varint ?e @ body @ rest"
    unfolding Record_size[OF assms(1)] by (simp only: w append_assoc append_Cons)
  show ?thesis unfolding bytes header using p int32_bits_back by (simp add: Data_def)
qed

theorem zero_timestamp_is_misread_witness:
  "\<exists>rec. ReceiveData (sample_pool 0) (u32_to_le_bytes (Record_compute_size sample_rt (sample_record 0)) @
      Record_write_to sample_rt (sample_record 0) @ [7]) = (Received (Some rec) None, [7]) \<and> DataType rec = 4000 \<and> Timestamp rec = 8"
proof -
  have "Payload_write_to sample_rt \<lparr>pld_fields = [(ascii ''k'', ascii ''v'')]\<rparr> = [0xa, 6, 0xa, 1, 0x6b, 0x12, 1, 0x76]" by code_simp
  then show ?thesis
    using zero_timestamp_is_misread[OF sample_rt_writes, of "sample_record 0" "\<lparr>pld_fields = [(ascii ''k'', ascii ''v'')]\<rparr>" "ascii ''k''" "ascii ''v''" "[]"
      "sample_pool 0" "[7]"] sample_record_bytes(2)
    by (auto simp: sample_record_def)
qed

text \<open>C40: a record that is cut off, because the plugin ended in the middle of its payload, is passed on all the same. It has the announced length: the
  bytes that are missing are those that an earlier record left in the reused array, or zeros.\<close>

theorem cut_record_is_delivered:
  assumes "dt < 2 ^ 64" "ts < 2 ^ 64" "length (three_fields dt ts (sent_part @ missing)) < 2 ^ 32" "sent_part \<noteq> []" "missing \<noteq> []"
    and "length_frame_of (three_fields dt ts (sent_part @ missing)) = arrived @ missing"
  shows "\<exists>rec. receive_loop pool n arrived = ([Some rec], False) \<and> DataType rec = ucast (of_nat dt :: u64) \<and> Timestamp rec = of_nat ts \<and>
    Data rec = sent_part @ (if length (Data_array (pool n)) < length (sent_part @ missing) then replicate (length missing) 0
      else take (length missing) (drop (length sent_part) (Data_array (pool n))))"
proof -
  let ?p = "sent_part @ missing"
  let ?l = "length (three_fields dt ts ?p)"
  have l: "?l = 3 + length (varint dt) + length (varint ts) + length (varint (length ?p)) + length ?p"
    by (simp add: three_fields_def)
  then have bound: "length ?p < 2 ^ 64" using assms(3) by simp
  have arrived: "arrived = u32_to_le_bytes (of_nat ?l) @ 0x8 # varint dt @ 0x10 # varint ts @ 0x1a # varint (length ?p) @ sent_part"
  proof -
    have "length_frame_of (three_fields dt ts ?p) =
        (u32_to_le_bytes (of_nat ?l) @ 0x8 # varint dt @ 0x10 # varint ts @ 0x1a # varint (length ?p) @ sent_part) @ missing"
      by (simp only: length_frame_of_def) (simp only: three_fields_def append_assoc append_Cons)
    then show ?thesis unfolding assms(6) by simp
  qed
  note header = ReceiveData_header[OF assms(1,2) bound assms(3) l, where pooled = "pool n" and a = "0x8" and b = "0x10" and c = "0x1a" and bs = sent_part]
  obtain rec where rec: "ReceiveData (pool n) arrived = (Received (Some rec) (Some UnexpectedEOF), [])"
    "DataType rec = ucast (of_nat dt :: u64)" "Timestamp rec = of_nat ts"
    "Data rec = sent_part @ (if length (Data_array (pool n)) < length ?p then replicate (length missing) 0
      else take (length missing) (drop (length sent_part) (Data_array (pool n))))"
  proof -
    let ?rec = "(pool n)\<lparr>DataType := ucast (of_nat dt :: u64), Timestamp := of_nat ts\<rparr>"
    have "length sent_part < length ?p" using assms(5) by simp
    from receive_payload_cut[OF this assms(4), of ?rec] obtain rec where
      "receive_payload ?rec (int (length ?p)) sent_part = (Received (Some rec) (Some UnexpectedEOF), [])"
      "DataType rec = DataType ?rec" "Timestamp rec = Timestamp ?rec"
      "Data rec = sent_part @ (if length (Data_array ?rec) < length ?p then replicate (length ?p - length sent_part) 0
         else take (length ?p - length sent_part) (drop (length sent_part) (Data_array ?rec)))" .
    then show ?thesis using that[of rec] unfolding arrived header by simp
  qed
  have "receive_loop pool (n + 1) [] = ([], False)" by (subst receive_loop.simps) (simp add: ReceiveData_closed)
  then have "receive_loop pool n arrived = ([Some rec], False)" by (subst receive_loop.simps) (simp add: rec(1))
  then show ?thesis using rec(2-4) by blast
qed

theorem cut_record_is_delivered_witness:
  "\<exists>rec. receive_loop sample_pool 0 (u32_to_le_bytes 9 @ [0x8, 6, 0x10, 5, 0x1a, 3, 9]) = ([Some rec], False) \<and> Data rec = [9, 2, 3]"
proof -
  have "three_fields 6 5 ([9] @ [9, 9]) = [0x8, 6, 0x10, 5, 0x1a, 3, 9, 9, 9]" by code_simp
  then show ?thesis
    using cut_record_is_delivered[of 6 5 "[9]" "[9, 9]" "u32_to_le_bytes 9 @ [0x8, 6, 0x10, 5, 0x1a, 3, 9]" sample_pool 0]
    by (auto simp: length_frame_of_def sample_pool_def)
qed

end
