(* ===== verification/Driver_Filters.thy ===== *)
theory Driver_Filters
  imports Driver_Outcome
begin

section \<open>Filtering noisy executables and command lines\<close>

text \<open>
  The counters of the transformer and the kernel's allowlists together. The locale \<open>driver_invariant\<close> is
  interpreted with an invariant that ties the exe queue to the kernel; from it follows what a
  sequence of records, mixed with rounds of the thread \<open>ttl_filters\<close>, can do to the filters.
\<close>

subsection \<open>Sequences of records\<close>

fun transform_all ::
  "('l, 'r, 'c, 'f, 'w) env \<Rightarrow> bytes \<Rightarrow> bytes list \<Rightarrow> ('l, 'r, 'c, 'f, 'w) driver \<Rightarrow> ('l, 'r, 'c, 'f, 'w) driver" where
  "transform_all E dst [] s = s"
| "transform_all E dst (data # datas) s = transform_all E dst datas (snd (transform E data dst s))"

text \<open>What the crate \<^verbatim>\<open>ttl_cache\<close> documents for a cache nothing was inserted into: \<open>P\<close> holds of a new cache,
  and looking up a key in such a cache finds nothing and does not change that.\<close>

definition ttl_fresh :: "('l, 'r, 'c, 'f, 'w) env \<Rightarrow> ('c \<Rightarrow> bool) \<Rightarrow> bool" where
  "ttl_fresh E P \<longleftrightarrow> (\<forall>n. P (ttl_new E n)) \<and>
     (\<forall>c k w. P c \<longrightarrow> (\<exists>c' w'. ttl_get_mut E c k w = (None, c', w') \<and> P c'))"

definition filter_inv ::
  "('l, 'r, 'c, 'f, 'w) env \<Rightarrow> ('c \<Rightarrow> bool) \<Rightarrow> ('l, 'r, 'c, 'f, 'w) driver \<Rightarrow> bool" where
  "filter_inv E P s \<longleftrightarrow> ttl_fresh E P \<and> P (argv_filter (transformer s)) \<and> exe_inv (kmod_of s) \<and>
     execve_argv_allowlist (kernel_view (kmod_of s)) = {}"

lemma add_exe_keeps_argv_allowlist:
  assumes "controler k = Some c" "add_filtered_exe now exe k = Inr k'"
  shows "execve_argv_allowlist (kernel_view k') = execve_argv_allowlist (kernel_view k)"
  using assms(1)
  by (cases rule: add_filtered_exe_cases[where now = now and x = exe])
     (use assms(2) in \<open>simp_all add: replay_Cons message_def device_write_argv\<close>)

lemma filter_inv_add_exe:
  assumes "filter_inv E P s"
  shows "\<exists>k. add_filtered_exe now exe (kmod_of s) = Inr k \<and> filter_inv E P (s\<lparr>kmod_of := k\<rparr>)"
proof -
  have inv: "exe_inv (kmod_of s)" using assms by (simp add: filter_inv_def)
  obtain k where k: "add_filtered_exe now exe (kmod_of s) = Inr k" "exe_inv k"
    using exe_inv_step[OF inv, of "AddExe now exe"] by (auto simp: exe_only_def)
  obtain c where "controler (kmod_of s) = Some c" using inv by (auto simp: exe_inv_def exe_sync_def)
  then show ?thesis
    using add_exe_keeps_argv_allowlist k assms by (auto simp: filter_inv_def)
qed

lemma total_argv_filter_count_fresh: "total (filter_inv E P) (argv_filter_count E argv)"
proof -
  have "\<exists>x. fst (argv_filter_count E argv s) = Inr x" "filter_inv E P (snd (argv_filter_count E argv s))"
    if s: "filter_inv E P s" for s
  proof -
    obtain c w where c: "ttl_get_mut E (argv_filter (transformer s)) argv (world s) = (None, c, w)" "P c"
      using s unfolding filter_inv_def ttl_fresh_def by blast
    then show "\<exists>x. fst (argv_filter_count E argv s) = Inr x" "filter_inv E P (snd (argv_filter_count E argv s))"
      using s by (auto simp: argv_filter_count_def argv_filter_get_mut_def exe_filter_insert_def
          pure_st_def bind_st_def filter_inv_def split: prod.splits)
  qed
  then show ?thesis unfolding total_def by (intro outcomeI) blast
qed

interpretation filters: driver_invariant E "filter_inv E P"
  for E :: "('l, 'r, 'c, 'f, 'w) env" and P :: "'c \<Rightarrow> bool"
  by unfold_locales (auto simp: filter_inv_add_exe total_argv_filter_count_fresh, auto simp: filter_inv_def)

lemma transform_all_inv: "filter_inv E P s \<Longrightarrow> filter_inv E P (transform_all E dst datas s)"
  by (induction datas arbitrary: s) (simp_all add: filters.inv_transform)

lemma filter_inv_new:
  "ttl_fresh E P \<Longrightarrow> filter_inv E P \<lparr>transformer = Transformer_new E, kmod_of = kmod_init, world = w\<rparr>"
  using exe_inv_init
  by (simp add: filter_inv_def Transformer_new_def ttl_fresh_def kernel_view_def kmod_init_def lkm_init_def)

text \<open>C30: the filter on command lines never works. The counter that should trigger it is put into the
  wrong cache, so that whatever records come in, starting from a new transformer, no command line is
  ever queued and the kernel's allowlist of command lines stays empty.\<close>

theorem argv_filter_is_dead:
  assumes "ttl_fresh E P"
  shows "let s = transform_all E dst datas \<lparr>transformer = Transformer_new E, kmod_of = kmod_init, world = w\<rparr>
    in filtered_argv_entries (kmod_of s) = [] \<and> execve_argv_allowlist (kernel_view (kmod_of s)) = {}"
  using transform_all_inv[OF filter_inv_new[OF assms, of w], of dst datas]
  by (simp add: filter_inv_def exe_inv_def Let_def)

lemma sample_ttl_fresh: "ttl_fresh sample_env (\<lambda>c. c = [])"
  by (simp add: ttl_fresh_def)

theorem argv_filter_is_dead_witness:
  "let s = transform_all sample_env [] [ascii ''59'' @ [0x1e] @ ascii ''0'']
      \<lparr>transformer = Transformer_new sample_env, kmod_of = kmod_init, world = 0\<rparr>
    in filtered_argv_entries (kmod_of s) = [] \<and> execve_argv_allowlist (kernel_view (kmod_of s)) = {}"
  by (rule argv_filter_is_dead[OF sample_ttl_fresh])

text \<open>Whatever records come in, starting from a new transformer, the exe queue holds at most 129 entries
  and every executable that the kernel filters has an entry in it.\<close>

theorem exe_filters_stay_bounded:
  assumes "ttl_fresh E P"
  shows "let s = transform_all E dst datas \<lparr>transformer = Transformer_new E, kmod_of = kmod_init, world = w\<rparr>
    in length (filtered_exe_entries (kmod_of s)) \<le> 129 \<and>
       execve_exe_allowlist (kernel_view (kmod_of s)) \<subseteq> filtered_names (filtered_exe_entries (kmod_of s)) \<and>
       card (execve_exe_allowlist (kernel_view (kmod_of s))) \<le> 129"
  using transform_all_inv[OF filter_inv_new[OF assms, of w], of dst datas] lkm_inv_view
  by (auto simp: filter_inv_def exe_inv_def exe_sync_def Let_def lkm_inv_def)

theorem exe_filters_stay_bounded_witness:
  "let s = transform_all sample_env [] [ascii ''59'' @ [0x1e] @ ascii ''0'']
      \<lparr>transformer = Transformer_new sample_env, kmod_of = kmod_init, world = 0\<rparr>
    in length (filtered_exe_entries (kmod_of s)) \<le> 129 \<and>
       execve_exe_allowlist (kernel_view (kmod_of s)) \<subseteq> filtered_names (filtered_exe_entries (kmod_of s)) \<and>
       card (execve_exe_allowlist (kernel_view (kmod_of s))) \<le> 129"
  by (rule exe_filters_stay_bounded[OF sample_ttl_fresh])


subsection \<open>Records and expiry\<close>

text \<open>The thread that transforms records and the thread \<open>ttl_filters\<close>, in any order of their rounds. A round of the one holds the
  lock on the exe queue whenever it changes it, as does a request of the other.\<close>

datatype driver_event = DriverRecord bytes | TtlRound "nat \<Rightarrow> nat"

fun driver_run ::
  "('l, 'r, 'c, 'f, 'w) env \<Rightarrow> bytes \<Rightarrow> driver_event list \<Rightarrow> ('l, 'r, 'c, 'f, 'w) driver \<Rightarrow> ('l, 'r, 'c, 'f, 'w) driver" where
  "driver_run E dst [] s = s"
| "driver_run E dst (DriverRecord data # es) s = driver_run E dst es (snd (transform E data dst s))"
| "driver_run E dst (TtlRound clock # es) s = driver_run E dst es (s\<lparr>kmod_of := ttl_filters clock (kmod_of s)\<rparr>)"

lemma ttl_exe_loop_argv:
  "ttl_exe_loop clock i q (Some c) = (q', c', i') \<Longrightarrow>
     \<exists>d. c' = Some d \<and> execve_argv_allowlist (replay d lkm_init) = execve_argv_allowlist (replay c lkm_init)"
proof (induction q arbitrary: i c)
  case (Cons e q)
  obtain t x where e: "e = (t, x)" by fastforce
  have ctl: "control c REMOVE_EXE_FILTER_FLAG x = c @ [message 70 x]"
    by (simp add: control_def flag_defs message_def)
  have "execve_argv_allowlist (replay (c @ [message 70 x]) lkm_init) = execve_argv_allowlist (replay c lkm_init)"
    by (simp add: replay_Cons message_def device_write_argv)
  then show ?case using Cons.IH[of "i + 1" "c @ [message 70 x]"] Cons.prems e ctl by (auto split: if_splits)
qed auto

lemma filter_inv_ttl:
  assumes "filter_inv E P s"
  shows "filter_inv E P (s\<lparr>kmod_of := ttl_filters clock (kmod_of s)\<rparr>)"
proof -
  let ?k = "kmod_of s"
  have inv: "exe_inv ?k" "execve_argv_allowlist (kernel_view ?k) = {}" using assms by (simp_all add: filter_inv_def)
  then have "exe_inv (ttl_filters clock ?k)" using exe_inv_step[of ?k "Ttl clock"] by (simp add: exe_only_def)
  moreover obtain c where c: "controler ?k = Some c" "filtered_argv_entries ?k = []"
    using inv(1) by (auto simp: exe_inv_def exe_sync_def)
  obtain q c' i where l: "ttl_exe_loop clock 0 (filtered_exe_entries ?k) (Some c) = (q, c', i)" by (metis prod_cases3)
  then have "execve_argv_allowlist (kernel_view (ttl_filters clock ?k)) = {}"
    using ttl_exe_loop_argv[OF l] c inv(2) by (auto simp: ttl_filters_def kernel_view_def)
  ultimately show ?thesis using assms by (simp add: filter_inv_def)
qed

lemma driver_run_inv: "filter_inv E P s \<Longrightarrow> filter_inv E P (driver_run E dst es s)"
  by (induction E dst es s rule: driver_run.induct) (simp_all add: filters.inv_transform filter_inv_ttl)

text \<open>C11: a request for an executable takes effect. After any records and any expiry rounds, starting from a new transformer, the
  request does not panic and puts the name of the executable on the kernel's allowlist, which has room for it because the exe queue
  never holds more than its 129 entries. The path must have 3 to 4088 bytes, for the device ignores other messages; where
  it has no NUL and no white space at its ends, so that the kernel takes over its name unchanged, the kernel's check finds it.\<close>

theorem exe_filter_takes_effect:
  assumes "ttl_fresh E P" "msg_ok exe"
  shows "let s = driver_run E dst es \<lparr>transformer = Transformer_new E, kmod_of = kmod_init, world = w\<rparr> in
    \<exists>k. add_filtered_exe now exe (kmod_of s) = Inr k \<and> length (filtered_exe_entries k) \<le> 129 \<and>
      kname exe \<in> execve_exe_allowlist (kernel_view k) \<and> (kname exe = exe \<longrightarrow> execve_exe_check exe (kernel_view k))"
proof -
  let ?s = "driver_run E dst es \<lparr>transformer = Transformer_new E, kmod_of = kmod_init, world = w\<rparr>"
  have inv: "exe_inv (kmod_of ?s)"
    using driver_run_inv[OF filter_inv_new[OF assms(1), of w], of dst es] by (simp add: filter_inv_def)
  obtain k where k: "add_filtered_exe now exe (kmod_of ?s) = Inr k" "exe_inv k"
    using exe_inv_step[OF inv, of "AddExe now exe"] by (auto simp: exe_only_def)
  have listed: "kname exe \<in> execve_exe_allowlist (kernel_view k)" using add_exe_effective[OF inv assms(2) k(1)] .
  have "length exe \<noteq> 2" using assms(2) by (simp add: msg_ok_def)
  then have "exe \<noteq> ascii ''-1''" "exe \<noteq> ascii ''-2''" by auto
  then show ?thesis using k listed by (auto simp: Let_def exe_inv_def execve_exe_check_def simp del: ascii_Cons)
qed

theorem exe_filter_takes_effect_witness:
  "let s = driver_run sample_env [] [DriverRecord (ascii ''59'' @ [0x1e] @ ascii ''0''), TtlRound (\<lambda>_. 700)]
      \<lparr>transformer = Transformer_new sample_env, kmod_of = kmod_init, world = 0\<rparr> in
    \<exists>k. add_filtered_exe 701 (ascii ''/opt/b'') (kmod_of s) = Inr k \<and> execve_exe_check (ascii ''/opt/b'') (kernel_view k)"
proof -
  have "kname (ascii ''/opt/b'') = ascii ''/opt/b''" "msg_ok (ascii ''/opt/b'')" by code_simp+
  then show ?thesis
    using exe_filter_takes_effect[OF sample_ttl_fresh, of "ascii ''/opt/b''" "[]" "[DriverRecord (ascii ''59'' @ [0x1e] @ ascii ''0''), TtlRound (\<lambda>_. 700)]" 0 701]
    unfolding Let_def by blast
qed

end
