(* ===== verification/Driver_Locks.thy ===== *)
theory Driver_Locks
  imports Main
begin

section \<open>The locks of the kernel module filters\<close>

text \<open>
  The three mutexes of \<open>Kmod\<close> in \<^verbatim>\<open>src/plugins/driver/src/kmod.rs\<close> and the order in which its methods and
  threads take them. A thread is the list of lock operations it still has to do; guards are released in
  the reverse order of their declaration. The step relation lets any thread take its next step; a lock
  that is taken blocks. The general result is that threads which respect an order of the locks do
  not deadlock; the threads of the plugin do not all respect one.
\<close>

subsection \<open>Locks and threads\<close>

datatype lock = ExeEntries | ArgvEntries | Controler

datatype lock_action = Acquire lock | Release lock

record lock_state =
  todo :: "nat \<Rightarrow> lock_action list"
  owner :: "lock \<Rightarrow> nat option"

inductive lock_step :: "lock_state \<Rightarrow> lock_state \<Rightarrow> bool" where
  acquire: "todo s i = Acquire l # p \<Longrightarrow> owner s l = None \<Longrightarrow>
    lock_step s (s\<lparr>todo := (todo s)(i := p), owner := (owner s)(l \<mapsto> i)\<rparr>)"
| release: "todo s i = Release l # p \<Longrightarrow> owner s l = Some i \<Longrightarrow>
    lock_step s (s\<lparr>todo := (todo s)(i := p), owner := (owner s)(l := None)\<rparr>)"

inductive_cases lock_stepE: "lock_step s s'"

definition deadlocked :: "lock_state \<Rightarrow> bool" where
  "deadlocked s \<longleftrightarrow> (\<exists>i. todo s i \<noteq> []) \<and> \<not> (\<exists>s'. lock_step s s')"

text \<open>\<open>add_filtered_exe\<close>, \<open>add_filtered_argv\<close>, a round of \<open>ttl_filters\<close> that finds \<open>n\<close> expired executables and \<open>m\<close>
  expired command lines, and a round of \<open>heartbeat\<close>.\<close>

definition add_filtered_exe_locks :: "lock_action list" where
  "add_filtered_exe_locks = [Acquire Controler, Acquire ExeEntries, Release ExeEntries, Release Controler]"

definition add_filtered_argv_locks :: "lock_action list" where
  "add_filtered_argv_locks = [Acquire Controler, Acquire ArgvEntries, Release ArgvEntries, Release Controler]"

definition ttl_filters_locks :: "nat \<Rightarrow> nat \<Rightarrow> lock_action list" where
  "ttl_filters_locks n m =
     Acquire ExeEntries # concat (replicate n [Acquire Controler, Release Controler]) @
     Acquire ArgvEntries # concat (replicate m [Acquire Controler, Release Controler]) @
     [Release ArgvEntries, Release ExeEntries]"

definition heartbeat_locks :: "lock_action list" where
  "heartbeat_locks = [Acquire ExeEntries, Acquire ArgvEntries, Release ArgvEntries, Release ExeEntries]"

definition start :: "(nat \<Rightarrow> lock_action list) \<Rightarrow> lock_state" where
  "start ts = \<lparr>todo = ts, owner = (\<lambda>_. None)\<rparr>"

subsection \<open>Ordered threads do not deadlock\<close>

fun rank :: "lock \<Rightarrow> nat" where
  "rank ExeEntries = 0" | "rank ArgvEntries = 1" | "rank Controler = 2"

fun ordered :: "lock set \<Rightarrow> lock_action list \<Rightarrow> bool" where
  "ordered held [] \<longleftrightarrow> held = {}"
| "ordered held (Acquire l # p) \<longleftrightarrow> (\<forall>h \<in> held. rank h < rank l) \<and> ordered (insert l held) p"
| "ordered held (Release l # p) \<longleftrightarrow> l \<in> held \<and> ordered (held - {l}) p"

definition held_by :: "lock_state \<Rightarrow> nat \<Rightarrow> lock set" where
  "held_by s i = {l. owner s l = Some i}"

definition all_ordered :: "lock_state \<Rightarrow> bool" where
  "all_ordered s \<longleftrightarrow> (\<forall>i. ordered (held_by s i) (todo s i))"

lemma all_ordered_step:
  assumes "lock_step s s'" "all_ordered s"
  shows "all_ordered s'"
  using assms
proof (induction rule: lock_step.induct)
  case (acquire s i l p)
  let ?s' = "s\<lparr>todo := (todo s)(i := p), owner := (owner s)(l \<mapsto> i)\<rparr>"
  have h: "held_by ?s' j = (if j = i then insert l (held_by s i) else held_by s j)" for j
    using acquire(2) by (auto simp: held_by_def)
  have "ordered (insert l (held_by s i)) p"
    using acquire(1,3) unfolding all_ordered_def by (metis ordered.simps(2))
  then show ?case using acquire(3) by (simp add: all_ordered_def h)
next
  case (release s i l p)
  let ?s' = "s\<lparr>todo := (todo s)(i := p), owner := (owner s)(l := None)\<rparr>"
  have h: "held_by ?s' j = (if j = i then held_by s i - {l} else held_by s j)" for j
    using release(2) by (auto simp: held_by_def)
  have "ordered (held_by s i - {l}) p"
    using release(1,3) unfolding all_ordered_def by (metis ordered.simps(3))
  then show ?case using release(3) by (simp add: all_ordered_def h)
qed

lemma blocked_on_higher:
  assumes "all_ordered s" "\<not> (\<exists>s'. lock_step s s')" "todo s i \<noteq> []"
  obtains l p j where "todo s i = Acquire l # p" "owner s l = Some j" "todo s j \<noteq> []"
    "\<forall>h \<in> held_by s i. rank h < rank l"
proof -
  have oi: "ordered (held_by s i) (todo s i)" using assms(1) by (simp add: all_ordered_def)
  show ?thesis
  proof (cases "todo s i")
    case (Cons a p)
    show ?thesis
    proof (cases a)
      case (Release l)
      then have "owner s l = Some i" using oi Cons by (simp add: held_by_def)
      then show ?thesis using lock_step.release[of s i l p] Cons Release assms(2) by blast
    next
      case (Acquire l)
      then obtain j where j: "owner s l = Some j"
        using lock_step.acquire[of s i l p] Cons assms(2) by fastforce
      have "ordered (held_by s j) (todo s j)" using assms(1) by (simp add: all_ordered_def)
      then have "todo s j \<noteq> []" using j by (auto simp: held_by_def)
      then show ?thesis using that j Cons Acquire oi by auto
    qed
  qed (use assms(3) in simp)
qed

lemma all_ordered_progress:
  assumes "all_ordered s" "todo s i \<noteq> []"
  shows "\<exists>s'. lock_step s s'"
proof (rule ccontr)
  assume stuck: "\<not> (\<exists>s'. lock_step s s')"
  have "\<exists>j l p. todo s j = Acquire l # p \<and> n \<le> rank l" for n
  proof (induction n)
    case 0
    obtain l p j where "todo s i = Acquire l # p"
      by (rule blocked_on_higher[OF assms(1) stuck assms(2)])
    then show ?case by auto
  next
    case (Suc n)
    then obtain j l p where j: "todo s j = Acquire l # p" "n \<le> rank l" by blast
    have "todo s j \<noteq> []" using j(1) by simp
    then obtain l1 p1 j' where b: "todo s j = Acquire l1 # p1" "owner s l1 = Some j'" "todo s j' \<noteq> []"
      by (rule blocked_on_higher[OF assms(1) stuck])
    obtain l' p' j2 where l': "todo s j' = Acquire l' # p'" "\<forall>h \<in> held_by s j'. rank h < rank l'"
      by (rule blocked_on_higher[OF assms(1) stuck b(3)])
    have "l \<in> held_by s j'" using b(1,2) j(1) by (simp add: held_by_def)
    then have "Suc n \<le> rank l'" using l'(2) j(2) by fastforce
    then show ?case using l'(1) by auto
  qed
  from this[of 3] obtain j l p where "todo s j = Acquire l # p" "3 \<le> rank l" by auto
  then show False by (cases l) simp_all
qed

lemma ordered_controler_loop:
  "\<forall>h \<in> held. rank h < 2 \<Longrightarrow>
   ordered held (concat (replicate n [Acquire Controler, Release Controler]) @ p) = ordered held p"
proof (induction n)
  case (Suc n)
  then have "insert Controler held - {Controler} = held" by fastforce
  then show ?case using Suc by simp
qed simp

lemma ordered_ttl_filters: "ordered {} (ttl_filters_locks n m)"
  by (simp add: ttl_filters_locks_def ordered_controler_loop insert_commute insert_Diff_if)

lemma ordered_heartbeat: "ordered {} heartbeat_locks"
  by (simp add: heartbeat_locks_def insert_Diff_if)

subsection \<open>Properties of the locking\<close>

text \<open>C31: the plugin can deadlock. While the transformer is in \<open>add_filtered_exe\<close> (it has the control device
  and wants the queue), a round of \<open>ttl_filters\<close> that found an expired executable has the queue and wants the
  control device: a state is reachable in which both wait for each other for ever.\<close>

theorem kmod_locks_deadlock:
  "\<exists>s. lock_step\<^sup>*\<^sup>* (start (\<lambda>i. if i = 0 then add_filtered_exe_locks else if i = 1 then ttl_filters_locks (Suc n) m else [])) s \<and>
     deadlocked s \<and> owner s Controler = Some 0 \<and> owner s ExeEntries = Some 1"
proof -
  let ?ttl = "Acquire Controler # Release Controler # concat (replicate n [Acquire Controler, Release Controler]) @
     Acquire ArgvEntries # concat (replicate m [Acquire Controler, Release Controler]) @
     [Release ArgvEntries, Release ExeEntries]"
  let ?exe = "[Acquire ExeEntries, Release ExeEntries, Release Controler]"
  let ?s0 = "start (\<lambda>i. if i = 0 then add_filtered_exe_locks else if i = 1 then ttl_filters_locks (Suc n) m else [])"
  let ?s1 = "?s0\<lparr>todo := (todo ?s0)(0 := ?exe), owner := (owner ?s0)(Controler \<mapsto> 0)\<rparr>"
  let ?s2 = "?s1\<lparr>todo := (todo ?s1)(1 := ?ttl), owner := (owner ?s1)(ExeEntries \<mapsto> 1)\<rparr>"
  have "lock_step ?s0 ?s1"
    by (rule lock_step.acquire) (simp_all add: start_def add_filtered_exe_locks_def)
  moreover have "lock_step ?s1 ?s2"
    by (rule lock_step.acquire) (simp_all add: start_def ttl_filters_locks_def)
  moreover have "deadlocked ?s2"
    by (auto simp: deadlocked_def start_def add_filtered_exe_locks_def elim!: lock_stepE split: if_splits)
  ultimately show ?thesis
    by (intro exI[of _ ?s2]) (auto simp: start_def intro: rtranclp.rtrancl_into_rtrancl)
qed

text \<open>The background threads alone cannot deadlock: any number of rounds of \<open>ttl_filters\<close> and \<open>heartbeat\<close>
  take the locks in one order, so that from every reachable state some thread can go on until all are
  done.\<close>

theorem background_threads_do_not_deadlock:
  assumes "\<forall>i. ts i = [] \<or> ts i = heartbeat_locks \<or> (\<exists>n m. ts i = ttl_filters_locks n m)"
    and "lock_step\<^sup>*\<^sup>* (start ts) s"
  shows "\<not> deadlocked s"
proof -
  have "ordered {} (ts i)" for i
    using assms(1) ordered_heartbeat ordered_ttl_filters by (metis ordered.simps(1))
  then have "all_ordered (start ts)" by (simp add: all_ordered_def start_def held_by_def)
  with assms(2) have "all_ordered s"
    by (induction rule: rtranclp_induct) (auto intro: all_ordered_step)
  then show ?thesis using all_ordered_progress by (auto simp: deadlocked_def)
qed

theorem background_threads_do_not_deadlock_witness:
  "\<not> deadlocked (start (\<lambda>i. if i = 0 then heartbeat_locks else if i = 1 then ttl_filters_locks 2 1 else []))"
  by (rule background_threads_do_not_deadlock[OF _ rtranclp.rtrancl_refl]) auto

end
