(* ===== verification/Driver_Install.thy ===== *)
theory Driver_Install
  imports Driver_Kmod
begin

section \<open>Fetching and loading the kernel module\<close>

text \<open>
  \<open>download\<close> of \<^verbatim>\<open>src/plugins/driver/src/utils.rs\<close>, and \<open>check_crash\<close>, \<open>Kmod::install\<close> and \<open>Kmod::new\<close> of
  \<^verbatim>\<open>src/plugins/driver/src/kmod.rs\<close>. The HTTP client, the hash, the hexadecimal decoder and the system are
  the fields of the record \<open>sys\<close>; the world \<open>'w\<close> carries their effects. An HTTP exchange that fails has
  no status; an answer has a status, and its body may fail to arrive. Of an error text only the
  constant part is kept: the content of the crash file, the error of the system and the output of
  \<^verbatim>\<open>insmod\<close> that the code appends to it are left out. Log lines are left out.
\<close>

subsection \<open>The system\<close>

datatype http = HttpFailed | HttpAnswer nat "bytes option"

record 'w sys =
  http_get :: "bytes \<Rightarrow> 'w \<Rightarrow> http \<times> 'w"
  sha256 :: "bytes \<Rightarrow> bytes"
  hex_decode :: "bytes \<Rightarrow> bytes option"
  file_create :: "bytes \<Rightarrow> 'w \<Rightarrow> nat option \<times> 'w"
  file_write_all :: "nat \<Rightarrow> bytes \<Rightarrow> 'w \<Rightarrow> bool \<times> 'w"
  file_sync_all :: "nat \<Rightarrow> 'w \<Rightarrow> bool \<times> 'w"
  read_to_string :: "bytes \<Rightarrow> 'w \<Rightarrow> bytes option \<times> 'w"
  crash_files :: "'w \<Rightarrow> (bytes \<times> nat option \<times> bytes option) list"
  open_control :: "'w \<Rightarrow> bool \<times> 'w"
  control_write :: "bytes \<Rightarrow> 'w \<Rightarrow> 'w"
  delete_module :: "bytes \<Rightarrow> 'w \<Rightarrow> bool \<times> 'w"
  uname_release :: bytes
  arch :: bytes
  modinfo :: "bytes \<Rightarrow> 'w \<Rightarrow> (bool \<times> bytes) option \<times> 'w"
  open_file :: "bytes \<Rightarrow> 'w \<Rightarrow> nat option \<times> 'w"
  finit_module :: "nat \<Rightarrow> 'w \<Rightarrow> bool \<times> 'w"
  insmod :: "bytes \<Rightarrow> 'w \<Rightarrow> (bool \<times> bytes) option \<times> 'w"
  sleep_secs :: "nat \<Rightarrow> 'w \<Rightarrow> 'w"

subsection \<open>Downloading\<close>

definition DOWNLOAD_HOSTS :: "bytes list" where
  "DOWNLOAD_HOSTS = map ascii
     [''https://lf3-elkeid.bytetos.com/obj/elkeid-download/ko/'',
      ''https://lf6-elkeid.bytetos.com/obj/elkeid-download/ko/'',
      ''https://lf9-elkeid.bytetos.com/obj/elkeid-download/ko/'',
      ''https://lf26-elkeid.bytetos.com/obj/elkeid-download/ko/'']"

definition is_success :: "nat \<Rightarrow> bool" where
  "is_success status \<longleftrightarrow> 200 \<le> status \<and> status < 300"

text \<open>\<open>content.error_for_status().unwrap_err()\<close>: there is an error only for the statuses 400 to 599.\<close>

definition status_error :: "nat \<Rightarrow> error res" where
  "status_error status = (if 400 \<le> status \<and> status < 600 then Inr (HttpError (Some status)) else Inl Panic)"

definition store_file :: "'w sys \<Rightarrow> bytes \<Rightarrow> bytes \<Rightarrow> 'w \<Rightarrow> unit res \<times> 'w" where
  "store_file S dst contents w =
     (case file_create S dst w of
        (None, w) \<Rightarrow> (Inl (Err IoError), w)
      | (Some fd, w) \<Rightarrow>
          (case file_write_all S fd contents w of
             (False, w) \<Rightarrow> (Inl (Err IoError), w)
           | (True, w) \<Rightarrow>
               (case file_sync_all S fd w of
                  (False, w) \<Rightarrow> (Inl (Err IoError), w)
                | (True, w) \<Rightarrow> (Inr (), w))))"

fun download_loop :: "'w sys \<Rightarrow> bytes \<Rightarrow> bytes \<Rightarrow> error \<Rightarrow> bytes list \<Rightarrow> 'w \<Rightarrow> unit res \<times> 'w" where
  "download_loop S src dst err [] w = (Inl (Err err), w)"
| "download_loop S src dst err (host # hosts) w =
     (case http_get S (host @ src) w of
        (HttpFailed, w) \<Rightarrow> download_loop S src dst (HttpError None) hosts w
      | (HttpAnswer status body, w) \<Rightarrow>
          (case http_get S (host @ with_extension src (ascii ''sign'')) w of
             (HttpFailed, w) \<Rightarrow> download_loop S src dst (HttpError None) hosts w
           | (HttpAnswer sign_status sign_body, w) \<Rightarrow>
               if is_success status \<and> is_success sign_status then
                 (case body of
                    None \<Rightarrow> download_loop S src dst (HttpError None) hosts w
                  | Some contents \<Rightarrow>
                      (case sign_body of
                         None \<Rightarrow> download_loop S src dst (HttpError None) hosts w
                       | Some sign_content \<Rightarrow>
                           let res = sha256 S contents;
                               sign_contents = (case hex_decode S (trim sign_content) of None \<Rightarrow> [] | Some s \<Rightarrow> s)
                           in if res = sign_contents
                              then store_file S dst contents w
                              else download_loop S src dst (Message ''checksum doesn't match'') hosts w))
               else (case status_error status of
                       Inl e \<Rightarrow> (Inl e, w)
                     | Inr e \<Rightarrow> download_loop S src dst e hosts w)))"

definition download :: "'w sys \<Rightarrow> bytes \<Rightarrow> bytes \<Rightarrow> 'w \<Rightarrow> unit res \<times> 'w" where
  "download S src dst w = download_loop S src dst (Message ''unavailable url'') DOWNLOAD_HOSTS w"

subsection \<open>Loading\<close>

text \<open>\<open>crash_files\<close> lists the entries of the walk through \<^verbatim>\<open>/var/crash\<close> in its order: the bytes of the
  name; the age in nanoseconds, \<open>None\<close> when one of the three \<open>unwrap\<close>s fails (no metadata, no
  modification time, or one in the future); and what reading the file gives, if it can be read.\<close>

fun check_crash_loop :: "(bytes \<times> nat option \<times> bytes option) list \<Rightarrow> unit res" where
  "check_crash_loop [] = Inr ()"
| "check_crash_loop ((name, age, contents) # entries) =
     (if \<not> valid_utf8 name then check_crash_loop entries
      else case age of
        None \<Rightarrow> Inl Panic
      | Some age \<Rightarrow>
          if 48 * 60 * 60 * 1000000000 < age then check_crash_loop entries
          else if starts_with name (ascii ''dmesg'')
          then let content = (case contents of None \<Rightarrow> [] | Some c \<Rightarrow> if valid_utf8 c then c else [])
               in if contains content (ascii ''['' @ KMOD_NAME @ ascii '']'')
                  then Inl (Err (Message ''detect driver crash'')) else Inr ()
          else check_crash_loop entries)"

definition check_crash :: "'w sys \<Rightarrow> 'w \<Rightarrow> unit res" where
  "check_crash S w = check_crash_loop (crash_files S w)"

definition arch_name :: "'w sys \<Rightarrow> bytes" where
  "arch_name S = (if arch S = ascii ''x86_64'' then ascii ''amd64''
     else if arch S = ascii ''aarch64'' then ascii ''arm64'' else arch S)"

definition ko_dst :: "'w sys \<Rightarrow> bytes" where
  "ko_dst S = KMOD_NAME @ ascii ''_latest_'' @ uname_release S @ ascii ''_'' @ arch_name S @ ascii ''.ko''"

definition ko_src :: "'w sys \<Rightarrow> bytes" where
  "ko_src S = KMOD_NAME @ ascii ''_'' @ KMOD_VERSION @ ascii ''_'' @ uname_release S @ ascii ''_'' @ arch_name S @ ascii ''.ko''"

text \<open>The loop that waits for the module to be published: a status 404 or 500 means one more hour.\<close>

partial_function (option) fetch_loop :: "'w sys \<Rightarrow> 'w \<Rightarrow> (unit res \<times> 'w) option" where
  "fetch_loop S w =
     (case download S (ko_src S) (ko_dst S) w of
        (Inl (Err (HttpError (Some status))), w) \<Rightarrow>
          if status = 500 \<or> status = 404 then fetch_loop S (sleep_secs S 3600 w)
          else Some (Inl (Err (HttpError (Some status))), w)
      | (r, w) \<Rightarrow> Some (r, w))"

definition load_module :: "'w sys \<Rightarrow> 'w \<Rightarrow> unit res \<times> 'w" where
  "load_module S w =
     (case open_file S (ko_dst S) w of
        (None, w) \<Rightarrow> (Inl (Err IoError), w)
      | (Some fd, w) \<Rightarrow>
          (case finit_module S fd w of
             (True, w) \<Rightarrow> (Inr (), w)
           | (False, w) \<Rightarrow>
               (case insmod S (ko_dst S) w of
                  (None, w) \<Rightarrow> (Inl (Err (Message ''load module failed'')), w)
                | (Some (success, stderr), w) \<Rightarrow>
                    if success then (Inr (), w)
                    else if from_utf8 stderr = None then (Inl Panic, w)
                    else (Inl (Err (Message ''load module failed'')), w))))"

definition cached_module :: "'w sys \<Rightarrow> 'w \<Rightarrow> unit res option \<times> 'w" where
  "cached_module S w =
     (case modinfo S (ko_dst S) w of
        (None, w) \<Rightarrow> (None, w)
      | (Some (success, stdout), w) \<Rightarrow>
          if success \<and>
             list_ex (\<lambda>line. contains line (ascii ''version'') \<and> contains line KMOD_VERSION)
               (lines (case from_utf8 stdout of None \<Rightarrow> [] | Some s \<Rightarrow> s))
          then (case open_file S (ko_dst S) w of
                  (None, w) \<Rightarrow> (None, w)
                | (Some fd, w) \<Rightarrow>
                    (case finit_module S fd w of
                       (True, w) \<Rightarrow> (Some (Inr ()), w)
                     | (False, w) \<Rightarrow> (Some (Inl (Err (Message ''load module failed''))), w)))
          else (None, w))"

definition fetch_and_load :: "'w sys \<Rightarrow> 'w \<Rightarrow> (unit res \<times> 'w) option" where
  "fetch_and_load S w =
     (case cached_module S w of
        (Some r, w) \<Rightarrow> Some (r, w)
      | (None, w) \<Rightarrow>
          (case fetch_loop S w of
             None \<Rightarrow> None
           | Some (Inl e, w) \<Rightarrow> Some (Inl e, w)
           | Some (Inr _, w) \<Rightarrow> Some (load_module S w)))"

definition install :: "'w sys \<Rightarrow> 'w \<Rightarrow> (unit res \<times> 'w) option" where
  "install S w =
     (case read_to_string S (ascii ''/sys/module/'' @ KMOD_NAME @ ascii ''/version'') w of
        (Some version, w) \<Rightarrow>
          if contains version KMOD_VERSION then
            (case open_control S w of
               (False, w) \<Rightarrow> Some (Inl (Err IoError), w)
             | (True, w) \<Rightarrow>
                 let w = control_write S (REMOVE_ALL_ARGV_FILTER_FLAG @ PADDING_CONTENT @ [0x0a]) w;
                     w = control_write S (REMOVE_ALL_EXE_FILTER_FLAG @ PADDING_CONTENT @ [0x0a]) w
                 in Some (Inr (), w))
          else
            (case delete_module S KMOD_NAME w of
               (False, w) \<Rightarrow> Some (Inl (Err IoError), w)
             | (True, w) \<Rightarrow> fetch_and_load S w)
      | (None, w) \<Rightarrow> fetch_and_load S w)"

fun add_fixed :: "(bytes \<Rightarrow> kmod \<Rightarrow> kmod res) \<Rightarrow> bytes list \<Rightarrow> kmod \<Rightarrow> kmod res" where
  "add_fixed add [] k = Inr k"
| "add_fixed add (x # xs) k = bind_res (add x k) (add_fixed add xs)"

text \<open>\<open>Kmod::new\<close> up to the start of its threads.\<close>

definition Kmod_new :: "'w sys \<Rightarrow> 'w \<Rightarrow> (kmod res \<times> 'w) option" where
  "Kmod_new S w =
     (case check_crash S w of
        Inl e \<Rightarrow> Some (Inl e, w)
      | Inr _ \<Rightarrow>
          (case install S w of
             None \<Rightarrow> None
           | Some (Inl e, w) \<Rightarrow> Some (Inl e, w)
           | Some (Inr _, w) \<Rightarrow>
               (case open_control S w of
                  (False, w) \<Rightarrow>
                    (case delete_module S KMOD_NAME w of (_, w) \<Rightarrow> Some (Inl (Err IoError), w))
                | (True, w) \<Rightarrow>
                    let k = \<lparr>filtered_exe_entries = [], filtered_argv_entries = [], controler = Some []\<rparr>
                    in Some (bind_res (add_fixed add_filtered_argv_fixed ARGV_WHITELIST k)
                               (add_fixed add_filtered_exe_fixed EXE_WHITELIST), w))))"

subsection \<open>What a download accepts\<close>

text \<open>\<open>served S src contents sign\<close>: some host answered the request for the module with \<open>contents\<close> and the
  request for its checksum with \<open>sign\<close>.\<close>

definition served :: "'w sys \<Rightarrow> bytes \<Rightarrow> bytes \<Rightarrow> bytes \<Rightarrow> bool" where
  "served S src contents sign \<longleftrightarrow>
     (\<exists>host \<in> set DOWNLOAD_HOSTS. \<exists>w w' status status'.
        fst (http_get S (host @ src) w) = HttpAnswer status (Some contents) \<and> is_success status \<and>
        fst (http_get S (host @ with_extension src (ascii ''sign'')) w') = HttpAnswer status' (Some sign) \<and>
        is_success status')"

lemma DOWNLOAD_HOSTS_Cons: "DOWNLOAD_HOSTS = hd DOWNLOAD_HOSTS # tl DOWNLOAD_HOSTS"
  by (simp add: DOWNLOAD_HOSTS_def)

lemma DOWNLOAD_HOSTS_nonempty: "DOWNLOAD_HOSTS \<noteq> []"
  by (simp add: DOWNLOAD_HOSTS_def)

lemma download_first_host:
  assumes "http_get S (hd DOWNLOAD_HOSTS @ src) w = (HttpAnswer st (Some c), w1)" "is_success st"
    and "http_get S (hd DOWNLOAD_HOSTS @ with_extension src (ascii ''sign'')) w1 = (HttpAnswer st' (Some s), w2)"
    and "is_success st'" "hex_decode S (trim s) = Some (sha256 S c)"
  shows "download S src dst w = store_file S dst c w2"
  using assms unfolding download_def by (subst DOWNLOAD_HOSTS_Cons) simp

lemma servedI:
  assumes "http_get S (host @ src) w = (HttpAnswer st (Some c), w1)" "is_success st"
    and "http_get S (host @ with_extension src (ascii ''sign'')) w1 = (HttpAnswer st' (Some s), w2)" "is_success st'"
    and "host \<in> set DOWNLOAD_HOSTS"
  shows "served S src c s"
  unfolding served_def using assms by (metis fst_conv)

lemma download_loop_stores:
  "download_loop S src dst err hosts w = (Inr (), w') \<Longrightarrow> set hosts \<subseteq> set DOWNLOAD_HOSTS \<Longrightarrow>
   \<exists>contents sign w1. served S src contents sign \<and>
     sha256 S contents = (case hex_decode S (trim sign) of None \<Rightarrow> [] | Some s \<Rightarrow> s) \<and>
     store_file S dst contents w1 = (Inr (), w')"
proof (induction hosts arbitrary: err w)
  case (Cons host hosts)
  have host: "host \<in> set DOWNLOAD_HOSTS" and rest: "set hosts \<subseteq> set DOWNLOAD_HOSTS"
    using Cons.prems(2) by auto
  note IH = Cons.IH[OF _ rest]
  obtain a w1 where a: "http_get S (host @ src) w = (a, w1)" by (meson surj_pair)
  obtain b w2 where b: "http_get S (host @ with_extension src (ascii ''sign'')) w1 = (b, w2)"
    by (meson surj_pair)
  show ?case
  proof (cases "\<exists>st c st' s. a = HttpAnswer st (Some c) \<and> b = HttpAnswer st' (Some s) \<and> is_success st \<and> is_success st' \<and>
      sha256 S c = (case hex_decode S (trim s) of None \<Rightarrow> [] | Some s \<Rightarrow> s)")
    case True
    then obtain st c st' s where eqs: "a = HttpAnswer st (Some c)" "b = HttpAnswer st' (Some s)"
        "is_success st" "is_success st'" "sha256 S c = (case hex_decode S (trim s) of None \<Rightarrow> [] | Some s \<Rightarrow> s)"
      by blast
    have "served S src c s"
      by (rule servedI[OF a[unfolded eqs(1)] eqs(3) b[unfolded eqs(2)] eqs(4) host])
    moreover have "store_file S dst c w2 = (Inr (), w')"
      using Cons.prems(1) a b eqs by simp
    ultimately show ?thesis using eqs(5) by blast
  next
    case False
    have "\<exists>err w. download_loop S src dst err hosts w = (Inr (), w')"
      using Cons.prems(1) False a b
      by (cases a; cases b) (auto simp: Let_def status_error_def split: option.splits if_splits)
    then show ?thesis using IH by blast
  qed
qed simp

subsection \<open>Waiting for the module\<close>

text \<open>An attempt after which \<open>install\<close> waits, and the world after it.\<close>

definition unpublished :: "'w sys \<Rightarrow> 'w \<Rightarrow> bool" where
  "unpublished S w \<longleftrightarrow>
     fst (download S (ko_src S) (ko_dst S) w) \<in> {Inl (Err (HttpError (Some 404))), Inl (Err (HttpError (Some 500)))}"

definition after_wait :: "'w sys \<Rightarrow> 'w \<Rightarrow> 'w" where
  "after_wait S w = sleep_secs S 3600 (snd (download S (ko_src S) (ko_dst S) w))"

lemma fetch_loop_step: "unpublished S w \<Longrightarrow> fetch_loop S w = fetch_loop S (after_wait S w)"
  by (subst fetch_loop.simps) (auto simp: unpublished_def after_wait_def split: prod.splits)

lemma fetch_loop_stop: "\<not> unpublished S w \<Longrightarrow> fetch_loop S w = Some (download S (ko_src S) (ko_dst S) w)"
  by (subst fetch_loop.simps)
    (auto simp: unpublished_def split: prod.splits sum.splits failure.splits error.splits option.splits)

lemma fetch_loop_iterate:
  "(\<And>i. i < n \<Longrightarrow> unpublished S ((after_wait S ^^ i) w)) \<Longrightarrow> fetch_loop S w = fetch_loop S ((after_wait S ^^ n) w)"
  by (induction n) (simp_all add: fetch_loop_step)

subsection \<open>A system\<close>

text \<open>A system whose world is the hour and what was written: the module is published in the second
  hour, and its hash is a sum. The last byte tells the two files apart.\<close>

definition sample_sum :: "bytes \<Rightarrow> bytes" where
  "sample_sum bs = [sum_list bs]"

definition sample_http :: "bytes \<Rightarrow> nat \<times> bytes list \<Rightarrow> http \<times> nat \<times> bytes list" where
  "sample_http url w =
     (if fst w < 2 then HttpAnswer 404 (Some [])
      else if last url = 0x6e then HttpAnswer 200 (Some (sample_sum (ascii ''ko'') @ [0x0a]))
      else HttpAnswer 200 (Some (ascii ''ko'')), w)"

definition sample_sys :: "(nat \<times> bytes list) sys" where
  "sample_sys = \<lparr>http_get = sample_http, sha256 = sample_sum, hex_decode = Some,
     file_create = (\<lambda>p w. (Some 3, w)), file_write_all = (\<lambda>fd bs w. (True, fst w, snd w @ [bs])),
     file_sync_all = (\<lambda>fd w. (True, w)), read_to_string = (\<lambda>p w. (Some (ascii ''1.7.0.4''), w)),
     crash_files = (\<lambda>w. []), open_control = (\<lambda>w. (True, w)),
     control_write = (\<lambda>bs w. (fst w, snd w @ [bs])), delete_module = (\<lambda>n w. (True, w)),
     uname_release = ascii ''5.4'', arch = ascii ''x86_64'', modinfo = (\<lambda>p w. (None, w)),
     open_file = (\<lambda>p w. (Some 3, w)), finit_module = (\<lambda>fd w. (True, w)),
     insmod = (\<lambda>p w. (None, w)), sleep_secs = (\<lambda>n w. (fst w + n div 3600, snd w))\<rparr>"

definition unsigned_sys :: "(nat \<times> bytes list) sys" where
  "unsigned_sys = sample_sys\<lparr>http_get := (\<lambda>url w.
     (if last url = 0x6e then HttpAnswer 404 (Some []) else HttpAnswer 200 (Some (ascii ''ko'')), w))\<rparr>"

lemma sample_http_simps [simp]:
  "fst w < 2 \<Longrightarrow> http_get sample_sys url w = (HttpAnswer 404 (Some []), w)"
  "\<not> fst w < 2 \<Longrightarrow> last url = 0x6e \<Longrightarrow> http_get sample_sys url w = (HttpAnswer 200 (Some (sample_sum (ascii ''ko'') @ [0x0a])), w)"
  "\<not> fst w < 2 \<Longrightarrow> last url \<noteq> 0x6e \<Longrightarrow> http_get sample_sys url w = (HttpAnswer 200 (Some (ascii ''ko'')), w)"
  by (simp_all add: sample_sys_def sample_http_def)

lemma last_sign: "last (host @ with_extension src (ascii ''sign'')) = 0x6e"
  by (simp add: with_extension_def Let_def ascii_def)

lemma sample_sign: "hex_decode sample_sys (trim (sample_sum (ascii ''ko'') @ [0x0a])) = Some (sha256 sample_sys (ascii ''ko''))"
  by code_simp

lemma sample_unpublished:
  "fst w < 2 \<Longrightarrow> hosts \<noteq> [] \<Longrightarrow> download_loop sample_sys src dst err hosts w = (Inl (Err (HttpError (Some 404))), w)"
proof (induction hosts arbitrary: err)
  case (Cons host hosts)
  then show ?case by (cases hosts) (simp_all add: is_success_def status_error_def)
qed simp

lemma sample_published:
  assumes "\<not> fst w < 2" "src \<noteq> []" "last src \<noteq> 0x6e"
  shows "download sample_sys src dst w = (Inr (), fst w, snd w @ [ascii ''ko''])"
proof -
  have "last (hd DOWNLOAD_HOSTS @ src) \<noteq> 0x6e" using assms by simp
  note first = download_first_host[OF sample_http_simps(3)[OF assms(1) this] _
      sample_http_simps(2)[OF assms(1) last_sign] _ sample_sign]
  show ?thesis by (subst first) (simp_all add: is_success_def store_file_def sample_sys_def)
qed

lemma sample_ko: "ko_src sample_sys \<noteq> []" "last (ko_src sample_sys) = 0x6f"
  by (simp_all add: ko_src_def ascii_def)

lemma sample_unpublished_iff: "unpublished sample_sys w \<longleftrightarrow> fst w < 2"
  using sample_unpublished[OF _ DOWNLOAD_HOSTS_nonempty, of w] sample_published[of w "ko_src sample_sys"] sample_ko
  by (cases "fst w < 2") (simp_all add: unpublished_def download_def)

lemma sample_wait: "fst w < 2 \<Longrightarrow> after_wait sample_sys w = (fst w + 1, snd w)"
  using sample_unpublished[OF _ DOWNLOAD_HOSTS_nonempty, of w]
  by (simp add: after_wait_def download_def) (simp add: sample_sys_def)

subsection \<open>Properties\<close>

text \<open>C14: A module that \<open>download\<close> reports as stored was served by one of the hosts together with a checksum
  that decodes to the hash of exactly the bytes that were stored, both with a success status. The
  hypothesis on the hash is that it is never empty.\<close>

theorem download_verified:
  assumes "\<And>c. sha256 S c \<noteq> []" and "download S src dst w = (Inr (), w')"
  shows "\<exists>contents sign w1. served S src contents sign \<and>
    hex_decode S (trim sign) = Some (sha256 S contents) \<and> store_file S dst contents w1 = (Inr (), w')"
proof -
  from assms(2) obtain contents sign w1 where d: "served S src contents sign"
      "sha256 S contents = (case hex_decode S (trim sign) of None \<Rightarrow> [] | Some s \<Rightarrow> s)"
      "store_file S dst contents w1 = (Inr (), w')"
    unfolding download_def using download_loop_stores by (metis order_refl)
  moreover have "hex_decode S (trim sign) = Some (sha256 S contents)"
    using d(2) assms(1)[of contents] by (simp split: option.splits)
  ultimately show ?thesis by blast
qed

theorem download_verified_witness:
  "\<exists>contents sign w1. served sample_sys (ascii ''d.ko'') contents sign \<and>
    hex_decode sample_sys (trim sign) = Some (sha256 sample_sys contents) \<and>
    store_file sample_sys (ascii ''l.ko'') contents w1 = (Inr (), 2, [ascii ''ko''])"
proof (rule download_verified)
  show "sha256 sample_sys c \<noteq> []" for c by (simp add: sample_sys_def sample_sum_def)
  show "download sample_sys (ascii ''d.ko'') (ascii ''l.ko'') (2, []) = (Inr (), 2, [ascii ''ko''])"
    by (subst sample_published) (simp_all add: ascii_def)
qed

text \<open>C29: \<open>install\<close> waits for a module that is not yet published and does not give up: when the attempts
  fail with 404 or 500 until the \<open>n\<close>-th, the loop returns what the \<open>n\<close>-th attempt gives, each
  attempt made an hour after the one before.\<close>

theorem fetch_loop_returns:
  assumes "\<And>i. i < n \<Longrightarrow> unpublished S ((after_wait S ^^ i) w)" and "\<not> unpublished S ((after_wait S ^^ n) w)"
  shows "fetch_loop S w = Some (download S (ko_src S) (ko_dst S) ((after_wait S ^^ n) w))"
  using fetch_loop_iterate[OF assms(1)] fetch_loop_stop[OF assms(2)] by simp

theorem fetch_loop_returns_witness: "fetch_loop sample_sys (0, []) = Some (Inr (), 2, [ascii ''ko''])"
proof -
  have waits: "(after_wait sample_sys ^^ i) (0, []) = (i, [])" if "i \<le> 2" for i
    using that by (induction i) (simp_all add: sample_wait)
  have "fetch_loop sample_sys (0, []) =
      Some (download sample_sys (ko_src sample_sys) (ko_dst sample_sys) ((after_wait sample_sys ^^ 2) (0, [])))"
  proof (rule fetch_loop_returns)
    show "unpublished sample_sys ((after_wait sample_sys ^^ i) (0, []))" if "i < 2" for i
      using that waits[of i] by (simp add: sample_unpublished_iff)
    show "\<not> unpublished sample_sys ((after_wait sample_sys ^^ 2) (0, []))"
      unfolding waits[OF order_refl] by (simp add: sample_unpublished_iff)
  qed
  then show ?thesis unfolding waits[OF order_refl] by (simp add: sample_published sample_ko)
qed

text \<open>\<open>download\<close> panics when the first host serves the module and not its checksum: the error is taken
  from the answer for the module, which has none.\<close>

theorem download_panics_unsigned:
  assumes "http_get S (hd DOWNLOAD_HOSTS @ src) w = (HttpAnswer status body, w1)" "is_success status"
    and "http_get S (hd DOWNLOAD_HOSTS @ with_extension src (ascii ''sign'')) w1 = (HttpAnswer sign_status sign_body, w2)"
    and "\<not> is_success sign_status"
  shows "download S src dst w = (Inl Panic, w2)"
proof -
  have "status_error status = Inl Panic" using assms(2) by (simp add: status_error_def is_success_def)
  then show ?thesis using assms unfolding download_def by (subst DOWNLOAD_HOSTS_Cons) simp
qed

theorem download_panics_unsigned_witness:
  "download unsigned_sys (ascii ''d.ko'') (ascii ''l.ko'') (0, []) = (Inl Panic, 0, [])"
  by (rule download_panics_unsigned[where status = 200 and sign_status = 404 and body = "Some (ascii ''ko'')"
        and sign_body = "Some []"]) code_simp+

text \<open>When the module is loaded in the right version, \<open>install\<close> succeeds without loading anything, and
  the messages it writes empty both allowlists of the kernel, whatever they held.\<close>

theorem install_resets_kernel:
  assumes "read_to_string S (ascii ''/sys/module/hids_driver/version'') w = (Some version, w1)"
    and "contains version KMOD_VERSION" and "open_control S w1 = (True, w2)"
  shows "\<exists>ws. install S w = Some (Inr (), fold (control_write S) ws w2) \<and> (\<forall>st. replay ws st = lkm_init)"
proof (intro exI conjI allI)
  let ?ws = "[REMOVE_ALL_ARGV_FILTER_FLAG @ PADDING_CONTENT @ [0x0a], REMOVE_ALL_EXE_FILTER_FLAG @ PADDING_CONTENT @ [0x0a]]"
  have "ascii ''/sys/module/'' @ KMOD_NAME @ ascii ''/version'' = ascii ''/sys/module/hids_driver/version''"
    by code_simp
  then show "install S w = Some (Inr (), fold (control_write S) ?ws w2)"
    using assms unfolding install_def by (simp only: Let_def fold.simps comp_apply id_apply prod.case option.case bool.case if_True)
  show "replay ?ws st = lkm_init" for st
    by (simp add: replay_def device_write_def REMOVE_ALL_ARGV_FILTER_FLAG_def REMOVE_ALL_EXE_FILTER_FLAG_def
        PADDING_CONTENT_def ascii_def ALLOWLIST_NODE_MIN_def ALLOWLIST_NODE_MAX_def lkm_op_defs lkm_init_def)
qed

theorem install_resets_kernel_witness:
  "\<exists>ws. install sample_sys (0, []) = Some (Inr (), fold (control_write sample_sys) ws (0, [])) \<and>
     (\<forall>st. replay ws st = lkm_init)"
  by (rule install_resets_kernel[where version = "ascii ''1.7.0.4''" and ?w1.0 = "(0, [])"]) code_simp+

text \<open>\<open>check_crash\<close> decides by the first recent \<^verbatim>\<open>dmesg\<close> file of the walk: when that file does not mention
  the driver, a later one that does is not seen.\<close>

theorem check_crash_first_only:
  assumes "crash_files S w = (name, Some age, Some content) # entries"
    and "valid_utf8 name" and "age \<le> 48 * 60 * 60 * 1000000000" and "starts_with name (ascii ''dmesg'')"
    and "\<not> contains content (ascii ''['' @ KMOD_NAME @ ascii '']'')"
  shows "check_crash S w = Inr ()"
proof -
  have "\<not> contains [] (ascii ''['' @ KMOD_NAME @ ascii '']'')" by code_simp
  then show ?thesis using assms by (simp add: check_crash_def)
qed

theorem check_crash_first_only_witness:
  "check_crash (sample_sys\<lparr>crash_files := (\<lambda>w. [(ascii ''dmesg.1'', Some 7, Some (ascii ''ok'')),
     (ascii ''dmesg.2'', Some 7, Some (ascii ''[hids_driver]''))])\<rparr>) (0, []) = Inr ()"
  by (rule check_crash_first_only[where name = "ascii ''dmesg.1''" and age = 7 and content = "ascii ''ok''"
        and entries = "[(ascii ''dmesg.2'', Some 7, Some (ascii ''[hids_driver]''))]"]) (simp, code_simp, simp, code_simp, code_simp)

end
