(* ===== verification/Plugin_Logger.thy ===== *)
theory Plugin_Logger
  imports Rust_Std "HOL-Library.Multiset"
begin

section \<open>The logger of the plugin library\<close>

text \<open>
  \<^verbatim>\<open>src/plugins/lib/rust/src/logger.rs\<close>. The directory of the log is a map from file names to contents; the
  open file is the one called \<open>filename\<close>. What the operating system answers to one call (whether the
  renaming and the opening succeed, how much of the line is written, the two renderings of the
  time) is the argument \<open>io\<close>, and what it answers to the cleaning thread is the argument \<open>mio\<close>.
  Lengths and sizes are \<open>u64\<close> as in the source. The channel of capacity one to the cleaning thread
  is the flag \<open>mill_pending\<close>. The locks are taken in one order and released at the end of a call, so
  that calls follow one another. The permissions of the file and the creation of a missing
  directory are left out.
\<close>

subsection \<open>Levels and records\<close>

datatype level = LError | LWarn | LInfo | LDebug | LTrace

fun level_num :: "level \<Rightarrow> nat" where
  "level_num LError = 1" | "level_num LWarn = 2" | "level_num LInfo = 3" | "level_num LDebug = 4" | "level_num LTrace = 5"

fun level_str :: "level \<Rightarrow> bytes" where
  "level_str LError = ascii ''ERROR''" | "level_str LWarn = ascii ''WARN''" | "level_str LInfo = ascii ''INFO''"
| "level_str LDebug = ascii ''DEBUG''" | "level_str LTrace = ascii ''TRACE''"

text \<open>A level filter is a number, 0 for \<open>Off\<close>.\<close>

type_synonym level_filter = nat

record log_record =
  log_level :: level
  log_target :: bytes
  log_file :: "bytes option"
  log_line :: "nat option"
  log_args :: bytes

record remote_record =
  remote_type :: int
  remote_time :: int
  remote_fields :: "bytes \<rightharpoonup> bytes"

record 'p logger =
  max_size :: u64
  log_size :: u64
  filename :: bytes
  file_open :: bool
  file_level :: level_filter
  remote_level :: level_filter
  mill_pending :: bool
  log_client :: "'p option"
  log_files :: "bytes \<rightharpoonup> bytes"

record io =
  rename_ok :: bool
  open_ok :: bool
  written :: nat
  now_full :: bytes
  now_rfc3339 :: bytes
  now_unix :: "int option"

subsection \<open>Writing\<close>

definition format_line :: "bytes \<Rightarrow> log_record \<Rightarrow> bytes" where
  "format_line datetime r =
     datetime @ [9] @ level_str (log_level r) @ [9] @ log_target r @ [9] @
     (case log_file r of None \<Rightarrow> [] | Some f \<Rightarrow> f) @ ascii '':'' @
     show_nat (case log_line r of None \<Rightarrow> 0 | Some n \<Rightarrow> n) @ [9] @ log_args r @ [10]"

definition mill :: "'p logger \<Rightarrow> 'p logger" where
  "mill lg = lg\<lparr>mill_pending := True\<rparr>"

definition backup_name :: "io \<Rightarrow> 'p logger \<Rightarrow> bytes" where
  "backup_name i lg = filename lg @ ascii ''-'' @ now_rfc3339 i"

definition rename_file :: "bytes \<Rightarrow> bytes \<Rightarrow> (bytes \<rightharpoonup> bytes) \<Rightarrow> (bytes \<rightharpoonup> bytes)" where
  "rename_file old new fs = (fs(old := None))(new := fs old)"

definition rotate :: "io \<Rightarrow> 'p logger \<Rightarrow> 'p logger" where
  "rotate i lg =
     (let lg = (if file_open lg
                then if \<not> rename_ok i then lg\<lparr>file_open := False\<rparr>
                     else let lg = lg\<lparr>log_files := rename_file (filename lg) (backup_name i lg) (log_files lg)\<rparr>
                          in if open_ok i
                             then lg\<lparr>file_open := True, log_files := (log_files lg)(filename lg \<mapsto> [])\<rparr>
                             else lg\<lparr>file_open := False\<rparr>
                else lg)
      in mill (lg\<lparr>log_size := 0\<rparr>))"

definition contents :: "'p logger \<Rightarrow> bytes" where
  "contents lg = (case log_files lg (filename lg) of None \<Rightarrow> [] | Some c \<Rightarrow> c)"

text \<open>\<open>write_all\<close> whose error is ignored: a prefix of the line is written.\<close>

definition append_line :: "io \<Rightarrow> bytes \<Rightarrow> 'p logger \<Rightarrow> 'p logger" where
  "append_line i buf lg =
     (if file_open lg
      then lg\<lparr>log_files := (log_files lg)(filename lg \<mapsto> contents lg @ take (written i) buf),
              log_size := log_size lg + of_nat (length buf)\<rparr>
      else lg)"

definition log_to_file :: "io \<Rightarrow> log_record \<Rightarrow> 'p logger \<Rightarrow> 'p logger" where
  "log_to_file i r lg =
     (let buf = format_line (now_full i) r;
          lg = (if max_size lg < of_nat (length buf) + log_size lg then rotate i lg else lg)
      in append_line i buf lg)"

definition remote_of :: "int \<Rightarrow> log_record \<Rightarrow> remote_record" where
  "remote_of secs r = \<lparr>remote_type = 1010, remote_time = secs, remote_fields = [
     ascii ''level'' \<mapsto> level_str (log_level r),
     ascii ''target'' \<mapsto> log_target r,
     ascii ''file'' \<mapsto> (case log_file r of None \<Rightarrow> [] | Some f \<Rightarrow> f),
     ascii ''line'' \<mapsto> show_nat (case log_line r of None \<Rightarrow> 0 | Some n \<Rightarrow> n),
     ascii ''msg'' \<mapsto> log_args r]\<rparr>"

definition log_remote :: "(remote_record \<Rightarrow> 'p \<Rightarrow> 'p) \<Rightarrow> io \<Rightarrow> log_record \<Rightarrow> 'p logger \<Rightarrow> 'p logger res" where
  "log_remote send i r lg =
     (case log_client lg of
        None \<Rightarrow> Inr lg
      | Some client \<Rightarrow>
          if level_num (log_level r) \<le> remote_level lg
          then (case now_unix i of
                  None \<Rightarrow> Inl Panic
                | Some secs \<Rightarrow> Inr (lg\<lparr>log_client := Some (send (remote_of secs r) client)\<rparr>))
          else Inr lg)"

definition log :: "(remote_record \<Rightarrow> 'p \<Rightarrow> 'p) \<Rightarrow> io \<Rightarrow> log_record \<Rightarrow> 'p logger \<Rightarrow> 'p logger res" where
  "log send i r lg =
     log_remote send i r (if level_num (log_level r) \<le> file_level lg then log_to_file i r lg else lg)"

definition enabled :: "level \<Rightarrow> 'p logger \<Rightarrow> bool" where
  "enabled l lg \<longleftrightarrow> level_num l \<le> (if file_level lg < remote_level lg then file_level lg else remote_level lg)"

text \<open>\<open>Logger::new\<close>: \<open>open_ok\<close> tells whether the log could be opened for appending, which creates it when it is missing.\<close>

record 'p config =
  conf_max_size :: u64
  conf_filename :: bytes
  conf_file_level :: level_filter
  conf_remote_level :: level_filter
  conf_client :: "'p option"

definition Logger_new :: "io \<Rightarrow> 'p config \<Rightarrow> (bytes \<rightharpoonup> bytes) \<Rightarrow> 'p logger" where
  "Logger_new i c fs =
     (let old = (case fs (conf_filename c) of None \<Rightarrow> [] | Some b \<Rightarrow> b) in
      \<lparr>max_size = conf_max_size c,
       log_size = (if open_ok i then of_nat (length old) else 0),
       filename = conf_filename c, file_open = open_ok i,
       file_level = conf_file_level c, remote_level = conf_remote_level c,
       mill_pending = False, log_client = conf_client c,
       log_files = (if open_ok i then fs(conf_filename c \<mapsto> old) else fs)\<rparr>)"

definition max_level :: "'p config \<Rightarrow> level_filter" where
  "max_level c = (if conf_file_level c < conf_remote_level c then conf_remote_level c else conf_file_level c)"

subsection \<open>The cleaning thread\<close>

record mio =
  listing :: "bytes list"
  parse_time :: "bytes \<Rightarrow> int option"
  remove_ok :: "bytes \<Rightarrow> bool"
  gzip :: "bytes \<Rightarrow> bytes option"
  create_ok :: "bytes \<Rightarrow> bool"
  gz_written :: "bytes \<Rightarrow> nat"

fun strip_suffixes :: "bytes \<Rightarrow> nat \<Rightarrow> bytes \<Rightarrow> bytes" where
  "strip_suffixes p 0 s = s"
| "strip_suffixes p (Suc n) s = (if ends_with s p then strip_suffixes p n (take (length s - length p) s) else s)"

definition backup_time :: "mio \<Rightarrow> bytes \<Rightarrow> bytes \<Rightarrow> int option" where
  "backup_time i fname name =
     (if valid_utf8 name \<and> valid_utf8 fname \<and> starts_with name fname
      then let rest = dropWhile (\<lambda>b. b = 0x2d) (drop (length fname) name)
           in parse_time i (strip_suffixes (ascii ''.gz'') (length rest) rest)
      else None)"

definition backups :: "mio \<Rightarrow> bytes \<Rightarrow> (bytes \<times> int) list" where
  "backups i fname =
     sort_key snd (List.map_filter (\<lambda>n. map_option (\<lambda>t. (n, t)) (backup_time i fname n)) (listing i))"

definition remove_file :: "mio \<Rightarrow> bytes \<Rightarrow> (bytes \<rightharpoonup> bytes) \<Rightarrow> (bytes \<rightharpoonup> bytes)" where
  "remove_file i name fs = (if remove_ok i name then fs(name := None) else fs)"

definition extension :: "bytes \<Rightarrow> bytes option" where
  "extension name =
     (if 0x2e \<in> set (tl name) then Some (rev (takeWhile (\<lambda>b. b \<noteq> 0x2e) (rev name))) else None)"

definition compress_file :: "mio \<Rightarrow> bytes \<Rightarrow> (bytes \<rightharpoonup> bytes) \<Rightarrow> (bytes \<rightharpoonup> bytes)" where
  "compress_file i name fs =
     (if (case extension name of None \<Rightarrow> False | Some ext \<Rightarrow> ext \<noteq> ascii ''gz'')
      then case fs name of
        None \<Rightarrow> fs
      | Some c \<Rightarrow>
          (case gzip i c of
             None \<Rightarrow> fs
           | Some z \<Rightarrow>
               let gz = name @ ascii ''.gz'' in
               if create_ok i gz then remove_file i name (fs(gz \<mapsto> take (gz_written i gz) z)) else fs)
      else fs)"

definition expired :: "nat \<Rightarrow> 'a list \<Rightarrow> 'a list" where
  "expired max_backups files =
     (if 0 < max_backups \<and> max_backups < length files then take (length files - max_backups) files else [])"

definition mill_round :: "nat \<Rightarrow> bool \<Rightarrow> mio \<Rightarrow> bytes \<Rightarrow> (bytes \<rightharpoonup> bytes) \<Rightarrow> (bytes \<rightharpoonup> bytes)" where
  "mill_round max_backups compress i fname fs =
     (let files = backups i fname;
          fs = fold (\<lambda>(f, _). remove_file i f) (expired max_backups files) fs
      in if compress then fold (\<lambda>(f, _). compress_file i f) files fs else fs)"

subsection \<open>Sequences of calls\<close>

fun log_run :: "(remote_record \<Rightarrow> 'p \<Rightarrow> 'p) \<Rightarrow> (io \<times> log_record) list \<Rightarrow> 'p logger \<Rightarrow> 'p logger res" where
  "log_run send [] lg = Inr lg"
| "log_run send ((i, r) # calls) lg = bind_res (log send i r lg) (log_run send calls)"

lemma log_remote_keeps:
  "log_remote send i r lg = Inr lg' \<Longrightarrow>
   log_files lg' = log_files lg \<and> file_open lg' = file_open lg \<and> log_size lg' = log_size lg \<and>
   filename lg' = filename lg \<and> max_size lg' = max_size lg \<and> file_level lg' = file_level lg"
  by (auto simp: log_remote_def split: option.splits if_splits)

lemma logD:
  assumes "log send i r lg = Inr lg'"
  obtains lg1 where "lg1 = (if level_num (log_level r) \<le> file_level lg then log_to_file i r lg else lg)"
    "log_files lg' = log_files lg1" "file_open lg' = file_open lg1" "log_size lg' = log_size lg1"
    "filename lg' = filename lg1" "max_size lg' = max_size lg1" "contents lg' = contents lg1"
proof -
  let ?lg1 = "if level_num (log_level r) \<le> file_level lg then log_to_file i r lg else lg"
  have "log_remote send i r ?lg1 = Inr lg'" using assms by (simp add: log_def)
  then show ?thesis using that[of ?lg1] log_remote_keeps[of send i r ?lg1 lg'] by (simp add: contents_def)
qed

text \<open>The invariant of the size: the counter is at least the length of the open file and at most \<open>B\<close>.\<close>

definition size_ok :: "nat \<Rightarrow> 'p logger \<Rightarrow> bool" where
  "size_ok B lg \<longleftrightarrow> unat (max_size lg) \<le> B \<and>
     (file_open lg \<longrightarrow> length (contents lg) \<le> unat (log_size lg) \<and> unat (log_size lg) \<le> B)"

lemma rotate_size_ok: "size_ok B lg \<Longrightarrow> size_ok B (rotate i lg) \<and> log_size (rotate i lg) = 0"
  by (simp add: size_ok_def rotate_def mill_def contents_def Let_def)

lemma append_line_size_ok:
  assumes "size_ok B lg" "unat (log_size lg) + length buf \<le> B" "B < 2 ^ 64"
  shows "size_ok B (append_line i buf lg)"
proof -
  have "unat (log_size lg + of_nat (length buf)) = unat (log_size lg) + length buf"
    using assms(2,3) by (simp add: unat_word_ariths unat_of_nat take_bit_eq_mod)
  then show ?thesis using assms(1,2) by (auto simp: size_ok_def append_line_def contents_def)
qed

lemma log_to_file_size_ok:
  assumes "size_ok B lg" "length (format_line (now_full i) r) \<le> L" "L \<le> B" "B + L < 2 ^ 64"
  shows "size_ok B (log_to_file i r lg)"
proof (cases "file_open lg")
  case False
  then show ?thesis using assms(1)
    by (simp add: size_ok_def log_to_file_def append_line_def rotate_def mill_def Let_def)
next
  case True
  let ?n = "length (format_line (now_full i) r)"
  have size: "unat (log_size lg) \<le> B" and max: "unat (max_size lg) \<le> B"
    using assms(1) True by (simp_all add: size_ok_def)
  have sum: "unat (of_nat ?n + log_size lg) = ?n + unat (log_size lg)"
    using assms(2,4) size by (simp add: unat_word_ariths unat_of_nat take_bit_eq_mod)
  show ?thesis
  proof (cases "max_size lg < of_nat ?n + log_size lg")
    case True
    have "size_ok B (append_line i (format_line (now_full i) r) (rotate i lg))"
      using rotate_size_ok[OF assms(1), of i] assms(2-4) by (intro append_line_size_ok) auto
    with True show ?thesis by (simp add: log_to_file_def)
  next
    case False
    then have "?n + unat (log_size lg) \<le> B" using sum max by (simp add: word_less_nat_alt)
    then have "size_ok B (append_line i (format_line (now_full i) r) lg)"
      using assms by (intro append_line_size_ok) auto
    with False show ?thesis by (simp add: log_to_file_def)
  qed
qed

lemma log_size_ok:
  assumes "log send i r lg = Inr lg'" "size_ok B lg" "length (format_line (now_full i) r) \<le> L" "L \<le> B" "B + L < 2 ^ 64"
  shows "size_ok B lg'"
proof -
  from assms(1) obtain lg1 where lg1: "lg1 = (if level_num (log_level r) \<le> file_level lg then log_to_file i r lg else lg)"
    and same: "file_open lg' = file_open lg1" "log_size lg' = log_size lg1" "max_size lg' = max_size lg1"
      "contents lg' = contents lg1" by (rule logD)
  have "size_ok B lg1" using log_to_file_size_ok[OF assms(2-5)] assms(2) lg1 by simp
  then show ?thesis by (simp add: size_ok_def same)
qed

lemma log_run_size_ok:
  "log_run send calls lg = Inr lg' \<Longrightarrow> size_ok B lg \<Longrightarrow>
   \<forall>(i, r) \<in> set calls. length (format_line (now_full i) r) \<le> L \<Longrightarrow> L \<le> B \<Longrightarrow> B + L < 2 ^ 64 \<Longrightarrow> size_ok B lg'"
proof (induction calls arbitrary: lg)
  case (Cons c calls)
  obtain i r where c: "c = (i, r)" by (cases c)
  with Cons.prems(1) obtain lg1 where lg1: "log send i r lg = Inr lg1" "log_run send calls lg1 = Inr lg'"
    by (auto simp: bind_res_eq_Inr)
  have "length (format_line (now_full i) r) \<le> L" using Cons.prems(3) c by simp
  then have "size_ok B lg1" by (rule log_size_ok[OF lg1(1) Cons.prems(2) _ Cons.prems(4,5)])
  then show ?case using Cons.IH[OF lg1(2)] Cons.prems by auto
qed simp

lemma closed_to_file: "\<not> file_open lg \<Longrightarrow> \<not> file_open (log_to_file i r lg) \<and> log_files (log_to_file i r lg) = log_files lg"
  by (simp add: log_to_file_def append_line_def rotate_def mill_def Let_def)

lemma closed_log:
  assumes "\<not> file_open lg" "log send i r lg = Inr lg'"
  shows "\<not> file_open lg' \<and> log_files lg' = log_files lg"
  using assms(2) by (rule logD) (use closed_to_file[OF assms(1)] assms(1) in simp)

lemma closed_log_run: "log_run send calls lg = Inr lg' \<Longrightarrow> \<not> file_open lg \<Longrightarrow> log_files lg' = log_files lg"
proof (induction calls arbitrary: lg)
  case (Cons c calls)
  then obtain lg1 where lg1: "log send (fst c) (snd c) lg = Inr lg1" "log_run send calls lg1 = Inr lg'"
    by (cases c) (auto simp: bind_res_eq_Inr)
  from closed_log[OF Cons.prems(2) lg1(1)] Cons.IH[OF lg1(2)] show ?case by simp
qed simp

subsection \<open>Retention\<close>

lemma fold_remove_file:
  "(\<And>n. remove_ok i n) \<Longrightarrow>
   fold (\<lambda>(f, _). remove_file i f) fs m n = (if n \<in> fst ` set fs then None else m n)"
  by (induction fs arbitrary: m) (auto simp: remove_file_def)

lemma backups_sorted: "sorted (map snd (backups i fname))"
  by (simp add: backups_def)

lemma backups_names: "(n, t) \<in> set (backups i fname) \<longleftrightarrow> n \<in> set (listing i) \<and> backup_time i fname n = Some t"
  by (auto simp: backups_def map_filter_def image_iff intro!: bexI[of _ n])

lemma rotated_log_to_file:
  assumes "file_open lg" "max_size lg < of_nat (length (format_line (now_full i) r)) + log_size lg"
    and "rename_ok i" "open_ok i" "length (format_line (now_full i) r) \<le> written i"
  shows "log_files (log_to_file i r lg) = (rename_file (filename lg) (backup_name i lg) (log_files lg))
    (filename lg \<mapsto> format_line (now_full i) r)"
  using assms by (simp add: log_to_file_def rotate_def mill_def append_line_def contents_def backup_name_def Let_def)

lemma appended_log_to_file:
  assumes "file_open lg" "\<not> max_size lg < of_nat (length (format_line (now_full i) r)) + log_size lg"
    and "length (format_line (now_full i) r) \<le> written i"
  shows "log_files (log_to_file i r lg) = (log_files lg)(filename lg \<mapsto> contents lg @ format_line (now_full i) r)"
  using assms by (simp add: log_to_file_def append_line_def Let_def)

lemma backup_name_neq: "backup_name i lg \<noteq> filename lg"
  by (simp add: backup_name_def)

lemma expired_split:
  "0 < n \<Longrightarrow> \<exists>kept. xs = expired n xs @ kept \<and> length kept = min n (length xs)"
  by (rule exI[of _ "drop (length (expired n xs)) xs"]) (auto simp: expired_def min_def)

subsection \<open>Logs\<close>

definition sample_io :: io where
  "sample_io = \<lparr>rename_ok = True, open_ok = True, written = 1000, now_full = ascii ''T'',
     now_rfc3339 = ascii ''T'', now_unix = Some 0\<rparr>"

definition sample_record :: log_record where
  "sample_record = \<lparr>log_level = LError, log_target = ascii ''t'', log_file = None, log_line = None,
     log_args = ascii ''hello''\<rparr>"

definition sample_logger :: "nat logger" where
  "sample_logger = \<lparr>max_size = 40, log_size = 30, filename = ascii ''a.log'', file_open = True,
     file_level = 3, remote_level = 1, mill_pending = False, log_client = None,
     log_files = [ascii ''a.log'' \<mapsto> replicate 30 0x61]\<rparr>"

definition sample_mio :: mio where
  "sample_mio = \<lparr>listing = map ascii [''a.log'', ''a.log-3'', ''a.log-1'', ''a.log-2.gz''],
     parse_time = map_of [([0x31], 1), ([0x32], 2), ([0x33], 3)], remove_ok = (\<lambda>n. True), gzip = Some,
     create_ok = (\<lambda>n. True), gz_written = (\<lambda>n. 1000)\<rparr>"

lemma show_nat_0: "show_nat 0 = [0x30]"
  by code_simp

lemmas sample_log_defs = sample_io_def sample_record_def sample_logger_def format_line_def contents_def

subsection \<open>Properties\<close>

text \<open>C24: the open log file stays within its bound. However the system answers, after any sequence of
  calls the file that is open has at most as many bytes as the greater of the configured size, what
  the file had at the start and the longest line. The hypothesis on the numbers excludes only that
  the \<open>u64\<close> counter wraps.\<close>

theorem log_file_is_bounded:
  assumes "log_run send calls lg = Inr lg'"
    and "length (contents lg) \<le> unat (log_size lg)" "unat (log_size lg) \<le> B" "unat (max_size lg) \<le> B"
    and "\<forall>(i, r) \<in> set calls. length (format_line (now_full i) r) \<le> L" "L \<le> B" "B + L < 2 ^ 64"
    and "file_open lg'"
  shows "length (contents lg') \<le> B"
proof -
  have "size_ok B lg" using assms(2-4) by (simp add: size_ok_def)
  from log_run_size_ok[OF assms(1) this assms(5-7)] show ?thesis using assms(8) by (simp add: size_ok_def)
qed

theorem log_file_is_bounded_witness:
  "\<exists>lg'. log_run (\<lambda>_. id) [(sample_io, sample_record), (sample_io, sample_record)] sample_logger = Inr lg' \<and>
     length (contents lg') \<le> 40"
proof -
  have "level_num (log_level sample_record) \<le> file_level sample_logger" "log_client sample_logger = None"
    by (simp_all add: sample_log_defs)
  then obtain lg' where lg': "log_run (\<lambda>_. id) [(sample_io, sample_record), (sample_io, sample_record)] sample_logger = Inr lg'"
      "file_open lg'"
    by (simp add: log_def log_remote_def log_to_file_def append_line_def rotate_def mill_def Let_def sample_log_defs show_nat_0)
  have "length (contents lg') \<le> 40"
    by (rule log_file_is_bounded[OF lg'(1), where L = 20]) (simp_all add: sample_log_defs show_nat_0 lg'(2))
  with lg'(1) show ?thesis by blast
qed



text \<open>The cleaning thread keeps the newest backups. When it removes files and the system lets it, what
  remains are as many backups as configured (or all, when there are fewer), none of them older than
  one that was removed, and every file that is not a backup stays; in particular the log itself,
  as the empty string is not a time.\<close>

theorem mill_keeps_newest:
  assumes "0 < max_backups" "\<And>n. remove_ok i n" "parse_time i [] = None" "distinct (map fst (backups i fname))"
  shows "\<exists>removed kept. backups i fname = removed @ kept \<and> length kept = min max_backups (length (backups i fname)) \<and>
    (\<forall>(n, t) \<in> set removed. \<forall>(n', t') \<in> set kept. t \<le> t') \<and>
    (\<forall>n. mill_round max_backups False i fname fs n = (if n \<in> fst ` set removed then None else fs n)) \<and>
    fst ` set kept \<inter> fst ` set removed = {} \<and> mill_round max_backups False i fname fs fname = fs fname"
proof -
  obtain kept where split: "backups i fname = expired max_backups (backups i fname) @ kept"
      "length kept = min max_backups (length (backups i fname))"
    using expired_split[OF assms(1)] by blast
  let ?removed = "expired max_backups (backups i fname)"
  have round: "mill_round max_backups False i fname fs n = (if n \<in> fst ` set ?removed then None else fs n)" for n
    using fold_remove_file[OF assms(2), of ?removed fs n] by (simp add: mill_round_def)
  have "sorted (map snd (?removed @ kept))" using backups_sorted[of i fname] split(1) by simp
  then have order: "\<forall>(n, t) \<in> set ?removed. \<forall>(n', t') \<in> set kept. t \<le> t'" by (fastforce simp: sorted_append)
  have disjoint: "fst ` set kept \<inter> fst ` set ?removed = {}"
    using assms(4) split(1) by (metis distinct_append image_set inf_commute map_append)
  have "backup_time i fname fname = None"
    using assms(3) by (simp add: backup_time_def)
  moreover have "set ?removed \<subseteq> set (backups i fname)" using split(1) by (metis Un_upper1 set_append)
  ultimately have "fname \<notin> fst ` set ?removed" using backups_names[of fname _ i fname] by fastforce
  then have live: "mill_round max_backups False i fname fs fname = fs fname" by (simp add: round)
  show ?thesis
    by (rule exI[of _ ?removed], rule exI[of _ kept])
      (intro conjI allI, rule split(1), rule split(2), rule order, rule round, rule disjoint, rule live)
qed

theorem mill_keeps_newest_witness:
  "\<exists>removed kept. backups sample_mio (ascii ''a.log'') = removed @ kept \<and>
    length kept = min 2 (length (backups sample_mio (ascii ''a.log''))) \<and>
    (\<forall>(n, t) \<in> set removed. \<forall>(n', t') \<in> set kept. t \<le> t') \<and>
    (\<forall>n. mill_round 2 False sample_mio (ascii ''a.log'') Map.empty n =
       (if n \<in> fst ` set removed then None else Map.empty n)) \<and>
    fst ` set kept \<inter> fst ` set removed = {} \<and>
    mill_round 2 False sample_mio (ascii ''a.log'') Map.empty (ascii ''a.log'') = None"
proof -
  have "distinct (map fst (backups sample_mio (ascii ''a.log'')))" by code_simp
  moreover have "parse_time sample_mio [] = None" "remove_ok sample_mio n" for n by (code_simp, simp add: sample_mio_def)
  ultimately show ?thesis using mill_keeps_newest[of 2 sample_mio "ascii ''a.log''" Map.empty] by simp
qed

text \<open>A logger whose rotation fails once is silent for ever: when the log cannot be renamed, no later
  call writes to any file, as the file is never opened again.\<close>

theorem log_is_silent_after_failure:
  assumes "file_open lg" "level_num (log_level r) \<le> file_level lg"
    and "max_size lg < of_nat (length (format_line (now_full i) r)) + log_size lg" "\<not> rename_ok i"
    and "log_run send ((i, r) # calls) lg = Inr lg'"
  shows "log_files lg' = log_files lg"
proof -
  obtain lg1 where lg1: "log send i r lg = Inr lg1" "log_run send calls lg1 = Inr lg'"
    using assms(5) by (auto simp: bind_res_eq_Inr)
  have "\<not> file_open (log_to_file i r lg)" "log_files (log_to_file i r lg) = log_files lg"
    using assms(1,3,4) by (simp_all add: log_to_file_def append_line_def rotate_def mill_def Let_def)
  then have "\<not> file_open lg1" "log_files lg1 = log_files lg"
    using lg1(1) assms(2) by (auto elim!: logD)
  then show ?thesis using closed_log_run[OF lg1(2)] by simp
qed

theorem log_is_silent_after_failure_witness:
  "\<exists>lg'. log_run (\<lambda>_. id) [(sample_io\<lparr>rename_ok := False\<rparr>, sample_record), (sample_io, sample_record)] sample_logger = Inr lg' \<and>
     log_files lg' = log_files sample_logger"
proof -
  let ?i = "sample_io\<lparr>rename_ok := False\<rparr>"
  obtain lg' where lg': "log_run (\<lambda>_. id) [(?i, sample_record), (sample_io, sample_record)] sample_logger = Inr lg'"
    by (simp add: log_def log_remote_def log_to_file_def append_line_def rotate_def mill_def Let_def sample_log_defs show_nat_0)
  have "log_files lg' = log_files sample_logger"
    by (rule log_is_silent_after_failure[OF _ _ _ _ lg']) (simp_all add: sample_log_defs show_nat_0)
  with lg' show ?thesis by blast
qed

text \<open>The level test of the interface answers no for records that a call would write to the file.\<close>

lemma enabled_denies_logged:
  "\<not> enabled LInfo sample_logger \<and> level_num LInfo \<le> file_level sample_logger"
  by (simp add: enabled_def sample_logger_def)

end
