(* ===== verification/Journal_Watcher.thy ===== *)
theory Journal_Watcher
  imports Rust_Std "HOL-Library.Monad_Syntax"
begin

section \<open>The journal watcher\<close>

text \<open>
  The plugin \<^verbatim>\<open>src/plugins/journal_watcher\<close>: the grammar \<^verbatim>\<open>sshd.pest\<close> read as the parsing expression grammar
  it is (sequence, ordered choice, greedy repetition; a rule with \<open>@\<close> gives one token, the rule \<open>ws\<close>
  none; a parse may leave a rest), and the thread \<open>send_record\<close> of \<^verbatim>\<open>main.rs\<close>, one round of its loop
  at a time. Strings are byte lists. The JSON parser, the subprocess, the clock and the client are
  the fields of the record \<open>journal\<close>. Log lines are left out.
\<close>

subsection \<open>The grammar\<close>

definition is_char :: "byte \<Rightarrow> bool" where
  "is_char b \<longleftrightarrow> 0x30 \<le> b \<and> b \<le> 0x39 \<or> 0x41 \<le> b \<and> b \<le> 0x5a \<or> 0x61 \<le> b \<and> b \<le> 0x7a \<or>
     b = 0x2d \<or> b = 0x5f \<or> b = 0x2e \<or> b = 0x40"

definition lit :: "bytes \<Rightarrow> bytes \<Rightarrow> bytes option" where
  "lit p s = (if starts_with s p then Some (drop (length p) s) else None)"

definition char_star :: "bytes \<Rightarrow> bytes \<times> bytes" where
  "char_star s = (takeWhile is_char s, dropWhile is_char s)"

definition char_plus :: "bytes \<Rightarrow> (bytes \<times> bytes) option" where
  "char_plus s = (case char_star s of (t, r) \<Rightarrow> if t = [] then None else Some (t, r))"

definition opt_lit :: "bytes \<Rightarrow> bytes \<Rightarrow> bytes \<times> bytes" where
  "opt_lit p s = (case lit p s of None \<Rightarrow> ([], s) | Some r \<Rightarrow> (p, r))"

definition authenticated :: "bytes \<Rightarrow> (bytes \<times> bytes) option" where
  "authenticated s =
     (case lit (ascii ''Accepted'') s of
        Some r \<Rightarrow> Some (ascii ''Accepted'', r)
      | None \<Rightarrow> (case lit (ascii ''Failed'') s of Some r \<Rightarrow> Some (ascii ''Failed'', r) | None \<Rightarrow> None))"

definition valid :: "bytes \<Rightarrow> bytes \<times> bytes" where
  "valid s = opt_lit (ascii ''invalid user '') s"

datatype event = Login "bytes list" | Certify "bytes list"

definition login :: "bytes \<Rightarrow> event option" where
  "login s = do {
     (authenticated, s) \<leftarrow> authenticated s;
     s \<leftarrow> lit (ascii '' '') s;
     (method, s) \<leftarrow> char_plus s;
     s \<leftarrow> lit (ascii '' '') s;
     s \<leftarrow> lit (ascii ''for'') s;
     s \<leftarrow> lit (ascii '' '') s;
     (valid, s) \<leftarrow> Some (valid s);
     (user, s) \<leftarrow> Some (char_star s);
     s \<leftarrow> lit (ascii '' '') s;
     s \<leftarrow> lit (ascii ''from'') s;
     s \<leftarrow> lit (ascii '' '') s;
     (sip, s) \<leftarrow> char_plus s;
     s \<leftarrow> lit (ascii '' '') s;
     s \<leftarrow> lit (ascii ''port'') s;
     s \<leftarrow> lit (ascii '' '') s;
     (sport, s) \<leftarrow> char_plus s;
     s \<leftarrow> lit (ascii '' '') s;
     s \<leftarrow> lit (ascii ''ssh2'') s;
     (_, s) \<leftarrow> Some (opt_lit (ascii '':'') s);
     (_, s) \<leftarrow> Some (opt_lit (ascii '' '') s);
     Some (Login [authenticated, method, valid, user, sip, sport, s]) }"

definition certify :: "bytes \<Rightarrow> event option" where
  "certify s = do {
     s \<leftarrow> lit (ascii ''Authorized to'') s;
     s \<leftarrow> lit (ascii '' '') s;
     (user, s) \<leftarrow> Some (char_star s);
     s \<leftarrow> lit (ascii '', krb5 principal'') s;
     s \<leftarrow> lit (ascii '' '') s;
     (principal, s) \<leftarrow> char_plus s;
     s \<leftarrow> lit (ascii '' '') s;
     s \<leftarrow> lit (ascii ''(krb5_kuserok)'') s;
     Some (Certify [user, principal]) }"

definition parse_event :: "bytes \<Rightarrow> event option" where
  "parse_event s = (case login s of Some e \<Rightarrow> Some e | None \<Rightarrow> certify s)"

subsection \<open>Entries and records\<close>

datatype LogFormat = Json | Log

record Entry =
  entry_message :: bytes
  entry_pid :: bytes

record Record =
  rec_data_type :: int
  rec_timestamp :: int
  rec_fields :: "bytes \<rightharpoonup> bytes"

record 'w journal =
  from_json :: "bytes \<Rightarrow> Entry option"
  path_var :: "bytes option"
  is_file :: "bytes \<Rightarrow> bool"
  has_metadata :: "bytes \<Rightarrow> bool"
  spawn_reader :: "bytes list \<Rightarrow> 'w \<Rightarrow> bytes option list option \<times> 'w"
  unix_time :: "'w \<Rightarrow> int option \<times> 'w"
  send :: "Record \<Rightarrow> 'w \<Rightarrow> bool \<times> 'w"
  store_child :: "'w \<Rightarrow> 'w"
  kill_child :: "'w \<Rightarrow> 'w"
  reap_child :: "'w \<Rightarrow> bool \<times> 'w"
  sleep_ten :: "'w \<Rightarrow> 'w"

definition find_command :: "'w journal \<Rightarrow> bytes \<Rightarrow> bytes option" where
  "find_command J exe_name =
     (case path_var J of
        None \<Rightarrow> None
      | Some paths \<Rightarrow> find (is_file J) (map (\<lambda>dir. path_join dir exe_name) (split_on 0x3a paths)))"

text \<open>\<open>Inr None\<close> is the \<open>continue\<close> of the source.\<close>

definition log_entry :: "bytes \<Rightarrow> Entry option res" where
  "log_entry line =
     (let fields = splitn_whitespace 7 line in
      if length fields \<noteq> 7 \<or> \<not> starts_with (fields ! 5) (ascii ''sshd['') then Inr None
      else bind_res (str_from (fields ! 4) 5) (\<lambda>pid.
        Inr (Some \<lparr>entry_message = fields ! 5, entry_pid = trim_end_byte 0x5d pid\<rparr>)))"

definition entry_of :: "'w journal \<Rightarrow> LogFormat \<Rightarrow> bytes \<Rightarrow> Entry option res" where
  "entry_of J format line = (case format of Json \<Rightarrow> Inr (from_json J line) | Log \<Rightarrow> log_entry line)"

text \<open>\<open>next().unwrap()\<close> on the tokens of an event.\<close>

definition next_unwrap :: "bytes list \<Rightarrow> (bytes \<times> bytes list) res" where
  "next_unwrap ts = (case ts of [] \<Rightarrow> Inl Panic | t # ts \<Rightarrow> Inr (t, ts))"

definition login_record :: "bytes list \<Rightarrow> Record res" where
  "login_record ts =
     bind_res (next_unwrap ts) (\<lambda>(status, ts).
     bind_res (next_unwrap ts) (\<lambda>(types, ts).
     bind_res (next_unwrap ts) (\<lambda>(invalid, ts).
     bind_res (next_unwrap ts) (\<lambda>(user, ts).
     bind_res (next_unwrap ts) (\<lambda>(sip, ts).
     bind_res (next_unwrap ts) (\<lambda>(sport, ts).
     bind_res (next_unwrap ts) (\<lambda>(extra, ts).
     Inr \<lparr>rec_data_type = 4000, rec_timestamp = 0, rec_fields = [
       ascii ''status'' \<mapsto> (if status = ascii ''Accepted'' then ascii ''true'' else ascii ''false''),
       ascii ''types'' \<mapsto> types,
       ascii ''invalid'' \<mapsto> (if invalid = ascii ''invalid user'' then ascii ''true'' else ascii ''false''),
       ascii ''user'' \<mapsto> user,
       ascii ''sip'' \<mapsto> sip,
       ascii ''sport'' \<mapsto> sport,
       ascii ''extra'' \<mapsto> extra]\<rparr>)))))))"

definition certify_record :: "bytes list \<Rightarrow> Record res" where
  "certify_record ts =
     bind_res (next_unwrap ts) (\<lambda>(authorized, ts).
     bind_res (next_unwrap ts) (\<lambda>(principal, ts).
     Inr \<lparr>rec_data_type = 4001, rec_timestamp = 0, rec_fields = [
       ascii ''authorized'' \<mapsto> authorized,
       ascii ''principal'' \<mapsto> principal]\<rparr>))"

definition event_record :: "bytes \<Rightarrow> Record option res" where
  "event_record message =
     (case parse_event message of
        None \<Rightarrow> Inr None
      | Some (Login ts) \<Rightarrow> bind_res (login_record ts) (\<lambda>r. Inr (Some r))
      | Some (Certify ts) \<Rightarrow> bind_res (certify_record ts) (\<lambda>r. Inr (Some r)))"

definition line_record :: "'w journal \<Rightarrow> LogFormat \<Rightarrow> bytes \<Rightarrow> (Record \<times> Entry) option res" where
  "line_record J format line =
     bind_res (entry_of J format line) (\<lambda>entry.
     case entry of
       None \<Rightarrow> Inr None
     | Some entry \<Rightarrow> bind_res (event_record (entry_message entry)) (\<lambda>r. Inr (map_option (\<lambda>r. (r, entry)) r)))"

definition finish_record :: "int \<Rightarrow> Entry \<Rightarrow> Record \<Rightarrow> Record" where
  "finish_record now entry r = r\<lparr>rec_timestamp := now,
     rec_fields := (rec_fields r)(ascii ''pid'' \<mapsto> entry_pid entry, ascii ''rawlog'' \<mapsto> entry_message entry)\<rparr>"

subsection \<open>The loop\<close>

datatype lines_exit = LinesEnd | ClientFailed | LinePanic

fun send_lines :: "'w journal \<Rightarrow> LogFormat \<Rightarrow> bytes option list \<Rightarrow> 'w \<Rightarrow> lines_exit \<times> 'w" where
  "send_lines J format [] w = (LinesEnd, w)"
| "send_lines J format (None # ls) w = (LinesEnd, w)"
| "send_lines J format (Some line # ls) w =
     (case line_record J format line of
        Inl _ \<Rightarrow> (LinePanic, w)
      | Inr None \<Rightarrow> send_lines J format ls w
      | Inr (Some (r, entry)) \<Rightarrow>
          (case unix_time J w of
             (None, w) \<Rightarrow> (LinePanic, w)
           | (Some now, w) \<Rightarrow>
               (case send J (finish_record now entry r) w of
                  (False, w) \<Rightarrow> (ClientFailed, kill_child J w)
                | (True, w) \<Rightarrow> send_lines J format ls w)))"

definition log_source :: "'w journal \<Rightarrow> (bytes list \<times> LogFormat) option" where
  "log_source J =
     (if find_command J (ascii ''journalctl'') \<noteq> None
      then Some (map ascii [''journalctl'', ''-f'', ''_COMM=sshd'', ''-o'', ''json''], Json)
      else if has_metadata J (ascii ''/var/log/auth.log'')
      then Some (map ascii [''tail'', ''-F'', ''/var/log/auth.log''], Log)
      else if has_metadata J (ascii ''/var/log/secure'')
      then Some (map ascii [''tail'', ''-F'', ''/var/log/secure''], Log)
      else None)"

datatype round_exit = NextRound | Returned | RoundPanic

text \<open>One round of the outer loop. \<open>reap_child\<close> is the last block: it tells whether the other thread has
  left the child in place, and if so kills it and waits for it.\<close>

definition send_record_round :: "'w journal \<Rightarrow> 'w \<Rightarrow> round_exit \<times> 'w" where
  "send_record_round J w =
     (case log_source J of
        None \<Rightarrow> (Returned, w)
      | Some (cmd, format) \<Rightarrow>
          (case spawn_reader J cmd w of
             (None, w) \<Rightarrow> (Returned, w)
           | (Some ls, w) \<Rightarrow>
               (case send_lines J format ls (store_child J w) of
                  (LinePanic, w) \<Rightarrow> (RoundPanic, w)
                | (ClientFailed, w) \<Rightarrow> (Returned, w)
                | (LinesEnd, w) \<Rightarrow>
                    (case reap_child J w of
                       (True, w) \<Rightarrow> (NextRound, sleep_ten J w)
                     | (False, w) \<Rightarrow> (Returned, w)))))"

subsection \<open>Parsing what \<open>sshd\<close> prints\<close>

lemma lit_append [simp]: "lit p (p @ s) = Some s"
  by (simp add: lit_def starts_with_def)

lemma lit_Some_iff: "lit p s = Some r \<longleftrightarrow> s = p @ r"
  by (auto simp: lit_def starts_with_def) (metis append_take_drop_id)

lemma char_star_append:
  "list_all is_char t \<Longrightarrow> r = [] \<or> \<not> is_char (hd r) \<Longrightarrow> char_star (t @ r) = (t, r)"
  by (cases r) (auto simp: char_star_def list_all_iff takeWhile_append dropWhile_append)

lemma char_star_space [simp]: "list_all is_char t \<Longrightarrow> char_star (t @ 0x20 # r) = (t, 0x20 # r)"
  by (rule char_star_append) (simp_all add: is_char_def)

lemma char_plus_space [simp]: "list_all is_char t \<Longrightarrow> t \<noteq> [] \<Longrightarrow> char_plus (t @ 0x20 # r) = Some (t, 0x20 # r)"
  by (simp add: char_plus_def)

lemma char_star_comma [simp]: "list_all is_char t \<Longrightarrow> char_star (t @ 0x2c # r) = (t, 0x2c # r)"
  by (rule char_star_append) (simp_all add: is_char_def)

lemmas lit_eval = lit_def starts_with_def opt_lit_def

lemma valid_user:
  assumes "list_all is_char user"
  shows "valid (user @ 0x20 # 0x66 # r) = ([], user @ 0x20 # 0x66 # r)"
proof -
  have False if "user @ 0x20 # 0x66 # r = ascii ''invalid user '' @ q" for q
  proof -
    have "char_star (ascii ''invalid user '' @ q) = (ascii ''invalid'', 0x20 # ascii ''user '' @ q)"
      by (simp add: char_star_def is_char_def)
    with that char_star_space[OF assms, of "0x66 # r"] show False by simp
  qed
  then have "lit (ascii ''invalid user '') (user @ 0x20 # 0x66 # r) = None"
    using lit_Some_iff by (metis not_None_eq)
  then show ?thesis by (simp only: valid_def opt_lit_def option.case)
qed

definition print_login :: "bool \<Rightarrow> bytes \<Rightarrow> bool \<Rightarrow> bytes \<Rightarrow> bytes \<Rightarrow> bytes \<Rightarrow> bytes \<Rightarrow> bytes" where
  "print_login accepted method invalid user sip sport extra =
     (if accepted then ascii ''Accepted'' else ascii ''Failed'') @ ascii '' '' @ method @ ascii '' for '' @
     (if invalid then ascii ''invalid user '' else []) @ user @ ascii '' from '' @ sip @ ascii '' port '' @
     sport @ ascii '' ssh2'' @ (if extra = [] then [] else ascii '': '' @ extra)"

definition print_certify :: "bytes \<Rightarrow> bytes \<Rightarrow> bytes" where
  "print_certify user realm =
     ascii ''Authorized to '' @ user @ ascii '', krb5 principal '' @ realm @ ascii '' (krb5_kuserok)''"

lemma valid_invalid: "valid (ascii ''invalid user '' @ s) = (ascii ''invalid user '', s)"
  unfolding valid_def opt_lit_def lit_append by simp

lemma login_print:
  assumes "list_all is_char method" "method \<noteq> []" "list_all is_char user"
    and "list_all is_char sip" "sip \<noteq> []" "list_all is_char sport" "sport \<noteq> []"
  shows "login (print_login accepted method invalid user sip sport extra) =
    Some (Login [if accepted then ascii ''Accepted'' else ascii ''Failed'', method,
      if invalid then ascii ''invalid user '' else [], user, sip, sport, extra])"
  using assms valid_user[OF assms(3)] valid_invalid
  by (cases accepted; cases invalid; cases "extra = []")
    (simp_all add: login_def print_login_def authenticated_def lit_eval)

lemma certify_print:
  assumes "list_all is_char user" "list_all is_char realm" "realm \<noteq> []"
  shows "parse_event (print_certify user realm) = Some (Certify [user, realm])"
  using assms by (simp add: parse_event_def login_def authenticated_def certify_def print_certify_def lit_eval)

subsection \<open>The tokens of an event\<close>

lemma valid_token: "fst (valid s) \<in> {[], ascii ''invalid user ''}"
  by (auto simp: valid_def opt_lit_def simp del: ascii_Cons split: option.splits)

lemma login_tokens:
  assumes "login s = Some e"
  shows "\<exists>a m v u i q x. e = Login [a, m, v, u, i, q, x] \<and> v \<in> {[], ascii ''invalid user ''}"
proof -
  have "\<exists>a m t u i q x. e = Login [a, m, fst (valid t), u, i, q, x]"
    using assms unfolding login_def case_prod_beta bind_eq_Some_conv option.inject by blast
  then show ?thesis using valid_token by metis
qed

lemma certify_tokens:
  assumes "certify s = Some e"
  shows "\<exists>u q. e = Certify [u, q]"
  using assms unfolding certify_def case_prod_beta bind_eq_Some_conv option.inject by blast

lemma parse_event_cases:
  assumes "parse_event s = Some e"
  obtains (login) a m v u i q x where "e = Login [a, m, v, u, i, q, x]" "v \<in> {[], ascii ''invalid user ''}"
  | (certify) u q where "e = Certify [u, q]"
proof (cases "login s")
  case None
  then have "certify s = Some e" using assms by (simp add: parse_event_def)
  then show ?thesis using certify_tokens certify by blast
next
  case (Some e')
  then have "e' = e" using assms by (simp add: parse_event_def)
  with Some show ?thesis using login_tokens[of s e] login by blast
qed

lemma parse_event_head:
  assumes "parse_event s = Some e"
  shows "s \<noteq> [] \<and> hd s \<in> {of_char (CHR ''A''), of_char (CHR ''F'')}"
proof -
  have "authenticated s = Some t \<Longrightarrow> ?thesis" for t
    by (cases s) (auto simp: authenticated_def lit_eval split: if_splits)
  moreover have "lit (ascii ''Authorized to'') s = Some t \<Longrightarrow> ?thesis" for t
    by (cases s) (auto simp: lit_eval split: if_splits)
  moreover have "(\<exists>t. authenticated s = Some t) \<or> (\<exists>t. lit (ascii ''Authorized to'') s = Some t)"
  proof (cases "login s")
    case None
    then have "certify s = Some e" using assms by (simp add: parse_event_def)
    then show ?thesis unfolding certify_def bind_eq_Some_conv by blast
  next
    case (Some e)
    then show ?thesis unfolding login_def bind_eq_Some_conv by blast
  qed
  ultimately show ?thesis by blast
qed

definition login_keys :: "bytes set" where
  "login_keys = ascii ` {''extra'', ''sport'', ''sip'', ''user'', ''invalid'', ''types'', ''status''}"

definition certify_keys :: "bytes set" where
  "certify_keys = ascii ` {''principal'', ''authorized''}"

lemma event_record_cases:
  obtains (none) "event_record m = Inr None"
  | (login) r where "event_record m = Inr (Some r)" "rec_data_type r = 4000" "dom (rec_fields r) = login_keys"
      "rec_fields r (ascii ''invalid'') = Some (ascii ''false'')"
  | (certify) r where "event_record m = Inr (Some r)" "rec_data_type r = 4001" "dom (rec_fields r) = certify_keys"
proof (cases "parse_event m")
  case None
  then show ?thesis using none by (simp add: event_record_def)
next
  case (Some e)
  from Some show ?thesis
  proof (cases rule: parse_event_cases)
    case (login a m v u i q x)
    with Some that(2) show ?thesis
      by (auto simp: event_record_def login_record_def next_unwrap_def bind_res_def login_keys_def)
  next
    case (certify u q)
    with Some that(3) show ?thesis
      by (auto simp: event_record_def certify_record_def next_unwrap_def bind_res_def certify_keys_def)
  qed
qed

subsection \<open>What the loop delivers\<close>

text \<open>The records that the lines give, up to the first line that cannot be read, and their delivery one
  by one: the specification of the loop over the JSON lines of the journal.\<close>

definition json_record :: "'w journal \<Rightarrow> bytes \<Rightarrow> (Record \<times> Entry) option" where
  "json_record J line = do {
     entry \<leftarrow> from_json J line;
     r \<leftarrow> (case event_record (entry_message entry) of Inl _ \<Rightarrow> None | Inr r \<Rightarrow> r);
     Some (r, entry) }"

definition journal_records :: "'w journal \<Rightarrow> bytes option list \<Rightarrow> (Record \<times> Entry) list" where
  "journal_records J ls = List.map_filter (json_record J) (map the (takeWhile (\<lambda>l. l \<noteq> None) ls))"

fun deliver :: "'w journal \<Rightarrow> (Record \<times> Entry) list \<Rightarrow> 'w \<Rightarrow> lines_exit \<times> 'w" where
  "deliver J [] w = (LinesEnd, w)"
| "deliver J ((r, entry) # rs) w =
     (case unix_time J w of
        (None, w) \<Rightarrow> (LinePanic, w)
      | (Some now, w) \<Rightarrow>
          (case send J (finish_record now entry r) w of
             (False, w) \<Rightarrow> (ClientFailed, kill_child J w)
           | (True, w) \<Rightarrow> deliver J rs w))"

lemma event_record_total: "\<exists>r. event_record m = Inr r"
  by (cases m rule: event_record_cases) auto

lemma line_record_json: "line_record J Json line = Inr (json_record J line)"
proof (cases "from_json J line")
  case (Some entry)
  obtain r where "event_record (entry_message entry) = Inr r" using event_record_total by blast
  with Some show ?thesis by (cases r) (simp_all add: line_record_def entry_of_def json_record_def)
qed (simp add: line_record_def entry_of_def json_record_def)

lemma journal_records_simps [simp]:
  "journal_records J [] = []"
  "journal_records J (None # ls) = []"
  "journal_records J (Some line # ls) =
     (case json_record J line of None \<Rightarrow> journal_records J ls | Some r \<Rightarrow> r # journal_records J ls)"
  by (simp_all add: journal_records_def map_filter_def split: option.splits)

lemma log_entry_message: "log_entry line = Inr (Some entry) \<Longrightarrow> starts_with (entry_message entry) (ascii ''sshd['')"
  by (auto simp: log_entry_def Let_def bind_res_eq_Inr simp del: ascii_Cons split: if_splits)

lemma sshd_message: "starts_with m (ascii ''sshd['') \<Longrightarrow> event_record m = Inr None"
  using parse_event_head[of m] by (cases m; cases "parse_event m") (auto simp: event_record_def starts_with_def)

lemma line_record_log: "line_record J Log line = Inr None \<or> line_record J Log line = Inl Panic"
proof (cases "log_entry line")
  case (Inl e)
  then show ?thesis by (auto simp: log_entry_def Let_def str_from_def line_record_def entry_of_def split: if_splits)
next
  case (Inr entry)
  then show ?thesis
    by (cases entry) (simp_all add: line_record_def entry_of_def sshd_message[OF log_entry_message])
qed

subsection \<open>A journal\<close>

text \<open>A world that is the list of the records sent, at noon.\<close>

definition sample_journal :: "Record list journal" where
  "sample_journal = \<lparr>from_json = (\<lambda>line. Some \<lparr>entry_message = line, entry_pid = ascii ''7''\<rparr>),
     path_var = Some (ascii ''/bin''), is_file = (\<lambda>p. True), has_metadata = (\<lambda>p. True),
     spawn_reader = (\<lambda>cmd w. (Some [], w)), unix_time = (\<lambda>w. (Some 43200, w)),
     send = (\<lambda>r w. (True, w @ [r])), store_child = id, kill_child = id,
     reap_child = (\<lambda>w. (True, w)), sleep_ten = id\<rparr>"

subsection \<open>Properties\<close>

text \<open>C22: what \<open>sshd\<close> prints about a login is reported with its parts: the record has the type 4000, tells
  whether the login was accepted, and has the method, the user, the address, the port and the rest of
  the line as its fields. Only the mark of an invalid user is lost: the field \<open>invalid\<close> says \<open>false\<close> whether
  the mark was printed or not, because the token it is compared with ends in a space. The hypotheses are that the printed parts are words of the grammar.\<close>

theorem login_line_is_reported:
  assumes "list_all is_char method" "method \<noteq> []" "list_all is_char user"
    and "list_all is_char sip" "sip \<noteq> []" "list_all is_char sport" "sport \<noteq> []"
  shows "\<exists>r. event_record (print_login accepted method invalid user sip sport extra) = Inr (Some r) \<and>
    rec_data_type r = 4000 \<and> rec_fields r =
      [ascii ''status'' \<mapsto> if accepted then ascii ''true'' else ascii ''false'', ascii ''types'' \<mapsto> method, ascii ''invalid'' \<mapsto> ascii ''false'',
       ascii ''user'' \<mapsto> user, ascii ''sip'' \<mapsto> sip, ascii ''sport'' \<mapsto> sport, ascii ''extra'' \<mapsto> extra]"
  using login_print[OF assms, of accepted invalid extra]
  by (simp add: event_record_def parse_event_def login_record_def next_unwrap_def)

theorem login_line_is_reported_witness:
  "\<exists>r. event_record (print_login False (ascii ''password'') True (ascii ''bob'') (ascii ''10.2.2.1'') (ascii ''57294'') []) =
      Inr (Some r) \<and> rec_data_type r = 4000 \<and> rec_fields r (ascii ''user'') = Some (ascii ''bob'') \<and>
    rec_fields r (ascii ''sip'') = Some (ascii ''10.2.2.1'') \<and> rec_fields r (ascii ''invalid'') = Some (ascii ''false'')"
proof -
  have "list_all is_char (ascii ''password'')" "list_all is_char (ascii ''bob'')" "list_all is_char (ascii ''10.2.2.1'')"
      "list_all is_char (ascii ''57294'')" by (simp_all add: is_char_def)
  from login_line_is_reported[OF this(1) _ this(2,3) _ this(4), of False True "[]"]
  obtain r where "event_record (print_login False (ascii ''password'') True (ascii ''bob'') (ascii ''10.2.2.1'') (ascii ''57294'') []) = Inr (Some r)"
    "rec_data_type r = 4000" and fields: "rec_fields r =
      [ascii ''status'' \<mapsto> if False then ascii ''true'' else ascii ''false'', ascii ''types'' \<mapsto> ascii ''password'', ascii ''invalid'' \<mapsto> ascii ''false'',
       ascii ''user'' \<mapsto> ascii ''bob'', ascii ''sip'' \<mapsto> ascii ''10.2.2.1'', ascii ''sport'' \<mapsto> ascii ''57294'', ascii ''extra'' \<mapsto> []]"
    by auto
  moreover have "rec_fields r (ascii ''user'') = Some (ascii ''bob'')" "rec_fields r (ascii ''sip'') = Some (ascii ''10.2.2.1'')"
      "rec_fields r (ascii ''invalid'') = Some (ascii ''false'')" unfolding fields by simp_all
  ultimately show ?thesis by blast
qed

text \<open>C27: the loop over the JSON lines of the journal delivers exactly the records of the lines, in their
  order, up to the first line that cannot be read, and stops at the first that cannot be sent. No
  line makes it panic.\<close>

theorem send_lines_refines: "send_lines J Json ls w = deliver J (journal_records J ls) w"
proof (induction ls arbitrary: w)
  case (Cons l ls)
  show ?case
    by (cases l) (auto simp: line_record_json Cons.IH split: option.splits prod.splits bool.splits)
qed simp

text \<open>The field \<open>invalid\<close> of a login record is always \<open>false\<close>, also for a user that does not exist: the token
  it is compared with ends in a space.\<close>

theorem invalid_user_is_not_reported:
  assumes "event_record message = Inr (Some r)" "rec_data_type r = 4000"
  shows "rec_fields r (ascii ''invalid'') = Some (ascii ''false'')"
  using assms by (cases message rule: event_record_cases) auto

theorem invalid_user_is_not_reported_witness:
  "\<exists>r. event_record (ascii ''Failed password for invalid user bob from 10.2.2.1 port 57294 ssh2'') = Inr (Some r) \<and>
     rec_fields r (ascii ''invalid'') = Some (ascii ''false'')"
proof -
  obtain r where "event_record (ascii ''Failed password for invalid user bob from 10.2.2.1 port 57294 ssh2'') = Inr (Some r)"
      "rec_data_type r = 4000"
    using login_print[of "ascii ''password''" "ascii ''bob''" "ascii ''10.2.2.1''" "ascii ''57294''" False True "[]"]
    by (simp add: event_record_def parse_event_def login_record_def next_unwrap_def print_login_def is_char_def)
  then show ?thesis using invalid_user_is_not_reported by blast
qed

text \<open>From a log file nothing is ever reported. The line is taken apart at the wrong fields, so that what
  is parsed as the message begins with the name of the program: whatever the lines, no record is
  sent, and the loop ends or panics.\<close>

theorem log_files_are_not_reported: "send_lines J Log ls w \<in> {(LinesEnd, w), (LinePanic, w)}"
proof (induction ls)
  case (Cons l ls)
  show ?case
  proof (cases l)
    case (Some line)
    then show ?thesis using Cons.IH line_record_log[of J line] by auto
  qed simp
qed simp

end
