(* ===== verification/Rasp_Process.thy ===== *)
theory Rasp_Process
  imports Rust_Std
begin

section \<open>Processes and runtimes of the RASP library\<close>

text \<open>
  \<open>ProcessInfo\<close> of \<^verbatim>\<open>src/rasp/librasp/src/process.rs\<close>, the filters and the inspection of
  \<^verbatim>\<open>src/rasp/librasp/src/runtime.rs\<close>, and the collection of \<^verbatim>\<open>src/rasp/plugin/src/process.rs\<close>. What \<open>procfs\<close> tells of a
  process is the record \<open>Process\<close>, with \<open>None\<close> for a call that fails. The version detectors and the
  regular expressions are parameters here; \<open>Rasp_Probes\<close> has the detectors. The operations on a \<open>ProcessInfo\<close> are programs of the
  state and error monad.
\<close>

subsection \<open>Data\<close>

datatype TracingState = WAIT_INSPECT | INSPECTED | WAIT_ATTACH | ATTACHED | CLOSING

fun TracingState_fmt :: "TracingState \<Rightarrow> bytes" where
  "TracingState_fmt WAIT_INSPECT = ascii ''WAIT_INSPECT''"
| "TracingState_fmt INSPECTED = ascii ''INSPECTED''"
| "TracingState_fmt WAIT_ATTACH = ascii ''WAIT_ATTACH''"
| "TracingState_fmt ATTACHED = ascii ''ATTACHED''"
| "TracingState_fmt CLOSING = ascii ''CLOSING''"

record Runtime =
  rt_name :: bytes
  rt_version :: bytes

definition Runtime_fmt :: "Runtime \<Rightarrow> bytes" where
  "Runtime_fmt r = rt_name r @ ascii '' '' @ rt_version r"

record ids =
  ruid :: u32
  rgid :: u32
  euid :: u32
  egid :: u32
  suid :: u32
  sgid :: u32
  fuid :: u32
  fgid :: u32

record Namespaces =
  mnt :: "bytes option"

record ProcessInfo =
  pi_pid :: int
  pi_cmdline :: "bytes option"
  pi_exe_name :: "bytes option"
  pi_exe_path :: "bytes option"
  pi_sid :: int
  pi_ids :: ids
  pi_ppid :: int
  pi_tgid :: int
  pi_environ :: "(bytes \<rightharpoonup> bytes) option"
  pi_namespace_info :: "Namespaces option"
  pi_tracing_state :: "TracingState option"
  pi_auto_attach :: bool
  pi_runtime :: "Runtime option"
  pi_current_config_hash :: bytes
  pi_attach_start_time :: "bytes option"
  pi_attach_end_time :: "bytes option"
  pi_failed_time :: "bytes option"
  pi_missing_time :: "bytes option"
  pi_start_time :: "nat option"
  pi_try_attach_count :: "16 word"
  pi_attached_count :: "16 word"

record status =
  st_ids :: ids
  st_tgid :: int

record Process =
  pr_exe :: "bytes option"
  pr_cmdline :: "bytes list option"
  pr_environ :: "(bytes \<rightharpoonup> bytes) option"
  pr_ns :: "Namespaces option"
  pr_status :: "status option"
  pr_ppid :: int
  pr_session :: int
  pr_starttime :: nat

definition ProcessInfo_new :: "int \<Rightarrow> ProcessInfo" where
  "ProcessInfo_new pid = \<lparr>pi_pid = pid, pi_cmdline = None, pi_exe_name = None, pi_exe_path = None, pi_sid = 0,
     pi_ids = \<lparr>ruid = 0, rgid = 0, euid = 0, egid = 0, suid = 0, sgid = 0, fuid = 0, fgid = 0\<rparr>,
     pi_ppid = 0, pi_tgid = 0, pi_environ = None, pi_namespace_info = None, pi_tracing_state = None,
     pi_auto_attach = False, pi_runtime = None, pi_current_config_hash = [], pi_attach_start_time = None, pi_attach_end_time = None,
     pi_failed_time = None, pi_missing_time = None, pi_start_time = None, pi_try_attach_count = 0,
     pi_attached_count = 0\<rparr>"

subsection \<open>Updates\<close>

definition update_exe :: "Process \<Rightarrow> ProcessInfo \<Rightarrow> (bytes \<times> bytes) res \<times> ProcessInfo" where
  "update_exe process p =
     (case (pi_exe_name p, pi_exe_path p) of
        (Some name, Some path) \<Rightarrow> (Inr (name, path), p)
      | _ \<Rightarrow>
          (case bind_res (the_or (pr_exe process) IoError) (\<lambda>exe.
                bind_res (the_or (file_name exe) (Message ''fetch file name failed'')) (\<lambda>name.
                bind_res (the_or (from_utf8 name) (Message ''convert osstr to str failed'')) (\<lambda>name.
                bind_res (the_or (from_utf8 exe) (Message ''convert osstr to string failed'')) (\<lambda>path.
                Inr (name, path))))) of
             Inl e \<Rightarrow> (Inl e, p)
           | Inr (name, path) \<Rightarrow> (Inr (name, path), p\<lparr>pi_exe_name := Some name, pi_exe_path := Some path\<rparr>)))"

definition update_cmdline :: "Process \<Rightarrow> ProcessInfo \<Rightarrow> bytes res \<times> ProcessInfo" where
  "update_cmdline process p =
     (case pi_cmdline p of
        Some c \<Rightarrow> (Inr c, p)
      | None \<Rightarrow>
          (case pr_cmdline process of
             None \<Rightarrow> (Inl (Err IoError), p)
           | Some args \<Rightarrow> let c = join_with 0x20 args in (Inr c, p\<lparr>pi_cmdline := Some c\<rparr>)))"

definition update_all_env :: "Process \<Rightarrow> ProcessInfo \<Rightarrow> unit res \<times> ProcessInfo" where
  "update_all_env process p =
     (case pr_environ process of
        None \<Rightarrow> (Inl (Err IoError), p)
      | Some envs \<Rightarrow> (Inr (), p\<lparr>pi_environ := Some envs\<rparr>))"

text \<open>\<open>Vec::remove\<close> panics when the index is out of range.\<close>

definition vec_remove :: "nat \<Rightarrow> 'a list \<Rightarrow> 'a list res" where
  "vec_remove i xs = (if i < length xs then Inr (take i xs @ drop (Suc i) xs) else Inl Panic)"

fun remove_all :: "nat list \<Rightarrow> 'a list \<Rightarrow> 'a list res" where
  "remove_all [] keys = Inr keys"
| "remove_all (i # is) keys = bind_res (vec_remove i keys) (remove_all is)"

fun known_keys :: "(bytes \<rightharpoonup> bytes) \<Rightarrow> nat \<Rightarrow> bytes list \<Rightarrow> (bytes \<rightharpoonup> bytes) \<times> nat list" where
  "known_keys environ index [] = (Map.empty, [])"
| "known_keys environ index (key # keys) =
     (case known_keys environ (Suc index) keys of (result, remove) \<Rightarrow>
        case Option.bind (environ key) from_utf8 of
          None \<Rightarrow> (result, remove)
        | Some s \<Rightarrow> (result(key \<mapsto> s), index # remove))"

fun collect_keys :: "(bytes \<rightharpoonup> bytes) \<Rightarrow> bytes list \<Rightarrow> (bytes \<rightharpoonup> bytes) \<Rightarrow> (bytes \<rightharpoonup> bytes) \<Rightarrow>
  (bytes \<rightharpoonup> bytes) \<times> (bytes \<rightharpoonup> bytes)" where
  "collect_keys envs [] environ result = (environ, result)"
| "collect_keys envs (key # keys) environ result =
     (case envs key of
        Some v \<Rightarrow> collect_keys envs keys (environ(key \<mapsto> v))
                    (result(key \<mapsto> (case from_utf8 v of None \<Rightarrow> [] | Some s \<Rightarrow> s)))
      | None \<Rightarrow> collect_keys envs keys environ (result(key \<mapsto> [])))"

definition update_env :: "Process \<Rightarrow> bytes list \<Rightarrow> ProcessInfo \<Rightarrow> (bytes \<rightharpoonup> bytes) res \<times> ProcessInfo" where
  "update_env process collect p =
     (let environ = (case pi_environ p of None \<Rightarrow> Map.empty | Some m \<Rightarrow> m);
          (result, remove) = (case pi_environ p of None \<Rightarrow> (Map.empty, []) | Some m \<Rightarrow> known_keys m 0 collect);
          p = p\<lparr>pi_environ := Some environ\<rparr>
      in case remove_all remove collect of
           Inl e \<Rightarrow> (Inl e, p)
         | Inr keys \<Rightarrow>
             (case pr_environ process of
                None \<Rightarrow> (Inl (Err IoError), p)
              | Some envs \<Rightarrow>
                  (case collect_keys envs keys environ result of
                     (environ, result) \<Rightarrow> (Inr result, p\<lparr>pi_environ := Some environ\<rparr>))))"

definition update_ns_info :: "Process \<Rightarrow> ProcessInfo \<Rightarrow> Namespaces res \<times> ProcessInfo" where
  "update_ns_info process p =
     (case pi_namespace_info p of
        Some ns \<Rightarrow> (Inr ns, p)
      | None \<Rightarrow>
          (case pr_ns process of
             None \<Rightarrow> (Inl (Err IoError), p)
           | Some ns \<Rightarrow> (Inr ns, p\<lparr>pi_namespace_info := Some ns\<rparr>)))"

definition get_mnt_ns :: "ProcessInfo \<Rightarrow> bytes res" where
  "get_mnt_ns p =
     (case pi_namespace_info p of
        Some ns \<Rightarrow> the_or (mnt ns) (Message ''process mnt ns empty'')
      | None \<Rightarrow> Inl (Err (Message ''fetch process ns failed'')))"

definition update_ppid :: "Process \<Rightarrow> ProcessInfo \<Rightarrow> int res \<times> ProcessInfo" where
  "update_ppid process p =
     (if pi_ppid p \<noteq> 0 then (Inr (pi_ppid p), p)
      else (Inr (pr_ppid process), p\<lparr>pi_ppid := pr_ppid process\<rparr>))"

definition update_tgid :: "Process \<Rightarrow> ProcessInfo \<Rightarrow> int res \<times> ProcessInfo" where
  "update_tgid process p =
     (if pi_tgid p \<noteq> 0 then (Inr (pi_tgid p), p)
      else case pr_status process of
             None \<Rightarrow> (Inl (Err IoError), p)
           | Some st \<Rightarrow> (Inr (st_tgid st), p\<lparr>pi_tgid := st_tgid st\<rparr>))"

definition update_sid :: "Process \<Rightarrow> ProcessInfo \<Rightarrow> int res \<times> ProcessInfo" where
  "update_sid process p =
     (if pi_sid p \<noteq> 0 then (Inr (pi_sid p), p)
      else (Inr (pr_session process), p\<lparr>pi_sid := pr_session process\<rparr>))"

definition update_start_time :: "(nat \<Rightarrow> nat) \<Rightarrow> Process \<Rightarrow> ProcessInfo \<Rightarrow> nat res \<times> ProcessInfo" where
  "update_start_time as_f32 process p =
     (case pi_start_time p of
        Some t \<Rightarrow> (Inr t, p)
      | None \<Rightarrow> let t = as_f32 (pr_starttime process) in (Inr t, p\<lparr>pi_start_time := Some t\<rparr>))"

definition update_id :: "Process \<Rightarrow> ProcessInfo \<Rightarrow> unit res \<times> ProcessInfo" where
  "update_id process p =
     (case pr_status process of
        None \<Rightarrow> (Inl (Err IoError), p)
      | Some st \<Rightarrow> (Inr (), p\<lparr>pi_ids := st_ids st\<rparr>))"

definition from_pid :: "Process option \<Rightarrow> int \<Rightarrow> ProcessInfo res" where
  "from_pid process pid =
     bind_res (the_or process IoError) (\<lambda>process.
     case bind_st (update_exe process) (\<lambda>_.
          bind_st (update_all_env process) (\<lambda>_.
          bind_st (update_cmdline process) (\<lambda>_.
          bind_st (update_ns_info process) (\<lambda>_.
          bind_st (update_ppid process) (\<lambda>_.
          bind_st (update_tgid process) (\<lambda>_.
          bind_st (update_cmdline process) (\<lambda>_.
          update_id process))))))) (ProcessInfo_new pid) of
       (Inl e, _) \<Rightarrow> Inl e
     | (Inr _, p) \<Rightarrow> Inr p)"

subsection \<open>Collecting\<close>

record Filters =
  ignore_exe_path :: "bytes list"
  ignore_exe_name :: "bytes list"
  ignore_argv_regex :: "(bytes \<Rightarrow> bool) list"
  collect_env :: "bytes list"
  collect_all_env :: bool
  auto_attach_runtime :: "bytes list"

definition check_filter :: "bool \<Rightarrow> ('s, unit) prog" where
  "check_filter hit = lift_res (if hit then Inl (Err (Message ''ignore process'')) else Inr ())"

definition collect :: "(nat \<Rightarrow> nat) \<Rightarrow> Process option \<Rightarrow> int \<Rightarrow> Filters \<Rightarrow> ProcessInfo res" where
  "collect as_f32 process pid filters =
     bind_res (the_or process IoError) (\<lambda>process.
     case bind_st (update_exe process) (\<lambda>(exe_name, exe_path).
          bind_st (check_filter (list_ex (starts_with exe_path) (ignore_exe_path filters))) (\<lambda>_.
          bind_st (check_filter (list_ex (\<lambda>n. exe_name = n) (ignore_exe_name filters))) (\<lambda>_.
          bind_st (if collect_all_env filters then update_all_env process
                   else bind_st (update_env process (collect_env filters)) (\<lambda>_. return_st ())) (\<lambda>_.
          bind_st (update_cmdline process) (\<lambda>cmdline.
          bind_st (check_filter (list_ex (\<lambda>regex. regex cmdline) (ignore_argv_regex filters))) (\<lambda>_.
          bind_st (update_ns_info process) (\<lambda>_.
          bind_st (update_ppid process) (\<lambda>_.
          bind_st (update_tgid process) (\<lambda>_.
          bind_st (update_sid process) (\<lambda>_.
          bind_st (update_start_time as_f32 process) (\<lambda>_.
          update_id process))))))))))) (ProcessInfo_new pid) of
       (Inl e, _) \<Rightarrow> Inl e
     | (Inr _, p) \<Rightarrow> Inr p)"

definition poll_pid_func :: "int list option \<Rightarrow> int list \<Rightarrow> (int list \<times> int list) res" where
  "poll_pid_func proc_pids tracking_pid =
     bind_res (the_or proc_pids IoError) (\<lambda>all_pids.
     Inr (all_pids, filter (\<lambda>p. p \<notin> set tracking_pid) all_pids))"

definition process_health :: "(int \<Rightarrow> Process option) \<Rightarrow> int list \<Rightarrow> int list" where
  "process_health procfs pids =
     filter (\<lambda>pid. case procfs pid of None \<Rightarrow> True | Some p \<Rightarrow> pr_status p = None) pids"

subsection \<open>Runtimes\<close>

record RuntimeFilter =
  rf_cmdline :: "bytes list option"
  rf_env :: "(bytes \<times> bytes) list option"
  rf_exe :: "bytes list option"
  rf_runtime :: "bytes option"

definition RuntimeFilter_new :: RuntimeFilter where
  "RuntimeFilter_new = \<lparr>rf_cmdline = None, rf_env = None, rf_exe = None, rf_runtime = None\<rparr>"

definition push_opt :: "'a list option \<Rightarrow> 'a \<Rightarrow> 'a list option" where
  "push_opt v x = Some (case v of None \<Rightarrow> [x] | Some xs \<Rightarrow> xs @ [x])"

definition update_runtime :: "RuntimeFilter \<Rightarrow> bytes \<Rightarrow> RuntimeFilter" where
  "update_runtime f name = f\<lparr>rf_runtime := Some name\<rparr>"

definition add_env_filter :: "RuntimeFilter \<Rightarrow> bytes \<Rightarrow> bytes \<Rightarrow> RuntimeFilter" where
  "add_env_filter f name val = f\<lparr>rf_env := push_opt (rf_env f) (name, val)\<rparr>"

definition add_cmdline_filter :: "RuntimeFilter \<Rightarrow> bytes \<Rightarrow> RuntimeFilter" where
  "add_cmdline_filter f keyword = f\<lparr>rf_cmdline := push_opt (rf_cmdline f) keyword\<rparr>"

definition add_exe_filter :: "RuntimeFilter \<Rightarrow> bytes \<Rightarrow> RuntimeFilter" where
  "add_exe_filter f word = f\<lparr>rf_exe := push_opt (rf_exe f) word\<rparr>"

definition match_runtime :: "RuntimeFilter \<Rightarrow> bytes \<Rightarrow> bool" where
  "match_runtime f runtime = (case rf_runtime f of Some rt \<Rightarrow> rt = runtime | None \<Rightarrow> True)"

fun match_exe_loop :: "bytes \<Rightarrow> bytes list \<Rightarrow> bool" where
  "match_exe_loop target [] = False"
| "match_exe_loop target (exe # exes) = (if target = exe then True else match_exe_loop target exes)"

definition match_exe :: "RuntimeFilter \<Rightarrow> bytes \<Rightarrow> bool" where
  "match_exe f target = (case rf_exe f of None \<Rightarrow> False | Some exes \<Rightarrow> match_exe_loop target exes)"

fun match_cmdline_loop :: "bytes \<Rightarrow> bytes list \<Rightarrow> bool" where
  "match_cmdline_loop target [] = False"
| "match_cmdline_loop target (c # cs) = (if starts_with target c then True else match_cmdline_loop target cs)"

definition match_cmdline :: "RuntimeFilter \<Rightarrow> bytes \<Rightarrow> bool" where
  "match_cmdline f target = (case rf_cmdline f of None \<Rightarrow> True | Some cs \<Rightarrow> match_cmdline_loop target cs)"

text \<open>The loop of \<open>match_env\<close>: \<open>None\<close> is its early return.\<close>

fun match_env_loop :: "(bytes \<rightharpoonup> bytes) \<Rightarrow> (bytes \<times> bytes) list \<Rightarrow> nat \<Rightarrow> nat option" where
  "match_env_loop target [] count = Some count"
| "match_env_loop target ((k, v) # envs) count =
     (case target k of
        Some v' \<Rightarrow> if v' = v then match_env_loop target envs (count + 1) else None
      | None \<Rightarrow> match_env_loop target envs count)"

definition match_env :: "RuntimeFilter \<Rightarrow> (bytes \<rightharpoonup> bytes) \<Rightarrow> bool" where
  "match_env f target =
     (case rf_env f of
        None \<Rightarrow> True
      | Some envs \<Rightarrow> match_env_loop target envs 0 = Some (length envs))"

text \<open>\<open>Inl ()\<close> is the \<open>Err(())\<close> of the source.\<close>

definition match_process_info :: "RuntimeFilter \<Rightarrow> bytes \<Rightarrow> (bytes \<rightharpoonup> bytes) \<Rightarrow> bytes \<Rightarrow> unit + bool" where
  "match_process_info f cmdline environ runtime_name =
     (if rf_cmdline f = None \<and> rf_env f = None then Inl ()
      else Inr (match_cmdline f cmdline \<and> match_env f environ \<and> match_runtime f runtime_name))"

record detectors =
  det_vm_version :: "int \<Rightarrow> bytes res"
  det_nodejs_version :: "int \<Rightarrow> bytes \<Rightarrow> (nat \<times> nat \<times> bytes) res"
  det_golang_bin_inspect :: "bytes \<Rightarrow> bool res"
  det_inspect_phpfpm :: "ProcessInfo \<Rightarrow> bool res"
  det_inspect_phpfpm_version :: "ProcessInfo \<Rightarrow> bytes res"
  det_inspect_phpfpm_zts :: "ProcessInfo \<Rightarrow> bool res"
  det_python_inspect :: "ProcessInfo \<Rightarrow> bytes option res"

text \<open>An error that is only logged.\<close>

definition logged :: "'a res \<Rightarrow> 'a option res" where
  "logged r = (case r of Inl Panic \<Rightarrow> Inl Panic | Inl (Err _) \<Rightarrow> Inr None | Inr x \<Rightarrow> Inr (Some x))"

definition JVM_FILTER :: RuntimeFilter where
  "JVM_FILTER = RuntimeFilter_new\<lparr>rf_exe := Some [ascii ''java'']\<rparr>"

definition CPYTHON_FILTER :: RuntimeFilter where
  "CPYTHON_FILTER = RuntimeFilter_new\<lparr>rf_exe := Some (map ascii
     [''python'', ''python2'', ''python3'', ''python2.7'', ''python3.4'', ''python3.5'', ''python3.6'', ''python3.7'',
      ''python3.8'', ''python3.9'', ''python3.10'', ''uwsgi''])\<rparr>"

definition NODEJS_FILTER :: RuntimeFilter where
  "NODEJS_FILTER = RuntimeFilter_new\<lparr>rf_exe := Some (map ascii [''node'', ''nodejs''])\<rparr>"

definition container_path :: "int \<Rightarrow> bytes \<Rightarrow> bytes" where
  "container_path pid exe_path =
     (let root = ascii ''/proc/'' @ show_int pid @ ascii ''/root/'' in
      if \<not> starts_with exe_path (ascii ''/'') then path_join root exe_path
      else foldl path_join root (components exe_path))"

definition inspect_nodejs :: "detectors \<Rightarrow> int \<Rightarrow> bytes \<Rightarrow> Runtime option res" where
  "inspect_nodejs D pid exe =
     bind_res (logged (det_nodejs_version D pid exe)) (\<lambda>version.
     bind_res (case version of
                 None \<Rightarrow> Inr []
               | Some (major, minor, v) \<Rightarrow>
                   if major < 8 \<or> major = 8 \<and> minor < 6 then Inl (Err (Message ''nodejs version lower than 8.6''))
                   else Inr v) (\<lambda>v.
     Inr (Some \<lparr>rt_name = ascii ''NodeJS'', rt_version = v\<rparr>)))"

definition inspect_php :: "detectors \<Rightarrow> ProcessInfo \<Rightarrow> Runtime option res" where
  "inspect_php D p =
     bind_res (logged (det_inspect_phpfpm D p)) (\<lambda>fpm.
     if fpm = Some True
     then bind_res (logged (det_inspect_phpfpm_version D p)) (\<lambda>version.
          case version of
            None \<Rightarrow> Inr None
          | Some version \<Rightarrow>
              bind_res (det_inspect_phpfpm_zts D p) (\<lambda>zts.
              Inr (Some \<lparr>rt_name = ascii ''PHP'', rt_version = (if zts then version @ ascii ''.zts'' else version)\<rparr>)))
     else Inr None)"

definition inspect_from_process_info :: "detectors \<Rightarrow> ProcessInfo \<Rightarrow> Runtime option res" where
  "inspect_from_process_info D p =
     (case pi_exe_name p of
        None \<Rightarrow> Inl Panic
      | Some exe \<Rightarrow>
          if match_exe JVM_FILTER exe
          then bind_res (det_vm_version D (pi_pid p)) (\<lambda>v. Inr (Some \<lparr>rt_name = ascii ''JVM'', rt_version = v\<rparr>))
          else if match_exe CPYTHON_FILTER exe
          then Inr (Some \<lparr>rt_name = ascii ''CPython'', rt_version = []\<rparr>)
          else if match_exe NODEJS_FILTER exe then inspect_nodejs D (pi_pid p) exe
          else (case pi_exe_path p of
                  None \<Rightarrow> Inl Panic
                | Some exe_path \<Rightarrow>
                    bind_res (logged (det_golang_bin_inspect D (container_path (pi_pid p) exe_path))) (\<lambda>golang.
                    if golang = Some True
                    then Inr (Some \<lparr>rt_name = ascii ''Golang'', rt_version = []\<rparr>)
                    else bind_res (inspect_php D p) (\<lambda>php.
                      case php of
                        Some r \<Rightarrow> Inr (Some r)
                      | None \<Rightarrow>
                          bind_res (det_python_inspect D p) (\<lambda>version.
                          Inr (map_option (\<lambda>v. \<lparr>rt_name = ascii ''CPython'', rt_version = v\<rparr>) version))))))"

subsection \<open>Filters against their meaning\<close>

lemma match_exe_loop_iff: "match_exe_loop target exes \<longleftrightarrow> target \<in> set exes"
  by (induction exes) auto

lemma match_cmdline_loop_iff: "match_cmdline_loop target cs \<longleftrightarrow> list_ex (starts_with target) cs"
  by (induction cs) auto

lemma match_env_loop_le: "match_env_loop target envs count = Some n \<Longrightarrow> n \<le> count + length envs"
  by (induction target envs count rule: match_env_loop.induct) (fastforce split: option.splits if_splits)+

lemma match_env_loop_iff:
  "match_env_loop target envs count = Some (count + length envs) \<longleftrightarrow> list_all (\<lambda>(k, v). target k = Some v) envs"
proof (induction envs arbitrary: count)
  case (Cons e envs)
  obtain k v where e: "e = (k, v)" by (cases e)
  show ?case
  proof (cases "target k")
    case None
    then show ?thesis using e match_env_loop_le[of target envs count] by (auto dest!: match_env_loop_le)
  next
    case (Some v')
    then show ?thesis using e Cons.IH[of "count + 1"] by simp
  qed
qed simp

subsection \<open>Removing by index\<close>

lemma remove_all_length: "remove_all is xs = Inr ys \<Longrightarrow> length ys + length is = length xs"
  by (induction "is" xs rule: remove_all.induct) (auto simp: vec_remove_def bind_res_eq_Inr split: if_splits)

lemma remove_all_append: "remove_all (is @ js) xs = bind_res (remove_all is xs) (remove_all js)"
proof (induction "is" xs rule: remove_all.induct)
  case (2 i "is" keys)
  then show ?case by (cases "vec_remove i keys") simp_all
qed simp

lemma remove_all_fails: "remove_all is xs = Inl e \<Longrightarrow> e = Panic"
  by (induction "is" xs rule: remove_all.induct) (auto simp: vec_remove_def bind_res_eq_Inl split: if_splits)

lemma known_keys_append:
  "snd (known_keys m n (xs @ ys)) = snd (known_keys m n xs) @ snd (known_keys m (n + length xs) ys)"
  by (induction m n xs rule: known_keys.induct) (simp_all add: case_prod_beta split: option.splits)

lemma known_keys_nonempty:
  "key \<in> set xs \<Longrightarrow> m key = Some v \<Longrightarrow> valid_utf8 v \<Longrightarrow> snd (known_keys m n xs) \<noteq> []"
  by (induction m n xs rule: known_keys.induct) (auto simp: from_utf8_def split: prod.splits option.splits)

lemma known_keys_last:
  assumes "m key = Some v" "valid_utf8 v" "other \<in> set keys" "m other = Some u" "valid_utf8 u"
  shows "remove_all (snd (known_keys m 0 (keys @ [key]))) (keys @ [key]) = Inl Panic"
proof -
  let ?is = "snd (known_keys m 0 keys)"
  have "snd (known_keys m 0 (keys @ [key])) = ?is @ [length keys]"
    using assms(1,2) by (simp add: known_keys_append from_utf8_def)
  moreover have "?is \<noteq> []" using known_keys_nonempty assms(3-5) by blast
  moreover have "vec_remove (length keys) ys = Inl Panic" if "remove_all ?is (keys @ [key]) = Inr ys" for ys
    using remove_all_length[OF that] \<open>?is \<noteq> []\<close> by (cases ?is) (simp_all add: vec_remove_def)
  ultimately show ?thesis
    using remove_all_fails by (cases "remove_all ?is (keys @ [key])") (auto simp: remove_all_append)
qed

subsection \<open>Collected processes\<close>

lemma bind_st_eq_Inr:
  "bind_st m f s = (Inr y, s') \<longleftrightarrow> (\<exists>x t. m s = (Inr x, t) \<and> f x t = (Inr y, s'))"
  by (auto simp: bind_st_def split: prod.splits sum.splits)

lemma check_filter_eq: "check_filter hit s = (Inr x, t) \<longleftrightarrow> \<not> hit \<and> t = s"
  by (auto simp: check_filter_def lift_res_def)

text \<open>What stays of a process while it is collected.\<close>

definition same_exe :: "ProcessInfo \<Rightarrow> ProcessInfo \<Rightarrow> bool" where
  "same_exe p q \<longleftrightarrow> pi_pid q = pi_pid p \<and> pi_exe_name q = pi_exe_name p \<and> pi_exe_path q = pi_exe_path p"

lemma update_exe_result:
  "update_exe process p = (Inr (name, path), q) \<Longrightarrow>
   pi_exe_name q = Some name \<and> pi_exe_path q = Some path \<and> pi_pid q = pi_pid p"
  by (auto simp: update_exe_def split: option.splits sum.splits prod.splits)

lemma update_env_same: "update_env process c p = (r, q) \<Longrightarrow> same_exe p q"
  by (auto simp: update_env_def same_exe_def Let_def split: option.splits sum.splits prod.splits)

lemma update_all_env_same: "update_all_env process p = (r, q) \<Longrightarrow> same_exe p q"
  by (auto simp: update_all_env_def same_exe_def split: option.splits)

lemma update_cmdline_result: "update_cmdline process p = (Inr c, q) \<Longrightarrow> pi_cmdline q = Some c \<and> same_exe p q"
  by (auto simp: update_cmdline_def same_exe_def Let_def split: option.splits)

lemma update_rest_same:
  "update_ns_info process p = (Inr ns, q) \<Longrightarrow> same_exe p q \<and> pi_cmdline q = pi_cmdline p \<and> pi_namespace_info q = Some ns"
  "update_ppid process p = (r1, q) \<Longrightarrow> same_exe p q \<and> pi_cmdline q = pi_cmdline p \<and> pi_namespace_info q = pi_namespace_info p"
  "update_tgid process p = (r2, q) \<Longrightarrow> same_exe p q \<and> pi_cmdline q = pi_cmdline p \<and> pi_namespace_info q = pi_namespace_info p"
  "update_sid process p = (r3, q) \<Longrightarrow> same_exe p q \<and> pi_cmdline q = pi_cmdline p \<and> pi_namespace_info q = pi_namespace_info p"
  "update_start_time f process p = (r4, q) \<Longrightarrow> same_exe p q \<and> pi_cmdline q = pi_cmdline p \<and> pi_namespace_info q = pi_namespace_info p"
  "update_id process p = (r5, q) \<Longrightarrow> same_exe p q \<and> pi_cmdline q = pi_cmdline p \<and> pi_namespace_info q = pi_namespace_info p"
  by (auto simp: update_ns_info_def update_ppid_def update_tgid_def update_sid_def update_start_time_def
      update_id_def same_exe_def Let_def split: option.splits if_splits)

lemma same_exe_trans: "same_exe p q \<Longrightarrow> same_exe q r \<Longrightarrow> same_exe p r"
  by (simp add: same_exe_def)

lemma collect_steps:
  assumes "collect as_f32 pr pid F = Inr p"
  obtains process name path c q1 q2 where "pr = Some process"
    "update_exe process (ProcessInfo_new pid) = (Inr (name, path), q1)"
    "\<not> list_ex (starts_with path) (ignore_exe_path F)" "\<not> list_ex (\<lambda>n. name = n) (ignore_exe_name F)"
    "same_exe q1 q2" "pi_cmdline q2 = Some c" "\<not> list_ex (\<lambda>regex. regex c) (ignore_argv_regex F)"
    "same_exe q2 p" "pi_cmdline p = Some c" "pi_namespace_info p \<noteq> None"
proof -
  obtain process where process: "pr = Some process"
    using assms by (cases pr) (simp_all add: collect_def the_or_def)
  from assms[unfolded process] obtain name path q1 e q2 c q3 ns q4 ppid q5 tgid q6 sid q7 t q8 u where steps:
      "update_exe process (ProcessInfo_new pid) = (Inr (name, path), q1)"
      "\<not> list_ex (starts_with path) (ignore_exe_path F)" "\<not> list_ex (\<lambda>n. name = n) (ignore_exe_name F)"
      "(if collect_all_env F then update_all_env process
        else bind_st (update_env process (collect_env F)) (\<lambda>_. return_st ())) q1 = (Inr e, q2)"
      "update_cmdline process q2 = (Inr c, q3)" "\<not> list_ex (\<lambda>regex. regex c) (ignore_argv_regex F)"
      "update_ns_info process q3 = (Inr ns, q4)" "update_ppid process q4 = (Inr ppid, q5)"
      "update_tgid process q5 = (Inr tgid, q6)" "update_sid process q6 = (Inr sid, q7)"
      "update_start_time as_f32 process q7 = (Inr t, q8)" "update_id process q8 = (Inr u, p)"
    unfolding collect_def the_or_def option.case bind_res_Inr
    by (auto simp: bind_st_eq_Inr check_filter_eq split: prod.splits sum.splits)
  have "same_exe q1 q2"
    using steps(4) update_all_env_same update_env_same
    by (auto simp: bind_st_eq_Inr return_st_def split: if_splits)
  with update_cmdline_result[OF steps(5)] have q3: "same_exe q1 q3" "pi_cmdline q3 = Some c"
    using same_exe_trans by blast+
  note rest = update_rest_same(1)[OF steps(7)] update_rest_same(2)[OF steps(8)] update_rest_same(3)[OF steps(9)]
    update_rest_same(4)[OF steps(10)] update_rest_same(5)[OF steps(11)] update_rest_same(6)[OF steps(12)]
  have "same_exe q3 p" using rest same_exe_trans by meson
  moreover have "pi_cmdline p = Some c" "pi_namespace_info p \<noteq> None" using rest q3(2) by simp_all
  ultimately show ?thesis using that process steps q3 by blast
qed

lemma collect_pid: "collect as_f32 pr pid F = Inr p \<Longrightarrow> pi_pid p = pid"
  by (erule collect_steps, drule update_exe_result) (simp add: same_exe_def ProcessInfo_new_def)

subsection \<open>Examples\<close>

definition sample_process :: Process where
  "sample_process = \<lparr>pr_exe = Some (ascii ''/opt/java''), pr_cmdline = Some [ascii ''java'', ascii ''-jar''],
     pr_environ = Some Map.empty, pr_ns = Some \<lparr>mnt = Some (ascii ''m'')\<rparr>,
     pr_status = Some \<lparr>st_ids = pi_ids (ProcessInfo_new 0), st_tgid = 7\<rparr>, pr_ppid = 1, pr_session = 2, pr_starttime = 3\<rparr>"

definition sample_filters :: Filters where
  "sample_filters = \<lparr>ignore_exe_path = [ascii ''/bin''], ignore_exe_name = [ascii ''sh''],
     ignore_argv_regex = [\<lambda>c. c = []], collect_env = [], collect_all_env = True,
     auto_attach_runtime = [ascii ''JVM'']\<rparr>"

subsection \<open>Properties\<close>

text \<open>C28: a process that is collected passed every filter: its path begins with no ignored path, its name is
  no ignored name, and no ignored expression matches its command line. It has the identity that was
  asked for, and its path, name, command line and namespaces are known.\<close>

theorem collect_respects_filters:
  assumes "collect as_f32 pr pid F = Inr p"
  shows "\<exists>name path c. pi_pid p = pid \<and> pi_exe_name p = Some name \<and> pi_exe_path p = Some path \<and>
    pi_cmdline p = Some c \<and> pi_namespace_info p \<noteq> None \<and>
    \<not> list_ex (starts_with path) (ignore_exe_path F) \<and> name \<notin> set (ignore_exe_name F) \<and>
    \<not> list_ex (\<lambda>regex. regex c) (ignore_argv_regex F)"
proof -
  from assms obtain process name path c q1 q2 where steps:
      "update_exe process (ProcessInfo_new pid) = (Inr (name, path), q1)"
      "\<not> list_ex (starts_with path) (ignore_exe_path F)" "\<not> list_ex (\<lambda>n. name = n) (ignore_exe_name F)"
      "same_exe q1 q2" "\<not> list_ex (\<lambda>regex. regex c) (ignore_argv_regex F)"
      "same_exe q2 p" "pi_cmdline p = Some c" "pi_namespace_info p \<noteq> None"
    by (rule collect_steps)
  have "pi_exe_name p = Some name" "pi_exe_path p = Some path" "pi_pid p = pid"
    using update_exe_result[OF steps(1)] steps(4,6) by (simp_all add: same_exe_def ProcessInfo_new_def)
  moreover have "name \<notin> set (ignore_exe_name F)" using steps(3) by (auto simp: list_ex_iff)
  ultimately show ?thesis using steps by blast
qed

theorem collect_respects_filters_witness:
  "\<exists>p. collect id (Some sample_process) 7 sample_filters = Inr p \<and>
    (\<exists>name path c. pi_pid p = 7 \<and> pi_exe_name p = Some name \<and> pi_exe_path p = Some path \<and>
      pi_cmdline p = Some c \<and> pi_namespace_info p \<noteq> None \<and>
      \<not> list_ex (starts_with path) (ignore_exe_path sample_filters) \<and> name \<notin> set (ignore_exe_name sample_filters) \<and>
      \<not> list_ex (\<lambda>regex. regex c) (ignore_argv_regex sample_filters))"
proof -
  have "case collect id (Some sample_process) 7 sample_filters of Inl _ \<Rightarrow> False | Inr _ \<Rightarrow> True" by code_simp
  then obtain p where p: "collect id (Some sample_process) 7 sample_filters = Inr p"
    by (auto split: sum.splits)
  then show ?thesis using collect_respects_filters[OF p] by blast
qed

text \<open>A runtime filter means what its fields say: it is undecided without a command line and an
  environment; otherwise it matches when the command line begins with one of its command lines, every
  variable of its environment has its value, and the runtime is its runtime, where a field that is
  not set matches everything.\<close>

theorem match_process_info_spec:
  "match_process_info f cmdline environ runtime =
     (if rf_cmdline f = None \<and> rf_env f = None then Inl ()
      else Inr ((case rf_cmdline f of None \<Rightarrow> True | Some cs \<Rightarrow> list_ex (starts_with cmdline) cs) \<and>
        (case rf_env f of None \<Rightarrow> True | Some envs \<Rightarrow> list_all (\<lambda>(k, v). environ k = Some v) envs) \<and>
        (case rf_runtime f of None \<Rightarrow> True | Some rt \<Rightarrow> rt = runtime)))"
  using match_env_loop_iff[of environ _ 0]
  by (auto simp: match_process_info_def match_cmdline_def match_env_def match_runtime_def match_cmdline_loop_iff
      split: option.splits)

text \<open>Refreshing the environment of a process panics when the last of the variables to collect and one
  before it are already known: the indices are removed in ascending order, and each removal moves
  the ones that follow.\<close>

theorem update_env_panics:
  assumes "pi_environ p = Some m" "m key = Some v" "valid_utf8 v"
    and "other \<in> set keys" "m other = Some u" "valid_utf8 u"
  shows "fst (update_env process (keys @ [key]) p) = Inl Panic"
  using known_keys_last[OF assms(2-6)] assms(1)
  by (cases "known_keys m 0 (keys @ [key])") (simp add: update_env_def Let_def)

theorem update_env_panics_witness:
  "fst (update_env sample_process ([ascii ''A''] @ [ascii ''B''])
     ((ProcessInfo_new 7)\<lparr>pi_environ := Some [ascii ''A'' \<mapsto> ascii ''1'', ascii ''B'' \<mapsto> ascii ''2'']\<rparr>)) = Inl Panic"
  by (rule update_env_panics[where other = "ascii ''A''" and v = "ascii ''2''" and u = "ascii ''1''"
        and m = "[ascii ''A'' \<mapsto> ascii ''1'', ascii ''B'' \<mapsto> ascii ''2'']"]) simp_all

end
