(* ===== verification/Rasp_Manager.thy ===== *)
theory Rasp_Manager
  imports Rasp_Process
begin

section \<open>The manager of the RASP library\<close>

text \<open>
  \<^verbatim>\<open>src/rasp/librasp/src/manager.rs\<close> and \<^verbatim>\<open>comm.rs\<close>, with \<open>RASPServerProcess\<close> of \<^verbatim>\<open>src/rasp/rasp_server/src/process_mode.rs\<close>: which
  mount namespaces have a server, which processes it serves, and what is sent to the probes. The
  system calls and the injection of a probe into a process are the fields of the record \<open>rasp_sys\<close>, whose
  world \<open>'w\<close> carries their effects; a Boolean result tells whether a call succeeded. \<open>Rasp_Probes\<close>
  gives the fields that run other code of the library; the threads of a server are in \<open>Rasp_Server\<close>. Of an error text only the constant
  part is kept.
\<close>

subsection \<open>The namespace tracer\<close>

type_synonym tracer = "bytes \<rightharpoonup> int list \<times> bool"

definition tracer_new :: tracer where
  "tracer_new = Map.empty"

definition tracer_add :: "bytes \<Rightarrow> int \<Rightarrow> tracer \<Rightarrow> tracer" where
  "tracer_add ns pid t =
     (case t ns of
        Some (pids, on) \<Rightarrow> if pid \<in> set pids then t else t(ns \<mapsto> (pids @ [pid], on))
      | None \<Rightarrow> t(ns \<mapsto> ([pid], False)))"

definition detele_namespace :: "bytes \<Rightarrow> tracer \<Rightarrow> tracer" where
  "detele_namespace ns t = t(ns := None)"

definition delete_pid :: "bytes \<Rightarrow> int \<Rightarrow> tracer \<Rightarrow> tracer" where
  "delete_pid ns pid t = (case t ns of Some (pids, on) \<Rightarrow> t(ns \<mapsto> (remove1 pid pids, on)) | None \<Rightarrow> t)"

definition server_state :: "bytes \<Rightarrow> tracer \<Rightarrow> bool option" where
  "server_state ns t = map_option snd (t ns)"

definition server_state_on :: "bytes \<Rightarrow> tracer \<Rightarrow> tracer" where
  "server_state_on ns t = (case t ns of Some (pids, _) \<Rightarrow> t(ns \<mapsto> (pids, True)) | None \<Rightarrow> t)"

definition tracer_register :: "bytes \<Rightarrow> int \<Rightarrow> tracer \<Rightarrow> tracer" where
  "tracer_register ns pid t = server_state_on ns (tracer_add ns pid t)"

definition server_state_off :: "bytes \<Rightarrow> int \<Rightarrow> tracer \<Rightarrow> bool \<times> tracer" where
  "server_state_off ns pid t =
     (case t ns of
        Some (pids, on) \<Rightarrow>
          let pids = remove1 pid pids in
          if pids = [] then (True, t(ns := None)) else (False, t(ns \<mapsto> (pids, on)))
      | None \<Rightarrow> (False, t))"

subsection \<open>The two ways to talk to probes\<close>

type_synonym patch = "bytes \<rightharpoonup> bytes"

record RASPServerProcess =
  child_id :: u32
  patch_field :: "bytes \<rightharpoonup> patch"
  server_pid :: int

record ProcessMode =
  mnt_namesapce_server_map :: "bytes \<rightharpoonup> RASPServerProcess"
  mnt_namespace_comm_pair :: "bytes set"

record ThreadMode =
  bind_path :: bytes
  linking_to :: "bytes option"
  using_mount :: bool

record RASPManager =
  namespace_tracer :: tracer
  thread_comm :: "ThreadMode option"
  process_comm :: "ProcessMode option"

record ProbeMessage =
  message_type :: int
  uuid :: bytes
  message_body :: bytes

record 'w rasp_sys =
  nspid_of :: "int \<Rightarrow> 'w \<Rightarrow> int option res \<times> 'w"
  spawn_server :: "int \<Rightarrow> 'w \<Rightarrow> bool \<times> 'w"
  kill_process :: "int \<Rightarrow> 'w \<Rightarrow> 'w"
  mount_dir :: "int \<Rightarrow> bytes \<Rightarrow> bytes \<Rightarrow> 'w \<Rightarrow> unit res \<times> 'w"
  link_path :: "int \<Rightarrow> bytes \<Rightarrow> bytes \<Rightarrow> 'w \<Rightarrow> unit res \<times> 'w"
  thread_send :: "int \<Rightarrow> bytes \<Rightarrow> 'w \<Rightarrow> bool \<times> 'w"
  server_send :: "bytes \<Rightarrow> bytes \<Rightarrow> 'w \<Rightarrow> bool \<times> 'w"
  stop_control :: "'w \<Rightarrow> 'w"
  parse_messages :: "bytes \<Rightarrow> ProbeMessage list option"
  message_json :: "ProbeMessage \<Rightarrow> bytes option"
  write_config :: "int \<Rightarrow> int \<Rightarrow> ProbeMessage list \<Rightarrow> 'w \<Rightarrow> unit res \<times> 'w"
  delete_config :: "int \<Rightarrow> int \<Rightarrow> 'w \<Rightarrow> unit res \<times> 'w"
  probe_attached :: "bytes \<Rightarrow> ProcessInfo \<Rightarrow> 'w \<Rightarrow> bool res \<times> 'w"
  copy_probe :: "bytes \<Rightarrow> int \<Rightarrow> 'w \<Rightarrow> unit res \<times> 'w"
  runtime_attach :: "bytes \<Rightarrow> ProcessInfo \<Rightarrow> 'w \<Rightarrow> bool res \<times> 'w"
  current_time :: "'w \<Rightarrow> bytes \<times> 'w"

record 'w rasp =
  rasp_manager :: RASPManager
  rasp_world :: 'w

type_synonym ('w, 'a) rasp_prog = "('w rasp, 'a) prog"

definition sys_call :: "('w \<Rightarrow> 'a res \<times> 'w) \<Rightarrow> ('w, 'a) rasp_prog" where
  "sys_call f = (\<lambda>s. case f (rasp_world s) of (r, w) \<Rightarrow> (r, s\<lparr>rasp_world := w\<rparr>))"

definition sys_check :: "error \<Rightarrow> ('w \<Rightarrow> bool \<times> 'w) \<Rightarrow> ('w, unit) rasp_prog" where
  "sys_check e f = sys_call (\<lambda>w. case f w of (ok, w) \<Rightarrow> (if ok then Inr () else Inl (Err e), w))"

definition get_manager :: "('w, RASPManager) rasp_prog" where
  "get_manager = (\<lambda>s. (Inr (rasp_manager s), s))"

definition modify_manager :: "(RASPManager \<Rightarrow> RASPManager) \<Rightarrow> ('w, unit) rasp_prog" where
  "modify_manager f = (\<lambda>s. (Inr (), s\<lparr>rasp_manager := f (rasp_manager s)\<rparr>))"

definition fail_st :: "error \<Rightarrow> ('s, 'a) prog" where
  "fail_st e = lift_res (Inl (Err e))"

definition update_patch_field :: "patch \<Rightarrow> RASPServerProcess \<Rightarrow> RASPServerProcess" where
  "update_patch_field patch server =
     (case patch (ascii ''nspid'') of
        None \<Rightarrow> server
      | Some nspid \<Rightarrow> server\<lparr>patch_field := (patch_field server)(nspid \<mapsto> patch)\<rparr>)"

definition RASPServerProcess_new :: "int \<Rightarrow> patch \<Rightarrow> RASPServerProcess" where
  "RASPServerProcess_new pid patch =
     update_patch_field patch \<lparr>child_id = 0, patch_field = Map.empty, server_pid = pid\<rparr>"

definition modify_process_comm :: "(ProcessMode \<Rightarrow> ProcessMode) \<Rightarrow> ('w, unit) rasp_prog" where
  "modify_process_comm f = modify_manager (\<lambda>m. m\<lparr>process_comm := map_option f (process_comm m)\<rparr>)"

definition process_start_comm :: "'w rasp_sys \<Rightarrow> int \<Rightarrow> bytes \<Rightarrow> patch \<Rightarrow> ('w, unit) rasp_prog" where
  "process_start_comm S pid ns patch =
     bind_st (sys_check (Message ''spawn command failed'') (spawn_server S pid)) (\<lambda>_.
     modify_process_comm (\<lambda>c. c\<lparr>
       mnt_namesapce_server_map := (mnt_namesapce_server_map c)(ns \<mapsto> RASPServerProcess_new pid patch),
       mnt_namespace_comm_pair := insert ns (mnt_namespace_comm_pair c)\<rparr>))"

definition process_stop_comm :: "'w rasp_sys \<Rightarrow> bytes \<Rightarrow> ProcessMode \<Rightarrow> ('w, unit) rasp_prog" where
  "process_stop_comm S ns comm =
     (case mnt_namesapce_server_map comm ns of
        Some runner \<Rightarrow>
          bind_st (modify_process_comm (\<lambda>c. c\<lparr>mnt_namesapce_server_map := (mnt_namesapce_server_map c)(ns := None)\<rparr>)) (\<lambda>_.
          sys_call (\<lambda>w. (Inr (), kill_process S (uint (child_id runner)) w)))
      | None \<Rightarrow> fail_st (Message ''didn't start server for mnt namespace''))"

definition path_parent :: "bytes \<Rightarrow> bytes option" where
  "path_parent p =
     (if components p = [] then None
      else let slash = (\<lambda>b. b = 0x2f);
               r = rev (dropWhile slash (dropWhile (\<lambda>b. b \<noteq> 0x2f) (dropWhile slash (rev p))))
           in Some (if r = [] \<and> starts_with p (ascii ''/'') then ascii ''/'' else r))"

definition thread_start_comm :: "'w rasp_sys \<Rightarrow> int \<Rightarrow> ThreadMode \<Rightarrow> ('w, unit) rasp_prog" where
  "thread_start_comm S pid comm =
     bind_st (case (using_mount comm, path_parent (bind_path comm)) of
                (True, Some dir) \<Rightarrow> sys_call (mount_dir S pid dir dir)
              | _ \<Rightarrow> return_st ()) (\<lambda>_.
     case linking_to comm of
       Some to \<Rightarrow> sys_call (link_path S pid (bind_path comm) to)
     | None \<Rightarrow> return_st ())"

definition send_to_comm :: "'w rasp_sys \<Rightarrow> int \<Rightarrow> bytes \<Rightarrow> bytes \<Rightarrow> ('w, unit) rasp_prog" where
  "send_to_comm S pid ns message =
     bind_st get_manager (\<lambda>m.
     case (thread_comm m, process_comm m) of
       (Some _, _) \<Rightarrow>
         sys_call (\<lambda>w. case thread_send S pid message w of
           (True, w) \<Rightarrow> (Inr (), w)
         | (False, w) \<Rightarrow> (Inl (Err (Message ''send message to probe failed'')), stop_control S w))
     | (None, Some comm) \<Rightarrow>
         if ns \<in> mnt_namespace_comm_pair comm
         then sys_check (Message ''send to probe failed'') (server_send S ns message) else return_st ()
     | (None, None) \<Rightarrow> fail_st (Message ''both thread && process comm mode not init''))"

subsection \<open>Starting and stopping\<close>

definition opt_bytes :: "bytes option \<Rightarrow> bytes" where
  "opt_bytes v = (case v of None \<Rightarrow> [] | Some v \<Rightarrow> v)"

definition patch_of :: "ProcessInfo \<Rightarrow> int \<Rightarrow> patch" where
  "patch_of p nspid = [
     ascii ''sid'' \<mapsto> show_int (pi_sid p), ascii ''pid'' \<mapsto> show_int (pi_pid p), ascii ''nspid'' \<mapsto> show_int nspid,
     ascii ''ppid'' \<mapsto> show_int (pi_ppid p), ascii ''tgid'' \<mapsto> show_int (pi_tgid p),
     ascii ''argv'' \<mapsto> opt_bytes (pi_cmdline p), ascii ''exe'' \<mapsto> opt_bytes (pi_exe_path p),
     ascii ''ruid'' \<mapsto> show_nat (unat (ruid (pi_ids p))), ascii ''rgid'' \<mapsto> show_nat (unat (rgid (pi_ids p))),
     ascii ''euid'' \<mapsto> show_nat (unat (euid (pi_ids p))), ascii ''egid'' \<mapsto> show_nat (unat (egid (pi_ids p))),
     ascii ''suid'' \<mapsto> show_nat (unat (suid (pi_ids p))), ascii ''sgid'' \<mapsto> show_nat (unat (sgid (pi_ids p))),
     ascii ''fuid'' \<mapsto> show_nat (unat (fuid (pi_ids p))), ascii ''fgid'' \<mapsto> show_nat (unat (fgid (pi_ids p)))]"

definition modify_tracer :: "(tracer \<Rightarrow> tracer) \<Rightarrow> ('w, unit) rasp_prog" where
  "modify_tracer f = modify_manager (\<lambda>m. m\<lparr>namespace_tracer := f (namespace_tracer m)\<rparr>)"

definition register :: "bytes \<Rightarrow> int \<Rightarrow> ('w, unit) rasp_prog" where
  "register ns pid = modify_tracer (tracer_register ns pid)"

definition start_comm :: "'w rasp_sys \<Rightarrow> ProcessInfo \<Rightarrow> ('w, unit) rasp_prog" where
  "start_comm S p =
     bind_st (lift_res (get_mnt_ns p)) (\<lambda>ns.
     bind_st (sys_call (nspid_of S (pi_pid p))) (\<lambda>nspid.
     let patch = patch_of p (case nspid of None \<Rightarrow> pi_pid p | Some n \<Rightarrow> n) in
     bind_st get_manager (\<lambda>m.
     case (thread_comm m, process_comm m) of
       (Some comm, _) \<Rightarrow> bind_st (thread_start_comm S (pi_pid p) comm) (\<lambda>_. register ns (pi_pid p))
     | (None, Some comm) \<Rightarrow>
         (case server_state ns (namespace_tracer m) of
            Some True \<Rightarrow>
              modify_process_comm (\<lambda>c. c\<lparr>mnt_namesapce_server_map :=
                (case mnt_namesapce_server_map c ns of
                   Some runner \<Rightarrow> (mnt_namesapce_server_map c)(ns \<mapsto> update_patch_field patch runner)
                 | None \<Rightarrow> mnt_namesapce_server_map c)\<rparr>)
          | Some False \<Rightarrow> register ns (pi_pid p)
          | None \<Rightarrow> bind_st (process_start_comm S (pi_pid p) ns patch) (\<lambda>_. register ns (pi_pid p)))
     | (None, None) \<Rightarrow> fail_st (Message ''both thread && process comm mode not init''))))"

definition stop_comm :: "'w rasp_sys \<Rightarrow> ProcessInfo \<Rightarrow> ('w, unit) rasp_prog" where
  "stop_comm S p =
     bind_st (lift_res (get_mnt_ns p)) (\<lambda>ns.
     bind_st get_manager (\<lambda>m.
     case server_state_off ns (pi_pid p) (namespace_tracer m) of (kill_check, t) \<Rightarrow>
       bind_st (modify_tracer (\<lambda>_. t)) (\<lambda>_.
       if kill_check
       then (case process_comm m of Some comm \<Rightarrow> process_stop_comm S ns comm | None \<Rightarrow> return_st ())
       else return_st ())))"

definition RASPManager_init :: "bytes \<Rightarrow> ThreadMode \<Rightarrow> RASPManager res" where
  "RASPManager_init comm_mode thread =
     (if comm_mode = ascii ''thread''
      then Inr \<lparr>namespace_tracer = tracer_new, thread_comm = Some thread, process_comm = None\<rparr>
      else if comm_mode = ascii ''server''
      then Inr \<lparr>namespace_tracer = tracer_new, thread_comm = None,
                process_comm = Some \<lparr>mnt_namesapce_server_map = Map.empty, mnt_namespace_comm_pair = {}\<rparr>\<rparr>
      else Inl (Err (Message ''is not a vavild comm mode'')))"

subsection \<open>Messages to probes\<close>

definition empty_message :: "int \<Rightarrow> ProbeMessage res" where
  "empty_message t =
     (if t \<in> {6, 7, 8, 9} then Inr \<lparr>message_type = t, uuid = [], message_body = []\<rparr>
      else Inl (Err (Message ''message type not valid'')))"

fun valid_messages :: "(ProbeMessage \<Rightarrow> bytes option) \<Rightarrow> ProbeMessage list \<Rightarrow> ProbeMessage list res" where
  "valid_messages json [] = Inr []"
| "valid_messages json (m # ms) =
     (if uuid m = []
      then bind_res (empty_message (message_type m)) (\<lambda>e. bind_res (valid_messages json ms) (\<lambda>vs. Inr (e # vs)))
      else case json m of
             None \<Rightarrow> valid_messages json ms
           | Some _ \<Rightarrow> bind_res (valid_messages json ms) (\<lambda>vs. Inr (m # vs)))"

fun send_valid :: "'w rasp_sys \<Rightarrow> int \<Rightarrow> bytes \<Rightarrow> ProbeMessage list \<Rightarrow> ('w, unit) rasp_prog" where
  "send_valid S pid ns [] = return_st ()"
| "send_valid S pid ns (m # ms) =
     (case message_json S m of
        None \<Rightarrow> send_valid S pid ns ms
      | Some m_string \<Rightarrow> bind_st (send_to_comm S pid ns m_string) (\<lambda>_. send_valid S pid ns ms))"

definition send_message_to_probe :: "'w rasp_sys \<Rightarrow> int \<Rightarrow> bytes \<Rightarrow> bytes \<Rightarrow> ('w, unit) rasp_prog" where
  "send_message_to_probe S pid ns message =
     bind_st (sys_call (nspid_of S pid)) (\<lambda>nspid.
     bind_st (lift_res (the_or nspid (Message ''can not fetch nspid''))) (\<lambda>nspid.
     bind_st (lift_res (the_or (parse_messages S message) ParseError)) (\<lambda>messages.
     let messages = (if messages = []
       then map (\<lambda>t. \<lparr>message_type = t, uuid = [], message_body = []\<rparr>) [6, 7, 8, 9] else messages) in
     bind_st (lift_res (valid_messages (message_json S) messages)) (\<lambda>valid_ms.
     bind_st (send_valid S pid ns valid_ms) (\<lambda>_.
     sys_call (write_config S pid nspid valid_ms))))))"

subsection \<open>Inspecting and attaching\<close>

definition PROCESS_BALACK :: "bytes list" where
  "PROCESS_BALACK = map ascii [''/usr/sbin'', ''/lib/systemd'', ''/pause'', ''/bin'', ''/sbin'']"

definition inspect :: "ProcessInfo \<Rightarrow> unit res" where
  "inspect p =
     bind_res (the_or (pi_exe_path p) (Message ''missing exe path during inspect'')) (\<lambda>exe_path.
     if list_ex (starts_with exe_path) PROCESS_BALACK
     then Inl (Err (Message ''inspecting process hit black list'')) else Inr ())"

definition runtime_inspect :: "detectors \<Rightarrow> ProcessInfo \<Rightarrow> bool res \<times> ProcessInfo" where
  "runtime_inspect D p =
     (case inspect_from_process_info D p of
        Inl e \<Rightarrow> (Inl e, p)
      | Inr runtime \<Rightarrow> (Inr True, p\<lparr>pi_runtime := runtime\<rparr>))"

text \<open>The arms for the runtimes whose probe can tell that it is attached already.\<close>

definition attach_probe :: "'w rasp_sys \<Rightarrow> bool \<Rightarrow> bytes \<Rightarrow> ProcessInfo \<Rightarrow> ('w, bool) rasp_prog" where
  "attach_probe S copies name p =
     bind_st (sys_call (probe_attached S name p)) (\<lambda>attached.
     if attached then return_st True
     else bind_st (if copies then sys_call (copy_probe S name (pi_pid p)) else return_st ()) (\<lambda>_.
          sys_call (runtime_attach S name p)))"

definition attach_runtime :: "'w rasp_sys \<Rightarrow> bytes \<Rightarrow> ProcessInfo \<Rightarrow> ('w, bool) rasp_prog" where
  "attach_runtime S name p =
     (if name = ascii ''JVM'' \<or> name = ascii ''CPython'' \<or> name = ascii ''Golang'' then attach_probe S True name p
      else if name = ascii ''NodeJS''
      then bind_st (sys_call (copy_probe S name (pi_pid p))) (\<lambda>_.
           bind_st (lift_res (the_or (pi_exe_path p) (Message ''process exe path not found''))) (\<lambda>_.
           sys_call (runtime_attach S name p)))
      else if name = ascii ''PHP'' then attach_probe S False name p
      else fail_st (Message ''can not attach to runtime''))"

definition attach :: "'w rasp_sys \<Rightarrow> ProcessInfo \<Rightarrow> ('w, unit) rasp_prog" where
  "attach S p =
     bind_st (lift_res (the_or (pi_runtime p) (Message ''attaching to unknow runtime process''))) (\<lambda>runtime.
     bind_st (lift_res (the_or (pi_environ p) (Message ''can not fetch envrion''))) (\<lambda>_.
     bind_st (lift_res (unwrap_opt (pi_namespace_info p))) (\<lambda>namespace.
     bind_st (lift_res (unwrap_opt (mnt namespace))) (\<lambda>_.
     bind_st (sys_call (nspid_of S (pi_pid p))) (\<lambda>nspid.
     bind_st (lift_res (the_or nspid (Message ''can not read nspid''))) (\<lambda>nspid.
     bind_st (sys_call (delete_config S (pi_pid p) nspid)) (\<lambda>_.
     bind_st (attach_runtime S (rt_name runtime) p) (\<lambda>success.
     if success then return_st () else fail_st (Message ''attach failed'')))))))))"

subsection \<open>What the tracer stands for\<close>

text \<open>The abstraction: which processes of which namespaces are served.\<close>

definition served_pids :: "tracer \<Rightarrow> (bytes \<times> int) set" where
  "served_pids t = {(ns, pid). \<exists>pids on. t ns = Some (pids, on) \<and> pid \<in> set pids}"

definition tracer_ok :: "tracer \<Rightarrow> bool" where
  "tracer_ok t \<longleftrightarrow> (\<forall>ns pids on. t ns = Some (pids, on) \<longrightarrow> pids \<noteq> [] \<and> distinct pids \<and> on)"

lemma tracer_ok_new: "tracer_ok tracer_new"
  by (simp add: tracer_ok_def tracer_new_def)

lemma served_pids_new: "served_pids tracer_new = {}"
  by (simp add: served_pids_def tracer_new_def)

lemma register_ok: "tracer_ok t \<Longrightarrow> tracer_ok (server_state_on ns (tracer_add ns pid t))"
  unfolding tracer_ok_def server_state_on_def tracer_add_def
  by (auto split: option.splits prod.splits if_splits)

lemma register_served: "served_pids (server_state_on ns (tracer_add ns pid t)) = insert (ns, pid) (served_pids t)"
  unfolding served_pids_def server_state_on_def tracer_add_def
  by (auto split: option.splits prod.splits if_splits)

lemma off_ok: "tracer_ok t \<Longrightarrow> tracer_ok (snd (server_state_off ns pid t))"
  unfolding tracer_ok_def server_state_off_def Let_def
  by (auto split: option.splits prod.splits if_splits)

lemma remove1_Nil: "distinct xs \<Longrightarrow> xs \<noteq> [] \<Longrightarrow> remove1 x xs = [] \<longleftrightarrow> xs = [x]"
  by (cases xs) auto

lemma tracer_okD: "tracer_ok t \<Longrightarrow> t ns = Some (pids, on) \<Longrightarrow> pids \<noteq> [] \<and> distinct pids \<and> on"
  unfolding tracer_ok_def by blast

lemma served_pids_iff: "(ns, q) \<in> served_pids t \<longleftrightarrow> (case t ns of None \<Rightarrow> False | Some (pids, _) \<Rightarrow> q \<in> set pids)"
  by (auto simp: served_pids_def split: option.splits)

lemma off_eq:
  assumes "tracer_ok t" "t ns = Some (pids, on)"
  shows "server_state_off ns pid t =
    (if pids = [pid] then (True, t(ns := None)) else (False, t(ns \<mapsto> (remove1 pid pids, True))))"
  using tracer_okD[OF assms] remove1_Nil[of pids pid] assms(2) by (simp add: server_state_off_def)

lemma off_served:
  assumes "tracer_ok t"
  shows "served_pids (snd (server_state_off ns pid t)) = served_pids t - {(ns, pid)}"
proof (cases "t ns")
  case None
  then show ?thesis by (auto simp: server_state_off_def served_pids_iff)
next
  case (Some e)
  obtain pids on where e: "t ns = Some (pids, on)" using Some by (cases e) simp
  show ?thesis using tracer_okD[OF assms e] e
    by (auto simp: off_eq[OF assms e] served_pids_iff split: if_splits option.splits)
qed

lemma off_kills:
  assumes "tracer_ok t"
  shows "fst (server_state_off ns pid t) \<longleftrightarrow> (ns, pid) \<in> served_pids t \<and> (\<forall>q. (ns, q) \<in> served_pids t \<longrightarrow> q = pid)"
proof (cases "t ns")
  case None
  then show ?thesis by (simp add: server_state_off_def served_pids_iff)
next
  case (Some e)
  obtain pids on where e: "t ns = Some (pids, on)" using Some by (cases e) simp
  have "pids = [pid] \<longleftrightarrow> pid \<in> set pids \<and> (\<forall>q \<in> set pids. q = pid)"
    using tracer_okD[OF assms e] by (cases pids; cases "tl pids") auto
  then show ?thesis using e by (simp add: off_eq[OF assms e] served_pids_iff Ball_def)
qed

lemma state_served:
  assumes "tracer_ok t"
  shows "server_state ns t = (if \<exists>q. (ns, q) \<in> served_pids t then Some True else None)"
proof (cases "t ns")
  case None
  then show ?thesis by (simp add: server_state_def served_pids_iff)
next
  case (Some e)
  obtain pids on where e: "t ns = Some (pids, on)" using Some by (cases e) simp
  then show ?thesis using tracer_okD[OF assms e] by (cases pids) (auto simp: server_state_def served_pids_iff)
qed

text \<open>The contract of the tracer, and the tracer as its implementation by lists.\<close>

locale pid_registry =
  fixes ok :: "'t \<Rightarrow> bool" and served :: "'t \<Rightarrow> (bytes \<times> int) set"
    and add :: "bytes \<Rightarrow> int \<Rightarrow> 't \<Rightarrow> 't" and off :: "bytes \<Rightarrow> int \<Rightarrow> 't \<Rightarrow> bool \<times> 't"
  assumes add_ok: "ok t \<Longrightarrow> ok (add ns pid t)"
    and add_served: "ok t \<Longrightarrow> served (add ns pid t) = insert (ns, pid) (served t)"
    and off_ok: "ok t \<Longrightarrow> ok (snd (off ns pid t))"
    and off_served: "ok t \<Longrightarrow> served (snd (off ns pid t)) = served t - {(ns, pid)}"
    and off_last: "ok t \<Longrightarrow> fst (off ns pid t) \<longleftrightarrow> (ns, pid) \<in> served t \<and> (\<forall>q. (ns, q) \<in> served t \<longrightarrow> q = pid)"
begin

lemma off_unless_last: "ok t \<Longrightarrow> (ns, q) \<in> served t \<Longrightarrow> q \<noteq> pid \<Longrightarrow> \<not> fst (off ns pid t) \<and> (ns, q) \<in> served (snd (off ns pid t))"
  by (auto simp: off_last off_served)

lemma off_absent: "ok t \<Longrightarrow> (ns, pid) \<notin> served t \<Longrightarrow> \<not> fst (off ns pid t) \<and> served (snd (off ns pid t)) = served t"
  by (auto simp: off_last off_served)

lemma add_then_off:
  "ok t \<Longrightarrow> (\<And>q. (ns, q) \<notin> served t) \<Longrightarrow>
   fst (off ns pid (add ns pid t)) \<and> served (snd (off ns pid (add ns pid t))) = served t"
  using add_ok[of t ns pid] by (auto simp: off_last off_served add_served)

end

interpretation registry: pid_registry tracer_ok served_pids tracer_register server_state_off
  by unfold_locales (simp_all add: tracer_register_def register_ok register_served off_ok off_served off_kills)

subsection \<open>Both modes\<close>

text \<open>Starts (\<open>True\<close>) and stops of processes one after the other, with whether each succeeded; and
  the specification on the set of served processes.\<close>

fun rasp_run :: "'w rasp_sys \<Rightarrow> (ProcessInfo \<times> bool) list \<Rightarrow> 'w rasp \<Rightarrow> bool list \<times> 'w rasp" where
  "rasp_run S [] s = ([], s)"
| "rasp_run S ((p, starts) # es) s =
     (case (if starts then start_comm S p else stop_comm S p) s of (r, s) \<Rightarrow>
        case rasp_run S es s of (rs, s) \<Rightarrow> ((case r of Inl _ \<Rightarrow> False | Inr _ \<Rightarrow> True) # rs, s))"

fun serve_spec :: "(ProcessInfo \<times> bool) list \<Rightarrow> bool list \<Rightarrow> (bytes \<times> int) set \<Rightarrow> (bytes \<times> int) set" where
  "serve_spec ((p, starts) # es) (True # rs) A =
     serve_spec es rs (case get_mnt_ns p of
        Inl _ \<Rightarrow> A
      | Inr ns \<Rightarrow> if starts then insert (ns, pi_pid p) A else A - {(ns, pi_pid p)})"
| "serve_spec (e # es) (False # rs) A = serve_spec es rs A"
| "serve_spec es rs A = A"

lemmas rasp_defs = bind_st_def lift_res_def sys_call_def sys_check_def get_manager_def modify_manager_def
  modify_tracer_def modify_process_comm_def register_def fail_st_def return_st_def

abbreviation tracer_of :: "'w rasp \<Rightarrow> tracer" where
  "tracer_of s \<equiv> namespace_tracer (rasp_manager s)"

lemma thread_start_comm_keeps: "rasp_manager (snd (thread_start_comm S pid comm s)) = rasp_manager s"
  by (auto simp: thread_start_comm_def rasp_defs split: prod.splits sum.splits option.splits bool.splits)

lemma start_comm_thread:
  assumes "thread_comm (rasp_manager s) = Some comm" "start_comm S p s = (r, s')"
  shows "thread_comm (rasp_manager s') = Some comm \<and> process_comm (rasp_manager s') = process_comm (rasp_manager s) \<and>
    (case r of Inl _ \<Rightarrow> tracer_of s' = tracer_of s
     | Inr _ \<Rightarrow> \<exists>ns. get_mnt_ns p = Inr ns \<and> tracer_of s' = tracer_register ns (pi_pid p) (tracer_of s))"
proof (cases "get_mnt_ns p")
  case (Inl e)
  then show ?thesis using assms by (auto simp: start_comm_def rasp_defs)
next
  case (Inr ns)
  obtain n w where n: "nspid_of S (pi_pid p) (rasp_world s) = (n, w)" by (meson surj_pair)
  obtain r1 s1 where start: "thread_start_comm S (pi_pid p) comm (s\<lparr>rasp_world := w\<rparr>) = (r1, s1)" by (meson surj_pair)
  with thread_start_comm_keeps[of S "pi_pid p" comm "s\<lparr>rasp_world := w\<rparr>"] have "rasp_manager s1 = rasp_manager s" by simp
  then show ?thesis using assms Inr n start
    by (auto simp: start_comm_def rasp_defs Let_def split: sum.splits)
qed

lemma stop_comm_thread:
  assumes "process_comm (rasp_manager s) = None" "stop_comm S p s = (r, s')"
  shows "thread_comm (rasp_manager s') = thread_comm (rasp_manager s) \<and> process_comm (rasp_manager s') = None \<and>
    (case r of Inl _ \<Rightarrow> tracer_of s' = tracer_of s
     | Inr _ \<Rightarrow> \<exists>ns. get_mnt_ns p = Inr ns \<and> tracer_of s' = snd (server_state_off ns (pi_pid p) (tracer_of s)))"
  using assms
  by (cases "get_mnt_ns p") (auto simp: stop_comm_def rasp_defs split: prod.splits if_splits sum.splits)

text \<open>The invariant of the server mode.\<close>

definition server_inv :: "'w rasp \<Rightarrow> bool" where
  "server_inv s \<longleftrightarrow> thread_comm (rasp_manager s) = None \<and> tracer_ok (tracer_of s) \<and>
     (\<exists>c. process_comm (rasp_manager s) = Some c \<and> dom (mnt_namesapce_server_map c) = dom (tracer_of s) \<and>
       (\<forall>server \<in> ran (mnt_namesapce_server_map c). child_id server = 0))"

lemma child_id_0: "child_id (RASPServerProcess_new pid patch) = 0" "child_id (update_patch_field patch server) = child_id server"
  by (simp_all add: RASPServerProcess_new_def update_patch_field_def split: option.splits)

lemma dom_register: "dom (tracer_register ns pid t) = insert ns (dom t)"
  by (auto simp: tracer_register_def server_state_on_def tracer_add_def split: option.splits prod.splits if_splits)

lemma start_comm_server:
  assumes "thread_comm (rasp_manager s) = None" "process_comm (rasp_manager s) = Some c"
    and "get_mnt_ns p = Inr ns" "nspid_of S (pi_pid p) (rasp_world s) = (Inr n, w)"
  shows "start_comm S p s =
    (let patch = patch_of p (case n of None \<Rightarrow> pi_pid p | Some n \<Rightarrow> n); servers = mnt_namesapce_server_map c;
         m = rasp_manager s; t = namespace_tracer m in
     case server_state ns t of
       Some True \<Rightarrow> (Inr (), s\<lparr>rasp_world := w, rasp_manager := m\<lparr>process_comm := Some (c\<lparr>mnt_namesapce_server_map :=
         (case servers ns of Some runner \<Rightarrow> servers(ns \<mapsto> update_patch_field patch runner) | None \<Rightarrow> servers)\<rparr>)\<rparr>\<rparr>)
     | Some False \<Rightarrow> (Inr (), s\<lparr>rasp_world := w, rasp_manager := m\<lparr>namespace_tracer := tracer_register ns (pi_pid p) t\<rparr>\<rparr>)
     | None \<Rightarrow>
         (case spawn_server S (pi_pid p) w of
            (True, w) \<Rightarrow> (Inr (), s\<lparr>rasp_world := w, rasp_manager := m\<lparr>namespace_tracer := tracer_register ns (pi_pid p) t,
               process_comm := Some (c\<lparr>mnt_namesapce_server_map := servers(ns \<mapsto> RASPServerProcess_new (pi_pid p) patch),
                 mnt_namespace_comm_pair := insert ns (mnt_namespace_comm_pair c)\<rparr>)\<rparr>\<rparr>)
          | (False, w) \<Rightarrow> (Inl (Err (Message ''spawn command failed'')), s\<lparr>rasp_world := w\<rparr>)))"
  using assms
  by (auto simp: start_comm_def rasp_defs process_start_comm_def Let_def split: option.splits bool.splits prod.splits)

lemma start_comm_fails:
  assumes "\<And>ns. get_mnt_ns p \<noteq> Inr ns"
  shows "rasp_manager (snd (start_comm S p s)) = rasp_manager s" "rasp_manager (snd (stop_comm S p s)) = rasp_manager s"
  using assms by (cases "get_mnt_ns p"; simp add: start_comm_def stop_comm_def rasp_defs)+

lemma start_comm_nspid_fails:
  "get_mnt_ns p = Inr ns \<Longrightarrow> nspid_of S (pi_pid p) (rasp_world s) = (Inl e, w) \<Longrightarrow>
   rasp_manager (snd (start_comm S p s)) = rasp_manager s"
  by (simp add: start_comm_def rasp_defs)

lemma server_inv_cong: "rasp_manager s' = rasp_manager s \<Longrightarrow> server_inv s \<Longrightarrow> server_inv s'"
  by (simp add: server_inv_def)

lemma ran_upd: "x \<in> ran (m(k \<mapsto> v)) \<Longrightarrow> x = v \<or> x \<in> ran m"
  by (auto simp: ran_def split: if_splits)

lemma server_inv_start:
  assumes "server_inv s"
  shows "server_inv (snd (start_comm S p s))"
proof (cases "\<exists>ns. get_mnt_ns p = Inr ns")
  case False
  then have "rasp_manager (snd (start_comm S p s)) = rasp_manager s" by (intro start_comm_fails(1)) simp
  then show ?thesis by (rule server_inv_cong[OF _ assms])
next
  case True
  then obtain ns where ns: "get_mnt_ns p = Inr ns" by blast
  obtain r w where r: "nspid_of S (pi_pid p) (rasp_world s) = (r, w)" by (meson surj_pair)
  show ?thesis
  proof (cases r)
    case (Inl e)
    with r have "rasp_manager (snd (start_comm S p s)) = rasp_manager s" using start_comm_nspid_fails[OF ns] by simp
    then show ?thesis by (rule server_inv_cong[OF _ assms])
  next
    case (Inr n)
    from assms obtain c where c: "thread_comm (rasp_manager s) = None" "process_comm (rasp_manager s) = Some c"
        and t: "tracer_ok (tracer_of s)" "dom (mnt_namesapce_server_map c) = dom (tracer_of s)"
        and ids: "\<forall>server \<in> ran (mnt_namesapce_server_map c). child_id server = 0"
      by (auto simp: server_inv_def)
    note start = start_comm_server[OF c ns r[unfolded Inr], unfolded Let_def]
    have reg: "tracer_ok (tracer_register ns (pi_pid p) (tracer_of s))" using registry.add_ok t(1) by blast
    show ?thesis
    proof (cases "server_state ns (tracer_of s)")
      case None
      obtain ok w' where spawn: "spawn_server S (pi_pid p) w = (ok, w')" by (meson surj_pair)
      show ?thesis
      proof (cases ok)
        case True
        then show ?thesis using None spawn c t ids reg
          by (auto simp: start server_inv_def dom_register child_id_0 dest!: ran_upd)
      next
        case False
        then have "rasp_manager (snd (start_comm S p s)) = rasp_manager s" using None spawn by (simp add: start)
        then show ?thesis by (rule server_inv_cong[OF _ assms])
      qed
    next
      case (Some on)
      then have "on" using state_served[OF t(1), of ns] by (auto split: if_splits)
      from Some have "ns \<in> dom (mnt_namesapce_server_map c)" unfolding t(2) by (auto simp: server_state_def)
      then obtain runner where runner: "mnt_namesapce_server_map c ns = Some runner" by blast
      have "child_id runner = 0" using ids runner by (meson ranI)
      then show ?thesis using Some \<open>on\<close> runner c t ids
        by (auto simp: start server_inv_def child_id_0 dest!: ran_upd)
    qed
  qed
qed

lemma stop_comm_server:
  assumes "process_comm (rasp_manager s) = Some c" "get_mnt_ns p = Inr ns"
  shows "stop_comm S p s =
    (case server_state_off ns (pi_pid p) (tracer_of s) of
       (False, t) \<Rightarrow> (Inr (), s\<lparr>rasp_manager := (rasp_manager s)\<lparr>namespace_tracer := t\<rparr>\<rparr>)
     | (True, t) \<Rightarrow>
         (case mnt_namesapce_server_map c ns of
            None \<Rightarrow> (Inl (Err (Message ''didn't start server for mnt namespace'')),
                     s\<lparr>rasp_manager := (rasp_manager s)\<lparr>namespace_tracer := t\<rparr>\<rparr>)
          | Some runner \<Rightarrow> (Inr (), s\<lparr>rasp_manager := (rasp_manager s)\<lparr>namespace_tracer := t,
              process_comm := Some (c\<lparr>mnt_namesapce_server_map := (mnt_namesapce_server_map c)(ns := None)\<rparr>)\<rparr>,
              rasp_world := kill_process S (uint (child_id runner)) (rasp_world s)\<rparr>)))"
  using assms by (auto simp: stop_comm_def rasp_defs process_stop_comm_def split: prod.splits bool.splits option.splits)

lemma ran_del: "x \<in> ran (m(k := None)) \<Longrightarrow> x \<in> ran m"
  by (auto simp: ran_def split: if_splits)

lemma off_dom:
  assumes "tracer_ok t" "server_state_off ns pid t = (kill, t')"
  shows "dom t' = (if kill then dom t - {ns} else dom t) \<and> (kill \<longrightarrow> ns \<in> dom t)"
proof (cases "t ns")
  case None
  then show ?thesis using assms by (auto simp: server_state_off_def)
next
  case (Some e)
  obtain pids on where e: "t ns = Some (pids, on)" using Some by (cases e) simp
  then show ?thesis using assms(2) by (auto simp: off_eq[OF assms(1) e] split: if_splits)
qed

lemma server_inv_stop:
  assumes "server_inv s"
  shows "server_inv (snd (stop_comm S p s)) \<and> (\<forall>ns. get_mnt_ns p = Inr ns \<longrightarrow> fst (stop_comm S p s) = Inr ())"
proof (cases "\<exists>ns. get_mnt_ns p = Inr ns")
  case False
  then have "rasp_manager (snd (stop_comm S p s)) = rasp_manager s" by (intro start_comm_fails(2)) simp
  then show ?thesis using server_inv_cong[OF _ assms] False by blast
next
  case True
  then obtain ns where ns: "get_mnt_ns p = Inr ns" by blast
  from assms obtain c where c: "thread_comm (rasp_manager s) = None" "process_comm (rasp_manager s) = Some c"
      and t: "tracer_ok (tracer_of s)" "dom (mnt_namesapce_server_map c) = dom (tracer_of s)"
      and ids: "\<forall>server \<in> ran (mnt_namesapce_server_map c). child_id server = 0"
    by (auto simp: server_inv_def)
  obtain kill t' where off: "server_state_off ns (pi_pid p) (tracer_of s) = (kill, t')" by (meson surj_pair)
  have ok: "tracer_ok t'" using registry.off_ok[OF t(1), of ns "pi_pid p"] off by simp
  note stop = stop_comm_server[OF c(2) ns, unfolded off]
  show ?thesis
  proof (cases kill)
    case True
    then have "ns \<in> dom (mnt_namesapce_server_map c)" using off_dom[OF t(1) off] t(2) by simp
    then obtain runner where runner: "mnt_namesapce_server_map c ns = Some runner" by blast
    have "dom t' = dom (tracer_of s) - {ns}" using off_dom[OF t(1) off] True by simp
    then show ?thesis using True runner c t ids ok by (auto simp: stop server_inv_def dest!: ran_del)
  next
    case False
    then show ?thesis using off_dom[OF t(1) off] c t ids ok by (auto simp: stop server_inv_def)
  qed
qed

lemma server_inv_run: "server_inv s \<Longrightarrow> server_inv (snd (rasp_run S es s))"
proof (induction es arbitrary: s)
  case (Cons e es)
  obtain p starts where e: "e = (p, starts)" by (cases e)
  have "server_inv (snd ((if starts then start_comm S p else stop_comm S p) s))"
    using server_inv_start[OF Cons.prems] server_inv_stop[OF Cons.prems] by (cases starts) simp_all
  from Cons.IH[OF this] show ?case using e by (simp add: case_prod_beta)
qed simp

lemma thread_run:
  assumes "thread_comm (rasp_manager s) = Some comm" "process_comm (rasp_manager s) = None" "tracer_ok (tracer_of s)"
    and "rasp_run S es s = (rs, s')"
  shows "served_pids (tracer_of s') = serve_spec es rs (served_pids (tracer_of s))"
  using assms
proof (induction es arbitrary: s rs)
  case (Cons e es)
  obtain p starts where e: "e = (p, starts)" by (cases e)
  obtain r s1 where r: "(if starts then start_comm S p else stop_comm S p) s = (r, s1)" by (meson surj_pair)
  obtain rs1 where rs1: "rasp_run S es s1 = (rs1, s')" "rs = (case r of Inl _ \<Rightarrow> False | Inr _ \<Rightarrow> True) # rs1"
    using Cons.prems(4) e r by (auto split: prod.splits)
  have mode: "thread_comm (rasp_manager s1) = Some comm" "process_comm (rasp_manager s1) = None"
    using start_comm_thread[OF Cons.prems(1)] stop_comm_thread[OF Cons.prems(2)] r Cons.prems(1,2)
    by (metis (full_types))+
  have tracer: "case r of Inl _ \<Rightarrow> tracer_of s1 = tracer_of s
     | Inr _ \<Rightarrow> \<exists>ns. get_mnt_ns p = Inr ns \<and> tracer_of s1 =
         (if starts then tracer_register ns (pi_pid p) (tracer_of s) else snd (server_state_off ns (pi_pid p) (tracer_of s)))"
    using start_comm_thread[OF Cons.prems(1), of S p r s1] stop_comm_thread[OF Cons.prems(2), of S p r s1] r
    by (cases starts; cases r) simp_all
  show ?case
  proof (cases r)
    case (Inl f)
    then show ?thesis using Cons.IH[OF mode _ rs1(1)] tracer Cons.prems(3) rs1(2) e by simp
  next
    case (Inr u)
    then obtain ns where ns: "get_mnt_ns p = Inr ns" "tracer_of s1 =
        (if starts then tracer_register ns (pi_pid p) (tracer_of s) else snd (server_state_off ns (pi_pid p) (tracer_of s)))"
      using tracer by auto
    have "tracer_ok (tracer_of s1)" using registry.add_ok registry.off_ok Cons.prems(3) ns(2) by simp
    moreover have "served_pids (tracer_of s1) = (if starts then insert (ns, pi_pid p) (served_pids (tracer_of s))
        else served_pids (tracer_of s) - {(ns, pi_pid p)})"
      using registry.add_served registry.off_served Cons.prems(3) ns(2) by simp
    ultimately show ?thesis using Cons.IH[OF mode _ rs1(1)] rs1(2) e Inr ns(1) by simp
  qed
qed simp

subsection \<open>A host\<close>

text \<open>A host on which every call succeeds; its world is the list of the processes that were killed.\<close>

definition sample_rasp :: "int list rasp_sys" where
  "sample_rasp = \<lparr>nspid_of = (\<lambda>p w. (Inr None, w)), spawn_server = (\<lambda>p w. (True, w)),
     kill_process = (\<lambda>p w. w @ [p]), mount_dir = (\<lambda>p a b w. (Inr (), w)), link_path = (\<lambda>p a b w. (Inr (), w)),
     thread_send = (\<lambda>p m w. (True, w)), server_send = (\<lambda>n m w. (True, w)), stop_control = id,
     parse_messages = (\<lambda>b. Some []), message_json = (\<lambda>m. Some []), write_config = (\<lambda>p n m w. (Inr (), w)),
     delete_config = (\<lambda>p n w. (Inr (), w)), probe_attached = (\<lambda>n p w. (Inr False, w)),
     copy_probe = (\<lambda>n p w. (Inr (), w)), runtime_attach = (\<lambda>n p w. (Inr True, w)),
     current_time = (\<lambda>w. (ascii ''0'', w))\<rparr>"

definition sample_info :: "int \<Rightarrow> ProcessInfo" where
  "sample_info pid = (ProcessInfo_new pid)\<lparr>pi_namespace_info := Some \<lparr>mnt = Some (ascii ''m'')\<rparr>\<rparr>"

definition sample_thread :: ThreadMode where
  "sample_thread = \<lparr>bind_path = ascii ''/var/run/sock'', linking_to = None, using_mount = False\<rparr>"

definition sample_manager :: RASPManager where
  "sample_manager = \<lparr>namespace_tracer = tracer_new, thread_comm = None,
     process_comm = Some \<lparr>mnt_namesapce_server_map = Map.empty, mnt_namespace_comm_pair = {}\<rparr>\<rparr>"

subsection \<open>Properties\<close>

text \<open>C13: in server mode the servers and the tracer agree. After any sequence of starts and stops, whichever
  of them failed, a namespace has a server exactly when the tracer knows it, the tracer knows at least one
  process of every such namespace, and a stop of a process with a namespace succeeds.\<close>

theorem servers_follow_tracer:
  assumes "RASPManager_init (ascii ''server'') th = Inr m"
    and "rasp_run S es \<lparr>rasp_manager = m, rasp_world = w\<rparr> = (rs, s)"
  shows "\<exists>c. process_comm (rasp_manager s) = Some c \<and> dom (mnt_namesapce_server_map c) = dom (tracer_of s) \<and>
    (\<forall>ns. ns \<in> dom (tracer_of s) \<longleftrightarrow> (\<exists>q. (ns, q) \<in> served_pids (tracer_of s))) \<and>
    (\<forall>p ns. get_mnt_ns p = Inr ns \<longrightarrow> fst (stop_comm S p s) = Inr ())"
proof -
  have "server_inv \<lparr>rasp_manager = m, rasp_world = w\<rparr>"
    using assms(1) by (auto simp: RASPManager_init_def server_inv_def tracer_ok_new) (simp_all add: tracer_new_def)
  then have inv: "server_inv s" using server_inv_run[of _ S es] assms(2) by (metis snd_conv)
  then have "tracer_ok (tracer_of s)" by (simp add: server_inv_def)
  then have "ns \<in> dom (tracer_of s) \<longleftrightarrow> (\<exists>q. (ns, q) \<in> served_pids (tracer_of s))" for ns
    using state_served[of "tracer_of s" ns] by (auto simp: server_state_def split: if_splits)
  moreover have "get_mnt_ns p = Inr ns \<Longrightarrow> fst (stop_comm S p s) = Inr ()" for p ns
    using server_inv_stop[OF inv, of S p] by blast
  ultimately show ?thesis using inv unfolding server_inv_def by blast
qed

theorem servers_follow_tracer_witness:
  "\<exists>rs s c. rasp_run sample_rasp [(sample_info 7, True), (sample_info 8, True)] \<lparr>rasp_manager = sample_manager, rasp_world = []\<rparr> = (rs, s) \<and>
    process_comm (rasp_manager s) = Some c \<and> dom (mnt_namesapce_server_map c) = dom (tracer_of s)"
proof -
  obtain rs s where run: "rasp_run sample_rasp [(sample_info 7, True), (sample_info 8, True)]
      \<lparr>rasp_manager = sample_manager, rasp_world = []\<rparr> = (rs, s)" by (meson surj_pair)
  have "RASPManager_init (ascii ''server'') sample_thread = Inr sample_manager"
    by (simp add: RASPManager_init_def sample_manager_def)
  from servers_follow_tracer[OF this run] run show ?thesis by blast
qed

text \<open>C20: in thread mode the tracer implements a set. After any sequence of starts and stops the processes it
  serves are those of the specification: a start that succeeded adds its process, a stop takes it away,
  and a call that failed changes nothing.\<close>

theorem thread_comm_refines_set:
  assumes "RASPManager_init (ascii ''thread'') th = Inr m"
    and "rasp_run S es \<lparr>rasp_manager = m, rasp_world = w\<rparr> = (rs, s)"
  shows "served_pids (tracer_of s) = serve_spec es rs {}"
proof -
  have "thread_comm m = Some th" "process_comm m = None" "namespace_tracer m = tracer_new"
    using assms(1) by (auto simp: RASPManager_init_def)
  then show ?thesis
    using thread_run[of "\<lparr>rasp_manager = m, rasp_world = w\<rparr>" th S es rs s] assms(2)
    by (simp add: tracer_ok_new served_pids_new)
qed

theorem thread_comm_refines_set_witness:
  "\<exists>rs s. rasp_run sample_rasp [(sample_info 7, True), (sample_info 8, True), (sample_info 7, False)]
      \<lparr>rasp_manager = \<lparr>namespace_tracer = tracer_new, thread_comm = Some sample_thread, process_comm = None\<rparr>, rasp_world = []\<rparr> = (rs, s) \<and>
    served_pids (tracer_of s) =
      serve_spec [(sample_info 7, True), (sample_info 8, True), (sample_info 7, False)] rs {}"
proof -
  let ?m = "\<lparr>namespace_tracer = tracer_new, thread_comm = Some sample_thread, process_comm = None\<rparr>"
  obtain rs s where run: "rasp_run sample_rasp [(sample_info 7, True), (sample_info 8, True), (sample_info 7, False)]
      \<lparr>rasp_manager = ?m, rasp_world = []\<rparr> = (rs, s)" by (meson surj_pair)
  have "RASPManager_init (ascii ''thread'') sample_thread = Inr ?m" by (simp add: RASPManager_init_def)
  from thread_comm_refines_set[OF this run] run show ?thesis by blast
qed

text \<open>C33: in server mode a server is killed under a process that still needs it, and the wrong process is
  killed. The second process of a namespace is not registered, so that the stop of the first one removes
  the server of both; and the signal goes to the process group 0, the one of the plugin itself, as the
  identity of the child is never stored.\<close>

theorem server_is_killed_too_early:
  assumes "server_inv s" "tracer_of s ns = None" "get_mnt_ns p = Inr ns" "get_mnt_ns q = Inr ns"
    and "start_comm S p s = (Inr (), s1)" "start_comm S q s1 = (Inr (), s2)" "stop_comm S p s2 = (r, s3)"
  shows "r = Inr () \<and> rasp_world s3 = kill_process S 0 (rasp_world s2) \<and>
    (\<exists>c. process_comm (rasp_manager s3) = Some c \<and> mnt_namesapce_server_map c ns = None) \<and> tracer_of s3 ns = None"
proof -
  have inv1: "server_inv s1" using server_inv_start[OF assms(1), of S p] assms(5) by simp
  then have inv2: "server_inv s2" using server_inv_start[of s1 S q] assms(6) by simp
  from assms(1) obtain c where c: "thread_comm (rasp_manager s) = None" "process_comm (rasp_manager s) = Some c"
    by (auto simp: server_inv_def)
  obtain n w where n: "nspid_of S (pi_pid p) (rasp_world s) = (Inr n, w)"
    using assms(3,5) by (cases "nspid_of S (pi_pid p) (rasp_world s)"; cases "fst (nspid_of S (pi_pid p) (rasp_world s))")
      (auto simp: start_comm_def rasp_defs)
  have "tracer_of s1 = tracer_register ns (pi_pid p) (tracer_of s)"
    using assms(2,5) start_comm_server[OF c assms(3) n]
    by (auto simp: server_state_def Let_def split: prod.splits bool.splits)
  then have t1: "tracer_of s1 ns = Some ([pi_pid p], True)"
    using assms(2) by (simp add: tracer_register_def tracer_add_def server_state_on_def)
  from inv1 obtain c1 where c1: "thread_comm (rasp_manager s1) = None" "process_comm (rasp_manager s1) = Some c1"
    by (auto simp: server_inv_def)
  obtain n1 w1 where n1: "nspid_of S (pi_pid q) (rasp_world s1) = (Inr n1, w1)"
    using assms(4,6) by (cases "nspid_of S (pi_pid q) (rasp_world s1)"; cases "fst (nspid_of S (pi_pid q) (rasp_world s1))")
      (auto simp: start_comm_def rasp_defs)
  have t2: "tracer_of s2 ns = Some ([pi_pid p], True)"
    using assms(6) start_comm_server[OF c1 assms(4) n1] t1 by (auto simp: server_state_def Let_def)
  then have off: "server_state_off ns (pi_pid p) (tracer_of s2) = (True, (tracer_of s2)(ns := None))"
    by (simp add: server_state_off_def)
  from inv2 obtain c2 where c2: "process_comm (rasp_manager s2) = Some c2"
      "dom (mnt_namesapce_server_map c2) = dom (tracer_of s2)"
      "\<forall>server \<in> ran (mnt_namesapce_server_map c2). child_id server = 0"
    by (auto simp: server_inv_def)
  have "ns \<in> dom (mnt_namesapce_server_map c2)" using c2(2) t2 by auto
  then obtain runner where runner: "mnt_namesapce_server_map c2 ns = Some runner" by blast
  then have "child_id runner = 0" using c2(3) by (meson ranI)
  then show ?thesis using assms(7) stop_comm_server[OF c2(1) assms(3), of S] off runner by auto
qed

theorem server_is_killed_too_early_witness:
  "\<exists>s1 s2 r s3. start_comm sample_rasp (sample_info 7) \<lparr>rasp_manager = sample_manager, rasp_world = []\<rparr> = (Inr (), s1) \<and>
    start_comm sample_rasp (sample_info 8) s1 = (Inr (), s2) \<and> stop_comm sample_rasp (sample_info 7) s2 = (r, s3) \<and>
    rasp_world s3 = kill_process sample_rasp 0 (rasp_world s2)"
proof -
  let ?s = "\<lparr>rasp_manager = sample_manager, rasp_world = []\<rparr> :: int list rasp"
  have ns: "get_mnt_ns (sample_info pid) = Inr (ascii ''m'')" for pid
    by (simp add: sample_info_def get_mnt_ns_def the_or_def)
  have inv: "server_inv ?s" by (simp add: server_inv_def sample_manager_def tracer_ok_new) (simp add: tracer_new_def)
  have read: "nspid_of sample_rasp pid w = (Inr None, w)" and spawn: "spawn_server sample_rasp pid w = (True, w)" for pid w
    by (simp_all add: sample_rasp_def)
  have started: "\<exists>s'. start_comm sample_rasp (sample_info pid) s = (Inr (), s')" if "server_inv s" for pid s
  proof -
    from that obtain c where c: "thread_comm (rasp_manager s) = None" "process_comm (rasp_manager s) = Some c"
      by (auto simp: server_inv_def)
    show ?thesis unfolding start_comm_server[OF c ns read] by (simp add: spawn Let_def split: option.splits bool.splits)
  qed
  obtain s1 where s1: "start_comm sample_rasp (sample_info 7) ?s = (Inr (), s1)" using started[OF inv] by blast
  then have "server_inv s1" using server_inv_start[OF inv, of sample_rasp "sample_info 7"] by simp
  then obtain s2 where s2: "start_comm sample_rasp (sample_info 8) s1 = (Inr (), s2)" using started by blast
  obtain r s3 where s3: "stop_comm sample_rasp (sample_info 7) s2 = (r, s3)" by (meson surj_pair)
  have "tracer_of ?s (ascii ''m'') = None" by (simp add: sample_manager_def tracer_new_def)
  from server_is_killed_too_early[OF inv this ns ns s1 s2 s3] s1 s2 s3 show ?thesis by blast
qed

end
