(* ===== verification/Rasp_Command.thy ===== *)
theory Rasp_Command
  imports Rust_Std
begin

section \<open>Running a command\<close>

text \<open>
  \<open>run_async_process\<close> of \<^verbatim>\<open>librasp/src/lib.rs\<close>. Two of its threads share the control: one polls the child until it has
  ended, the other kills the child when the control is still on at its 120th look. They and the child are a step
  relation; a look of the killer and the signal it sends are two steps, as are the end of the wait and the stop of the
  control. A poll that fails ends the wait without a result. The other two threads read the pipes line by line. Starting a thread is taken to succeed.
\<close>

subsection \<open>The result\<close>

text \<open>An exit status is the exit code, or \<open>None\<close> after a signal. A read of a line is \<open>None\<close> when it fails and empty at the end
  of the pipe. \<open>ch_wait\<close> is what the waiting thread returns, with \<open>None\<close> for a failed wait.\<close>

type_synonym ExitStatus = "int option"

definition success :: "ExitStatus \<Rightarrow> bool" where
  "success status \<longleftrightarrow> status = Some 0"

record child =
  ch_wait :: "ExitStatus option"
  ch_stdout :: "bytes option list"
  ch_stderr :: "bytes option list"

fun read_pipe :: "bytes option list \<Rightarrow> bytes" where
  "read_pipe [] = []"
| "read_pipe (None # _) = []"
| "read_pipe (Some line # reads) = (if line = [] then [] else line @ read_pipe reads)"

definition run_async_process :: "child option \<Rightarrow> (ExitStatus \<times> bytes \<times> bytes) res" where
  "run_async_process spawned =
     bind_res (the_or spawned (Message ''spawn command failed'')) (\<lambda>child.
     bind_res (the_or (ch_wait child) (Message ''wait failed'')) (\<lambda>status.
     Inr (status, read_pipe (ch_stdout child), read_pipe (ch_stderr child))))"

lemma run_async_process_ok:
  "run_async_process spawned = Inr (status, out, err) \<longleftrightarrow>
     (\<exists>c. spawned = Some c \<and> ch_wait c = Some status \<and> out = read_pipe (ch_stdout c) \<and> err = read_pipe (ch_stderr c))"
  by (auto simp: run_async_process_def the_or_def split: option.splits)

lemma run_async_process_no_panic: "run_async_process spawned \<noteq> Inl Panic"
  by (auto simp: run_async_process_def the_or_def split: option.splits)

text \<open>Everything that the child wrote is in the result, when no read fails.\<close>

lemma read_pipe_concat: "[] \<notin> set ls \<Longrightarrow> read_pipe (map Some ls) = concat ls"
  by (induction ls) auto

subsection \<open>The threads\<close>

text \<open>\<open>armed\<close> says that the killer has seen the control on at its last look and is about to send the signal. \<open>kills\<close> has an entry
  for each signal: whether the child was reaped already, so that its number may belong to another process.\<close>

record runner =
  child_status :: "ExitStatus option"
  reaped :: bool
  wait_result :: "ExitStatus option"
  wait_ended :: bool
  child_ctrl :: bool
  wait_count :: nat
  armed :: bool
  killer_ended :: bool
  kills :: "bool list"

definition MAX_WAIT :: nat where
  "MAX_WAIT = 120"

definition runner_start :: runner where
  "runner_start = \<lparr>child_status = None, reaped = False, wait_result = None, wait_ended = False, child_ctrl = True, wait_count = 0,
     armed = False, killer_ended = False, kills = []\<rparr>"

text \<open>A look of the killer, and its signal.\<close>

definition killer_look :: "runner \<Rightarrow> runner" where
  "killer_look r =
     (if \<not> child_ctrl r then r\<lparr>killer_ended := True\<rparr>
      else let n = wait_count r + 1 in
           if MAX_WAIT \<le> n then r\<lparr>wait_count := n, armed := True\<rparr> else r\<lparr>wait_count := n\<rparr>)"

definition kill_child :: "runner \<Rightarrow> runner" where
  "kill_child r = r\<lparr>kills := kills r @ [reaped r], armed := False, killer_ended := True,
     child_status := (case child_status r of None \<Rightarrow> Some None | s \<Rightarrow> s)\<rparr>"

inductive runner_step :: "runner \<Rightarrow> runner \<Rightarrow> bool" where
  child_ends: "child_status r = None \<Longrightarrow> runner_step r (r\<lparr>child_status := Some s\<rparr>)"
| try_wait: "child_status r = Some s \<Longrightarrow> \<not> wait_ended r \<Longrightarrow> runner_step r (r\<lparr>reaped := True\<rparr>)"
| wait_stops: "child_status r = Some s \<Longrightarrow> reaped r \<Longrightarrow> \<not> wait_ended r \<Longrightarrow>
    runner_step r (r\<lparr>child_ctrl := False, wait_ended := True, wait_result := Some s\<rparr>)"
| wait_fails: "\<not> reaped r \<Longrightarrow> \<not> wait_ended r \<Longrightarrow> runner_step r (r\<lparr>child_ctrl := False, wait_ended := True\<rparr>)"
| killer_looks: "\<not> armed r \<Longrightarrow> \<not> killer_ended r \<Longrightarrow> runner_step r (killer_look r)"
| killer_kills: "armed r \<Longrightarrow> runner_step r (kill_child r)"

abbreviation runner_reachable :: "runner \<Rightarrow> bool" where
  "runner_reachable \<equiv> runner_step\<^sup>*\<^sup>* runner_start"

definition runner_ok :: "runner \<Rightarrow> bool" where
  "runner_ok r \<longleftrightarrow>
     (wait_result r \<noteq> None \<longrightarrow> wait_result r = child_status r \<and> reaped r) \<and>
     (child_ctrl r \<longleftrightarrow> \<not> wait_ended r) \<and> (wait_result r \<noteq> None \<longrightarrow> wait_ended r) \<and>
     (armed r \<longrightarrow> kills r = [] \<and> \<not> killer_ended r) \<and>
     (kills r \<noteq> [] \<longrightarrow> killer_ended r) \<and> length (kills r) \<le> 1 \<and>
     (armed r \<or> kills r \<noteq> [] \<longrightarrow> wait_count r = MAX_WAIT) \<and>
     (\<not> armed r \<and> kills r = [] \<longrightarrow> wait_count r < MAX_WAIT)"

lemma runner_start_ok: "runner_ok runner_start"
  by (simp add: runner_ok_def runner_start_def MAX_WAIT_def)

lemma killer_look_ok: "runner_ok r \<Longrightarrow> \<not> armed r \<Longrightarrow> \<not> killer_ended r \<Longrightarrow> runner_ok (killer_look r)"
  unfolding runner_ok_def killer_look_def Let_def by (cases "child_ctrl r"; cases "MAX_WAIT \<le> wait_count r + 1") auto

lemma kill_child_ok: "runner_ok r \<Longrightarrow> armed r \<Longrightarrow> runner_ok (kill_child r)"
  unfolding runner_ok_def kill_child_def by (cases "child_status r") auto

lemma runner_step_ok: "runner_step r r' \<Longrightarrow> runner_ok r \<Longrightarrow> runner_ok r'"
proof (induction rule: runner_step.induct)
  case (killer_looks r) thus ?case by (simp add: killer_look_ok)
next
  case (killer_kills r) thus ?case by (simp add: kill_child_ok)
qed (auto simp: runner_ok_def)

interpretation running: step_invariant runner_step runner_ok
  by unfold_locales (rule runner_step_ok)

lemma runner_reachable_ok: "runner_reachable r \<Longrightarrow> runner_ok r"
  using running.reachable[of runner_start r] runner_start_ok by blast

text \<open>C16: whatever the order of the threads, a command that ends is answered with its own exit status, and it is killed at most
  once and not before the 120th look of the killer.\<close>

theorem command_result_is_its_status:
  assumes "runner_reachable r"
  shows "(wait_result r = Some s \<longrightarrow> child_status r = Some s) \<and> length (kills r) \<le> 1 \<and> (kills r \<noteq> [] \<longrightarrow> wait_count r = 120)"
  using runner_reachable_ok[OF assms] by (auto simp: runner_ok_def MAX_WAIT_def)

definition sample_runner :: runner where
  "sample_runner = runner_start\<lparr>child_status := Some (Some 3), reaped := True, child_ctrl := False, wait_ended := True,
     wait_result := Some (Some 3)\<rparr>"

lemma sample_runner_reachable: "runner_reachable sample_runner"
proof -
  let ?a = "runner_start\<lparr>child_status := Some (Some 3)\<rparr>" and ?b = "runner_start\<lparr>child_status := Some (Some 3), reaped := True\<rparr>"
  have "runner_step runner_start ?a" by (rule child_ends) (simp add: runner_start_def)
  moreover have "runner_step ?a ?b" using try_wait[of ?a "Some 3"] by (simp add: runner_start_def)
  moreover have "runner_step ?b sample_runner"
    using wait_stops[of ?b "Some 3"] by (simp add: runner_start_def sample_runner_def)
  ultimately show ?thesis by (meson converse_rtranclp_into_rtranclp rtranclp.rtrancl_refl)
qed

theorem command_result_is_its_status_witness:
  "runner_reachable sample_runner \<and> wait_result sample_runner = Some (Some 3) \<and> child_status sample_runner = Some (Some 3)"
  using command_result_is_its_status[OF sample_runner_reachable, of "Some 3"] sample_runner_reachable
  by (simp add: sample_runner_def)

text \<open>The killer looks on while the child runs.\<close>

lemma killer_waits: "n < MAX_WAIT \<Longrightarrow> runner_reachable (runner_start\<lparr>wait_count := n\<rparr>)"
proof (induction n)
  case 0 thus ?case by (simp add: runner_start_def)
next
  case (Suc n)
  let ?r = "runner_start\<lparr>wait_count := n\<rparr>"
  have "runner_step ?r (killer_look ?r)" by (rule killer_looks) (simp_all add: runner_start_def)
  moreover have "killer_look ?r = runner_start\<lparr>wait_count := Suc n\<rparr>"
    using Suc.prems by (simp add: killer_look_def runner_start_def)
  ultimately show ?case using Suc by (metis Suc_lessD rtranclp.rtrancl_into_rtrancl)
qed

text \<open>A child that ends between the last look of the killer and its signal can have been waited for already: the
  signal then goes to a process number that is free, and may be that of another process.\<close>

theorem kill_may_hit_another_process: "\<exists>r. runner_reachable r \<and> kills r = [True]"
proof -
  let ?n = "\<lambda>a. runner_start\<lparr>wait_count := a\<rparr>"
  let ?a = "runner_start\<lparr>wait_count := MAX_WAIT, armed := True\<rparr>"
  let ?b = "?a\<lparr>child_status := Some (Some 0)\<rparr>" and ?c = "?a\<lparr>child_status := Some (Some 0), reaped := True\<rparr>"
  have "runner_reachable (?n 119)" by (rule killer_waits) (simp add: MAX_WAIT_def)
  moreover have "runner_step (?n 119) ?a"
    using killer_looks[of "?n 119"] by (simp add: killer_look_def runner_start_def MAX_WAIT_def)
  moreover have "runner_step ?a ?b" by (rule child_ends) (simp add: runner_start_def)
  moreover have "runner_step ?b ?c" using try_wait[of ?b "Some 0"] by (simp add: runner_start_def)
  moreover have "runner_step ?c (kill_child ?c)" by (rule killer_kills) (simp add: runner_start_def)
  ultimately have "runner_reachable (kill_child ?c)" by (meson rtranclp.rtrancl_into_rtrancl)
  moreover have "kills (kill_child ?c) = [True]" by (simp add: kill_child_def runner_start_def)
  ultimately show ?thesis by blast
qed

end
