(* ===== verification/Rasp_Probes.thy ===== *)
theory Rasp_Probes
  imports Rasp_Manager Rasp_Command
begin

section \<open>Detecting runtimes and attaching probes\<close>

text \<open>
  What \<open>Rasp_Process\<close> and \<open>Rasp_Manager\<close> leave to parameters: \<^verbatim>\<open>settings.rs\<close>, \<^verbatim>\<open>jvm.rs\<close>, \<^verbatim>\<open>cpython.rs\<close>, \<^verbatim>\<open>golang.rs\<close>, \<^verbatim>\<open>nodejs.rs\<close> and \<^verbatim>\<open>php.rs\<close> of
  \<^verbatim>\<open>librasp/src\<close>, the file operations of \<^verbatim>\<open>manager.rs\<close>, \<open>mount\<close> of \<^verbatim>\<open>comm.rs\<close> and \<open>read_nspid\<close> of \<^verbatim>\<open>process.rs\<close>. \<open>with_probes\<close> and
  \<open>detectors_of\<close> fill the parameters with them. The system is the record \<open>probe_sys\<close> over a state \<open>'w\<close>: the programs that
  are run, procfs, the file system, the reader of ELF files and the regular expressions.
\<close>

subsection \<open>The system\<close>

text \<open>Of a mapping of a process only the path counts (\<open>None\<close> for a mapping without file); of a thread its name, \<open>None\<close> if it cannot
  be read; \<open>pv_nspid\<close> is the field of the status, \<open>None\<close> if the status cannot be read. A section name is \<open>None\<close> when its
  offset is outside the table and \<open>Some None\<close> when it is not a string; a symbol name is \<open>None\<close> when it cannot be indexed.
  The groups of a match are those of \<open>regex::Captures\<close>, the whole match first.\<close>

record proc_view =
  pv_maps :: "bytes option list option"
  pv_tasks :: "bytes option list option"
  pv_cmdline :: "bytes list option"
  pv_nspid :: "int list option option"

record elf_view =
  section_names :: "bytes option option list"
  dynsyms :: "bytes option list"
  syms :: "bytes option list"

record Output =
  out_status :: ExitStatus
  out_stdout :: bytes
  out_stderr :: bytes

text \<open>The regular expressions of the sources.\<close>

datatype pattern =
    SchedPid \<comment> \<open>\<^verbatim>\<open>\((\d+),\<close>\<close>
  | JdkVersion \<comment> \<open>\<^verbatim>\<open>JDK (\d+)\.\<close>\<close>
  | RaspProperty \<comment> \<open>\<^verbatim>\<open>rasp\.probe\<close>\<close>
  | LibPython \<comment> \<open>\<^verbatim>\<open>libpython(\d\.\d+)\.so\<close>\<close>
  | NodeVersion \<comment> \<open>\<^verbatim>\<open>v((\d+)\.(\d+)\.\d+)\<close>\<close>
  | PhpVersion \<comment> \<open>\<^verbatim>\<open>PHP ((\d\.\d+)\.\d+)(-| )\<close>\<close>
  | PhpZts \<comment> \<open>\<^verbatim>\<open>Configure Command.+zts\<close>\<close>
  | PhpLibrary \<comment> \<open>\<^verbatim>\<open>\b/php.+\.so\<close>\<close>
  | PhpConf \<comment> \<open>\<^verbatim>\<open>/.+php.+\.conf\<close>\<close>

record 'w probe_sys =
  cwd :: "'w \<Rightarrow> bytes option"
  run_output :: "bytes \<Rightarrow> bytes list \<Rightarrow> 'w \<Rightarrow> Output option \<times> 'w"
  run_child :: "bytes \<Rightarrow> bytes list \<Rightarrow> 'w \<Rightarrow> child option \<times> 'w"
  proc_of :: "int \<Rightarrow> 'w \<Rightarrow> proc_view option"
  process_of :: "int \<Rightarrow> 'w \<Rightarrow> Process option"
  captures :: "pattern \<Rightarrow> bytes \<Rightarrow> bytes option list option"
  file_exists :: "bytes \<Rightarrow> 'w \<Rightarrow> bool"
  file_size :: "bytes \<Rightarrow> 'w \<Rightarrow> nat option"
  parse_elf :: "bytes \<Rightarrow> 'w \<Rightarrow> elf_view option"
  read_link_of :: "bytes \<Rightarrow> 'w \<Rightarrow> bytes option"
  list_dir :: "bytes \<Rightarrow> 'w \<Rightarrow> bytes list option"
  first_line :: "bytes \<Rightarrow> 'w \<Rightarrow> bytes option"
  fs_copy_file :: "bytes \<Rightarrow> bytes \<Rightarrow> 'w \<Rightarrow> bool \<times> 'w"
  fs_copy_dir :: "bytes \<Rightarrow> bytes \<Rightarrow> 'w \<Rightarrow> bool \<times> 'w"
  fs_create_all :: "bytes \<Rightarrow> 'w \<Rightarrow> bool \<times> 'w"
  fs_write_all :: "bytes \<Rightarrow> bytes \<Rightarrow> 'w \<Rightarrow> bool \<times> 'w"
  fs_remove :: "bytes \<Rightarrow> 'w \<Rightarrow> bool \<times> 'w"
  send_signal :: "int \<Rightarrow> int \<Rightarrow> 'w \<Rightarrow> bool \<times> 'w"
  messages_json :: "ProbeMessage list \<Rightarrow> bytes option"

definition ask :: "('w \<Rightarrow> 'a res) \<Rightarrow> ('w, 'a) prog" where
  "ask f = (\<lambda>w. (f w, w))"

definition try_do :: "error \<Rightarrow> ('w \<Rightarrow> bool \<times> 'w) \<Rightarrow> ('w, unit) prog" where
  "try_do e f = (\<lambda>w. case f w of (ok, w) \<Rightarrow> (if ok then Inr () else Inl (Err e), w))"

definition logged_st :: "('w, 'a) prog \<Rightarrow> ('w, 'a option) prog" where
  "logged_st m = (\<lambda>w. case m w of (r, w) \<Rightarrow> (logged r, w))"

definition relabel :: "error \<Rightarrow> ('w, 'a) prog \<Rightarrow> ('w, 'a) prog" where
  "relabel e m = (\<lambda>w. case m w of (Inl (Err _), w) \<Rightarrow> (Inl (Err e), w) | r \<Rightarrow> r)"

fun for_each :: "('a \<Rightarrow> ('w, unit) prog) \<Rightarrow> 'a list \<Rightarrow> ('w, unit) prog" where
  "for_each f [] = return_st ()"
| "for_each f (x # xs) = bind_st (f x) (\<lambda>_. for_each f xs)"

definition run_command :: "'w probe_sys \<Rightarrow> bytes \<Rightarrow> bytes list \<Rightarrow> ('w, ExitStatus \<times> bytes \<times> bytes) prog" where
  "run_command P bin args = (\<lambda>w. case run_child P bin args w of (c, w) \<Rightarrow> (run_async_process c, w))"

definition command_output :: "'w probe_sys \<Rightarrow> bytes \<Rightarrow> bytes list \<Rightarrow> ('w, Output) prog" where
  "command_output P bin args = (\<lambda>w. case run_output P bin args w of (o', w) \<Rightarrow> (the_or o' IoError, w))"

subsection \<open>Strings\<close>

text \<open>\<open>String::from_utf8_lossy\<close>: an incomplete or invalid sequence, as far as it begins a valid one, becomes the replacement character.\<close>

definition utf8_width :: "byte \<Rightarrow> nat" where
  "utf8_width a = (if a < 0x80 then 1 else if 0xc2 \<le> a \<and> a \<le> 0xdf then 2 else if 0xe0 \<le> a \<and> a \<le> 0xef then 3
     else if 0xf0 \<le> a \<and> a \<le> 0xf4 then 4 else 0)"

definition second_ok :: "byte \<Rightarrow> byte \<Rightarrow> bool" where
  "second_ok a b \<longleftrightarrow> continuation b \<and> (a = 0xe0 \<longrightarrow> 0xa0 \<le> b) \<and> (a = 0xed \<longrightarrow> b \<le> 0x9f) \<and> (a = 0xf0 \<longrightarrow> 0x90 \<le> b) \<and> (a = 0xf4 \<longrightarrow> b \<le> 0x8f)"

definition utf8_run :: "byte \<Rightarrow> bytes \<Rightarrow> nat" where
  "utf8_run a bs = 1 + (case bs of [] \<Rightarrow> 0 | b # cs \<Rightarrow>
     if utf8_width a \<le> 1 \<or> \<not> second_ok a b then 0 else 1 + length (takeWhile continuation (take (utf8_width a - 2) cs)))"

function from_utf8_lossy :: "bytes \<Rightarrow> bytes" where
  "from_utf8_lossy [] = []"
| "from_utf8_lossy (a # bs) =
     (let n = utf8_run a bs in
      (if n = utf8_width a then take n (a # bs) else [0xef, 0xbf, 0xbd]) @ from_utf8_lossy (drop n (a # bs)))"
  by pat_completeness auto
termination by (relation "measure length") (auto simp: utf8_run_def)

lemma from_utf8_lossy_ascii: "(\<And>b. b \<in> set bs \<Longrightarrow> b < 0x80) \<Longrightarrow> from_utf8_lossy bs = bs"
proof (induction bs)
  case (Cons a bs)
  have "utf8_width a = 1" using Cons.prems[of a] by (simp add: utf8_width_def)
  hence "utf8_run a bs = 1" by (simp add: utf8_run_def split: list.splits)
  thus ?case using Cons \<open>utf8_width a = 1\<close> by (simp add: Let_def)
qed simp

text \<open>The text of a group of a match, empty when the group is missing.\<close>

definition group :: "bytes option list \<Rightarrow> nat \<Rightarrow> bytes" where
  "group c n = (if n < length c then case c ! n of None \<Rightarrow> [] | Some m \<Rightarrow> m else [])"

subsection \<open>Settings\<close>

definition RASP_VERSION :: bytes where
  "RASP_VERSION = ascii ''1.0.0.1''"

definition RASP_BASE_DIR :: "'w probe_sys \<Rightarrow> ('w, bytes) prog" where
  "RASP_BASE_DIR P = ask (\<lambda>w. unwrap_opt (Option.bind (cwd P w) from_utf8))"

definition below :: "('w, bytes) prog \<Rightarrow> string \<Rightarrow> ('w, bytes) prog" where
  "below dir name = bind_st dir (\<lambda>d. return_st (d @ ascii name))"

definition RASP_NS_ENTER_BIN :: "'w probe_sys \<Rightarrow> ('w, bytes) prog" where
  "RASP_NS_ENTER_BIN P = below (RASP_BASE_DIR P) ''/nsenter''"

definition RASP_MOUNT_SCRIPT_BIN :: "'w probe_sys \<Rightarrow> ('w, bytes) prog" where
  "RASP_MOUNT_SCRIPT_BIN P = below (RASP_BASE_DIR P) ''/mount_script''"

definition RASP_LIB_DIR :: "'w probe_sys \<Rightarrow> ('w, bytes) prog" where
  "RASP_LIB_DIR P = bind_st (RASP_BASE_DIR P) (\<lambda>d. return_st (d @ ascii ''/lib-'' @ RASP_VERSION))"

definition RASP_SERVER_BIN :: "'w probe_sys \<Rightarrow> ('w, bytes) prog" where
  "RASP_SERVER_BIN P = below (RASP_LIB_DIR P) ''/rasp_server''"

definition RASP_PANGOLIN :: "'w probe_sys \<Rightarrow> ('w, bytes) prog" where
  "RASP_PANGOLIN P = below (RASP_LIB_DIR P) ''/pangolin''"

definition RASP_GOLANG :: "'w probe_sys \<Rightarrow> ('w, bytes) prog" where
  "RASP_GOLANG P = below (RASP_LIB_DIR P) ''/golang/go_probe''"

definition RASP_PYTHON_LOADER :: "'w probe_sys \<Rightarrow> ('w, bytes) prog" where
  "RASP_PYTHON_LOADER P = below (RASP_LIB_DIR P) ''/python/python_loader''"

definition RASP_PYTHON_DIR :: "'w probe_sys \<Rightarrow> ('w, bytes) prog" where
  "RASP_PYTHON_DIR P = below (RASP_LIB_DIR P) ''/python/rasp''"

definition RASP_PYTHON_ENTRY :: "'w probe_sys \<Rightarrow> ('w, bytes) prog" where
  "RASP_PYTHON_ENTRY P = below (RASP_LIB_DIR P) ''/python/entry.py''"

definition RASP_JAVA_JATTACH_BIN :: "'w probe_sys \<Rightarrow> ('w, bytes) prog" where
  "RASP_JAVA_JATTACH_BIN P = below (RASP_LIB_DIR P) ''/java/jattach''"

definition RASP_JAVA_PROBE_BIN :: "'w probe_sys \<Rightarrow> ('w, bytes) prog" where
  "RASP_JAVA_PROBE_BIN P = below (RASP_LIB_DIR P) ''/java/SmithAgent.jar''"

definition RASP_NODEJS_DIR :: "'w probe_sys \<Rightarrow> ('w, bytes) prog" where
  "RASP_NODEJS_DIR P = below (RASP_LIB_DIR P) ''/node''"

definition RASP_NODEJS_INJECTOR :: "'w probe_sys \<Rightarrow> ('w, bytes) prog" where
  "RASP_NODEJS_INJECTOR P = below (RASP_NODEJS_DIR P) ''/injector.js''"

definition RASP_NODEJS_ENTRY :: "'w probe_sys \<Rightarrow> ('w, bytes) prog" where
  "RASP_NODEJS_ENTRY P = below (RASP_NODEJS_DIR P) ''/smith''"

definition php_supported :: "bytes \<Rightarrow> bytes \<Rightarrow> bool" where
  "php_supported major miner \<longleftrightarrow>
     (if major = ascii ''5'' then miner \<in> set (map ascii [''3'', ''4'', ''5'', ''6''])
      else if major = ascii ''7'' then miner \<in> set (map ascii [''0'', ''2'', ''3'', ''4''])
      else if major = ascii ''8'' then miner \<in> set (map ascii [''0'', ''1'']) else False)"

definition RASP_PHP_PROBE :: "'w probe_sys \<Rightarrow> bytes \<Rightarrow> bytes \<Rightarrow> bool \<Rightarrow> ('w, (bytes \<times> bytes) option) prog" where
  "RASP_PHP_PROBE P major miner zts =
     (if php_supported major miner
      then let name = ascii ''libphp_probe-'' @ major @ ascii ''.'' @ miner @ (if zts then ascii ''-zts.so'' else ascii ''.so'') in
           bind_st (RASP_LIB_DIR P) (\<lambda>lib. return_st (Some (lib @ ascii ''/php/'' @ name, name)))
      else return_st None)"

subsection \<open>Pids of a namespace\<close>

definition traverse_proc :: "'w probe_sys \<Rightarrow> int \<Rightarrow> 'w \<Rightarrow> int list res" where
  "traverse_proc P pid w =
     bind_res (the_or (list_dir P (ascii ''/proc/'' @ show_int pid @ ascii ''/root/proc'') w) IoError) (\<lambda>names.
     Inr (List.map_filter (\<lambda>name. parse_i32 (from_utf8_lossy name)) names))"

definition sched_get_host_pid :: "'w probe_sys \<Rightarrow> bytes \<Rightarrow> 'w \<Rightarrow> int res" where
  "sched_get_host_pid P path w =
     bind_res (the_or (first_line P path w) IoError) (\<lambda>line.
     bind_res (the_or (captures P SchedPid line) (Message ''can not find sched pid'')) (\<lambda>c.
     the_or (parse_i32 (group c 1)) ParseError))"

definition sched_path :: "int \<Rightarrow> int \<Rightarrow> bytes" where
  "sched_path pid p = ascii ''/proc/'' @ show_int pid @ ascii ''/root/proc/'' @ show_int p @ ascii ''/sched''"

fun sched_loop :: "'w probe_sys \<Rightarrow> int \<Rightarrow> 'w \<Rightarrow> int list \<Rightarrow> int option res" where
  "sched_loop P pid w [] = Inr None"
| "sched_loop P pid w (p # ps) =
     bind_res (logged (sched_get_host_pid P (sched_path pid p) w)) (\<lambda>sched_pid.
     if sched_pid = Some pid then Inr (Some p) else sched_loop P pid w ps)"

definition read_nspid :: "'w probe_sys \<Rightarrow> int \<Rightarrow> ('w, int option) prog" where
  "read_nspid P pid = ask (\<lambda>w.
     bind_res (the_or (read_link_of P (ascii ''/proc/self/ns/pid'') w) (Message ''can not read nspid'')) (\<lambda>current.
     bind_res (the_or (read_link_of P (ascii ''/proc/'' @ show_int pid @ ascii ''/ns/pid'') w) (Message ''can not read nspid'')) (\<lambda>target.
     if current = target then Inr (Some pid)
     else bind_res (the_or (proc_of P pid w) IoError) (\<lambda>process.
          bind_res (the_or (pv_nspid process) IoError) (\<lambda>nspid.
          case nspid of
            Some [_, n] \<Rightarrow> Inr (Some n)
          | _ \<Rightarrow> bind_res (traverse_proc P pid w) (sched_loop P pid w))))))"

subsection \<open>Files\<close>

definition create_dir_if_not_exist :: "'w probe_sys \<Rightarrow> bytes \<Rightarrow> bytes \<Rightarrow> ('w, unit) prog" where
  "create_dir_if_not_exist P dir dest_root =
     bind_st (ask (\<lambda>w. Inr (file_exists P (dest_root @ dir) w))) (\<lambda>there.
     if there then return_st () else try_do IoError (fs_create_all P (dest_root @ dir)))"

definition copy_file_from_to_dest :: "'w probe_sys \<Rightarrow> bytes \<Rightarrow> bytes \<Rightarrow> ('w, unit) prog" where
  "copy_file_from_to_dest P from dest_root =
     (let target = dest_root @ ascii ''/'' @ from in
      bind_st (ask (\<lambda>w. Inr (file_exists P target w))) (\<lambda>there.
      if there then return_st ()
      else bind_st (lift_res (unwrap_opt (path_parent from))) (\<lambda>dir.
           bind_st (create_dir_if_not_exist P dir dest_root) (\<lambda>_.
           try_do (Message ''copy failed'') (fs_copy_file P from target)))))"

definition copy_dir_from_to_dest :: "'w probe_sys \<Rightarrow> bytes \<Rightarrow> bytes \<Rightarrow> ('w, unit) prog" where
  "copy_dir_from_to_dest P from dest_root =
     bind_st (ask (\<lambda>w. Inr (file_exists P (dest_root @ from) w))) (\<lambda>there.
     if there then return_st ()
     else bind_st (lift_res (unwrap_opt (path_parent from))) (\<lambda>dir.
          bind_st (create_dir_if_not_exist P dir dest_root) (\<lambda>_.
          try_do (Message ''copy failed'') (fs_copy_dir P from (dest_root @ ascii ''/'' @ from)))))"

definition copy_to_dest :: "'w probe_sys \<Rightarrow> bytes \<Rightarrow> ('w, unit) prog" where
  "copy_to_dest P dest_root =
     bind_st (ask (\<lambda>w. the_or (cwd P w) IoError)) (\<lambda>cwd_path.
     bind_st (lift_res (unwrap_opt (from_utf8 cwd_path))) (\<lambda>cwd.
     bind_st (logged_st (try_do IoError (fs_create_all P (dest_root @ cwd)))) (\<lambda>_.
     try_do (Message ''copy failed'') (fs_copy_dir P (cwd @ ascii ''/lib'') (dest_root @ ascii ''/'' @ cwd @ ascii ''/'')))))"

definition root_dir :: "int \<Rightarrow> bytes" where
  "root_dir pid = ascii ''/proc/'' @ show_int pid @ ascii ''/root''"

definition copy_to_target_dir :: "'w probe_sys \<Rightarrow> tracer \<Rightarrow> int \<Rightarrow> bytes \<Rightarrow> ('w, unit) prog" where
  "copy_to_target_dir P t pid ns = (if server_state ns t = Some True then return_st () else copy_to_dest P (root_dir pid))"

definition clean_prev_lib :: "'w probe_sys \<Rightarrow> ('w, unit) prog" where
  "clean_prev_lib P =
     bind_st (ask (\<lambda>w. the_or (list_dir P (ascii ''./'') w) (Message ''Failed to read file''))) (\<lambda>names.
     for_each (\<lambda>name. let filename = from_utf8_lossy name in
       if contains filename (ascii ''lib-'') \<and> \<not> contains filename RASP_VERSION
       then try_do IoError (fs_remove P (ascii ''./'' @ filename)) else return_st ()) names)"

definition config_path :: "int \<Rightarrow> bytes" where
  "config_path nspid = ascii ''/var/run/elkeid_rasp/'' @ show_int nspid @ ascii ''.json''"

definition config_script :: "int \<Rightarrow> bytes \<Rightarrow> bytes" where
  "config_script nspid message =
     (let bak = config_path nspid @ ascii ''.bak'' in
      ascii ''mkdir -p /var/run/elkeid_rasp && echo '' @ [0x27] @ message @ [0x27] @ ascii '' > '' @ bak @
      ascii '' && mv '' @ bak @ ascii '' '' @ config_path nspid)"

definition write_message_to_config_file :: "'w probe_sys \<Rightarrow> int \<Rightarrow> int \<Rightarrow> bytes \<Rightarrow> ('w, unit) prog" where
  "write_message_to_config_file P pid nspid message =
     bind_st (RASP_NS_ENTER_BIN P) (\<lambda>nsenter.
     bind_st (run_command P nsenter
       [ascii ''-m'', ascii ''-t'', show_int pid, ascii ''sh'', ascii ''-c'', ascii ''PATH=/bin:/usr/bin:/sbin'', config_script nspid message]) (\<lambda>_.
     return_st ()))"

definition delete_config_file :: "'w probe_sys \<Rightarrow> int \<Rightarrow> int \<Rightarrow> ('w, unit) prog" where
  "delete_config_file P pid nspid =
     bind_st (ask (\<lambda>w. Inr (file_exists P (config_path nspid) w))) (\<lambda>there.
     if there
     then bind_st (RASP_NS_ENTER_BIN P) (\<lambda>nsenter.
          bind_st (run_command P nsenter
            [ascii ''-m'', ascii ''-t'', show_int pid, ascii ''sh'', ascii ''-c'', ascii ''rm '' @ config_path nspid]) (\<lambda>_.
          return_st ()))
     else return_st ())"

definition mount :: "'w probe_sys \<Rightarrow> int \<Rightarrow> bytes \<Rightarrow> bytes \<Rightarrow> ('w, unit) prog" where
  "mount P pid from to =
     bind_st (RASP_NS_ENTER_BIN P) (\<lambda>nsenter.
     bind_st (RASP_MOUNT_SCRIPT_BIN P) (\<lambda>script.
     bind_st (relabel (Message ''can not mount'') (run_command P script [show_int pid, from, to, nsenter])) (\<lambda>(status, _, _).
     if \<not> success status then lift_res (Inl (Err (Message ''mount script execute failed''))) else return_st ())))"

definition link_bind_path :: "'w probe_sys \<Rightarrow> int \<Rightarrow> bytes \<Rightarrow> bytes \<Rightarrow> ('w, unit) prog" where
  "link_bind_path P pid sock target =
     bind_st (RASP_NS_ENTER_BIN P) (\<lambda>nsenter.
     bind_st (relabel (Message ''link bind path failed'') (command_output P nsenter
       [ascii ''-t'', show_int pid, ascii ''-m'', ascii ''-i'', ascii ''-n'', ascii ''-p'', ascii ''/bin/ln'', ascii ''-sf'', sock, target])) (\<lambda>_.
     return_st ()))"

subsection \<open>Mapped files\<close>

text \<open>The three runtimes search the mappings of a process for a name.\<close>

definition process_maps :: "'w probe_sys \<Rightarrow> int \<Rightarrow> 'w \<Rightarrow> bytes option list res" where
  "process_maps P pid w = bind_res (the_or (proc_of P pid w) IoError) (\<lambda>process. the_or (pv_maps process) IoError)"

fun any_map :: "(bytes \<Rightarrow> bool) \<Rightarrow> bytes option list \<Rightarrow> bool" where
  "any_map p [] = False"
| "any_map p (None # ms) = any_map p ms"
| "any_map p (Some path # ms) =
     (case from_utf8 path of None \<Rightarrow> any_map p ms | Some s \<Rightarrow> if p s then True else any_map p ms)"

definition search_proc_map :: "'w probe_sys \<Rightarrow> string \<Rightarrow> int \<Rightarrow> 'w \<Rightarrow> bool res" where
  "search_proc_map P name pid w = bind_res (process_maps P pid w) (\<lambda>ms. Inr (any_map (\<lambda>s. contains s (ascii name)) ms))"

subsection \<open>Java\<close>

definition java_attach :: "'w probe_sys \<Rightarrow> int \<Rightarrow> ('w, bool) prog" where
  "java_attach P pid =
     bind_st (RASP_JAVA_JATTACH_BIN P) (\<lambda>jattach.
     bind_st (RASP_JAVA_PROBE_BIN P) (\<lambda>probe.
     bind_st (run_command P jattach [show_int pid, ascii ''load'', ascii ''instrument'', ascii ''false'', probe]) (\<lambda>_.
     return_st True)))"

definition jcmd :: "'w probe_sys \<Rightarrow> int \<Rightarrow> bytes \<Rightarrow> ('w, bytes) prog" where
  "jcmd P pid cmd =
     bind_st (RASP_JAVA_JATTACH_BIN P) (\<lambda>jattach.
     bind_st (command_output P jattach [show_int pid, ascii ''jcmd'', cmd]) (\<lambda>out. return_st (out_stdout out)))"

definition string_or_empty :: "bytes \<Rightarrow> bytes" where
  "string_or_empty b = (case from_utf8 b of None \<Rightarrow> [] | Some s \<Rightarrow> s)"

definition vm_version :: "'w probe_sys \<Rightarrow> int \<Rightarrow> ('w, int) prog" where
  "vm_version P pid =
     bind_st (jcmd P pid (ascii ''VM.version'')) (\<lambda>stdout.
     lift_res (bind_res (the_or (captures P JdkVersion (string_or_empty stdout)) (Message ''can not find version'')) (\<lambda>c.
     the_or (parse_i32 (group c 1)) ParseError)))"

definition jvm_prop :: "'w probe_sys \<Rightarrow> int \<Rightarrow> ('w, bool) prog" where
  "jvm_prop P pid =
     bind_st (jcmd P pid (ascii '' VM.system_properties'')) (\<lambda>stdout.
     return_st (captures P RaspProperty (from_utf8_lossy stdout) \<noteq> None))"

subsection \<open>Injection with pangolin\<close>

definition pangolin_result :: "string \<Rightarrow> ExitStatus \<Rightarrow> bool res" where
  "pangolin_result runtime status =
     (case status of
        None \<Rightarrow> Inl (Err (Message ''get status code failed''))
      | Some code \<Rightarrow>
          if code = 0 then Inr True
          else if code = 255 then Inl (Err (Message (runtime @ '' attach exit code 255'')))
          else Inl (Err (Message (runtime @ '' attach exit code''))))"

subsection \<open>Python\<close>

fun libpython_loop :: "'w probe_sys \<Rightarrow> bytes option list \<Rightarrow> bytes option" where
  "libpython_loop P [] = None"
| "libpython_loop P (None # ms) = libpython_loop P ms"
| "libpython_loop P (Some path # ms) =
     (case from_utf8 path of
        None \<Rightarrow> libpython_loop P ms
      | Some s \<Rightarrow>
          (case captures P LibPython s of
             Some (_ # Some version # _) \<Rightarrow> Some version
           | _ \<Rightarrow> libpython_loop P ms))"

definition libpython_inspect :: "'w probe_sys \<Rightarrow> ProcessInfo \<Rightarrow> 'w \<Rightarrow> bytes option res" where
  "libpython_inspect P p w = bind_res (process_maps P (pi_pid p) w) (\<lambda>ms. Inr (libpython_loop P ms))"

text \<open>A name that cannot be indexed panics.\<close>

fun has_symbol :: "bytes \<Rightarrow> bytes option list \<Rightarrow> bool res" where
  "has_symbol name [] = Inr False"
| "has_symbol name (None # _) = Inl Panic"
| "has_symbol name (Some s # ss) = (if s = name then Inr True else has_symbol name ss)"

definition BIN_LIMIT :: nat where
  "BIN_LIMIT = 500 * 1024 * 1024"

definition open_elf :: "'w probe_sys \<Rightarrow> bytes \<Rightarrow> 'w \<Rightarrow> elf_view res" where
  "open_elf P path w =
     bind_res (the_or (file_size P path w) IoError) (\<lambda>size.
     if BIN_LIMIT \<le> size then Inl (Err (Message ''bin file oversize'')) else the_or (parse_elf P path w) IoError)"

definition symbol_inspect :: "'w probe_sys \<Rightarrow> ProcessInfo \<Rightarrow> 'w \<Rightarrow> bytes option res" where
  "symbol_inspect P p w =
     bind_res (unwrap_opt (pi_exe_path p)) (\<lambda>exe_path.
     bind_res (open_elf P (container_path (pi_pid p) exe_path) w) (\<lambda>elf.
     bind_res (has_symbol (ascii ''PyRun_SimpleString'') (dynsyms elf)) (\<lambda>dynamic.
     if dynamic then Inr (Some (ascii ''Unknow''))
     else bind_res (has_symbol (ascii ''PyRun_SimpleString'') (syms elf)) (\<lambda>found.
          Inr (if found then Some (ascii ''Unknow'') else None)))))"

definition python_inspect :: "'w probe_sys \<Rightarrow> ProcessInfo \<Rightarrow> 'w \<Rightarrow> bytes option res" where
  "python_inspect P p w =
     bind_res (logged (libpython_inspect P p w)) (\<lambda>lib.
     case lib of
       Some (Some version) \<Rightarrow> Inr (Some version)
     | _ \<Rightarrow> bind_res (logged (symbol_inspect P p w)) (\<lambda>sym.
            Inr (case sym of Some (Some version) \<Rightarrow> Some version | _ \<Rightarrow> None)))"

definition python_entry :: "bytes \<Rightarrow> bytes" where
  "python_entry dir =
     concat (map (\<lambda>l. l @ [0x0a])
       [ascii ''import os'', ascii ''import sys'', [], ascii ''name = '' @ [0x27] @ ascii ''rasp'' @ [0x27],
        ascii ''path = '' @ [0x27] @ dir @ ascii ''/__init__.py'' @ [0x27], [],
        ascii ''if sys.version_info >= (3, 3):'',
        ascii ''    from importlib.machinery import SourceFileLoader'',
        ascii ''    SourceFileLoader(name, path).load_module()'',
        ascii ''elif sys.version_info >= (2, 7):'',
        ascii ''    import imp'',
        ascii ''    imp.load_module(name, None, os.path.dirname(path), ('' @ [0x27, 0x27] @ ascii '', '' @ [0x27, 0x27] @
          ascii '', imp.PKG_DIRECTORY))'', []])"

definition write_python_entry :: "'w probe_sys \<Rightarrow> int \<Rightarrow> ('w, unit) prog" where
  "write_python_entry P pid =
     bind_st (RASP_PYTHON_DIR P) (\<lambda>dir.
     bind_st (RASP_PYTHON_ENTRY P) (\<lambda>path.
     try_do IoError (fs_write_all P (root_dir pid @ path) (python_entry dir))))"

definition pangolin_inject_file :: "'w probe_sys \<Rightarrow> int \<Rightarrow> bytes \<Rightarrow> ('w, bool) prog" where
  "pangolin_inject_file P pid file_path =
     bind_st (RASP_PYTHON_LOADER P) (\<lambda>python_loader.
     bind_st (RASP_PANGOLIN P) (\<lambda>pangolin.
     bind_st (run_command P pangolin [show_int pid, ascii ''--'', python_loader, ascii ''--file'', file_path]) (\<lambda>(status, _, _).
     lift_res (pangolin_result ''python'' status))))"

definition python_attach :: "'w probe_sys \<Rightarrow> int \<Rightarrow> ('w, bool) prog" where
  "python_attach P pid =
     bind_st (write_python_entry P pid) (\<lambda>_.
     bind_st (RASP_PYTHON_ENTRY P) (\<lambda>entry. pangolin_inject_file P pid entry))"

subsection \<open>Go\<close>

definition search_thread :: "'w probe_sys \<Rightarrow> int \<Rightarrow> 'w \<Rightarrow> bool res" where
  "search_thread P pid w =
     bind_res (the_or (proc_of P pid w) IoError) (\<lambda>process.
     bind_res (the_or (pv_tasks process) IoError) (\<lambda>tasks.
     Inr (Some (ascii ''go-probe'') \<in> set tasks)))"

definition golang_inspect_process :: "'w probe_sys \<Rightarrow> int \<Rightarrow> 'w \<Rightarrow> bool res" where
  "golang_inspect_process P pid w =
     (if search_thread P pid w = Inr True then Inr True else search_proc_map P ''go_probe'' pid w)"

definition golang_attach :: "'w probe_sys \<Rightarrow> int \<Rightarrow> ('w, bool) prog" where
  "golang_attach P pid =
     bind_st (RASP_GOLANG P) (\<lambda>golang_probe.
     bind_st (RASP_PANGOLIN P) (\<lambda>pangolin.
     bind_st (run_command P pangolin [ascii ''--daemon'', ascii ''--deaf'', show_int pid, golang_probe]) (\<lambda>(status, _, _).
     lift_res (pangolin_result ''golang'' status))))"

fun has_section :: "bytes \<Rightarrow> bytes option option list \<Rightarrow> bool res" where
  "has_section name [] = Inr False"
| "has_section name (None # ss) = has_section name ss"
| "has_section name (Some None # _) = Inl Panic"
| "has_section name (Some (Some s) # ss) = (if s = name then Inr True else has_section name ss)"

definition golang_bin_inspect :: "'w probe_sys \<Rightarrow> bytes \<Rightarrow> 'w \<Rightarrow> bool res" where
  "golang_bin_inspect P bin_file w = bind_res (open_elf P bin_file w) (\<lambda>elf. has_section (ascii ''.gopclntab'') (section_names elf))"

subsection \<open>NodeJS\<close>

definition nodejs_module :: "bytes \<Rightarrow> bytes" where
  "nodejs_module smith_module_path =
     ascii ''setTimeout((inspector) => {inspector.close(); }, 500, require('' @ [0x27] @ ascii ''inspector'' @ [0x27] @
     ascii '')); if (!Object.keys(require.cache).some(m => m.includes('' @ [0x27] @ ascii ''smith.js'' @ [0x27] @
     ascii ''))) { require('' @ [0x27] @ smith_module_path @ [0x27] @ ascii '');}''"

definition nodejs_run :: "'w probe_sys \<Rightarrow> int \<Rightarrow> bytes \<Rightarrow> bytes \<Rightarrow> ('w, bool) prog" where
  "nodejs_run P pid node_path smith_module_path =
     bind_st (RASP_NS_ENTER_BIN P) (\<lambda>nsenter.
     bind_st (RASP_NODEJS_INJECTOR P) (\<lambda>inject_script_path.
     bind_st (read_nspid P pid) (\<lambda>nspid_option.
     let nspid = (case nspid_option of Some n \<Rightarrow> n | None \<Rightarrow> pid) in
     bind_st (command_output P nsenter
       [ascii ''-m'', ascii ''-n'', ascii ''-p'', ascii ''-t'', show_int pid, node_path, inject_script_path, show_int nspid,
        nodejs_module smith_module_path]) (\<lambda>out.
     if success (out_status out) then return_st True
     else lift_res (Inl (Err (case out_status out of
                               Some n \<Rightarrow> if n = 1 then Message [] else Message ''return code''
                             | None \<Rightarrow> Message ''no return code founded'')))))))"

definition nodejs_attach :: "'w probe_sys \<Rightarrow> int \<Rightarrow> bytes \<Rightarrow> ('w, bool) prog" where
  "nodejs_attach P pid node_path = bind_st (RASP_NODEJS_DIR P) (\<lambda>smith_module_path. nodejs_run P pid node_path smith_module_path)"

definition nodejs_version :: "'w probe_sys \<Rightarrow> int \<Rightarrow> bytes \<Rightarrow> ('w, nat \<times> nat \<times> bytes) prog" where
  "nodejs_version P pid nodejs_bin_path =
     bind_st (RASP_NS_ENTER_BIN P) (\<lambda>nsenter.
     bind_st (command_output P nsenter
       [ascii ''-m'', ascii ''-n'', ascii ''-p'', ascii ''-t'', show_int pid, nodejs_bin_path, ascii ''-v'']) (\<lambda>out.
     let output_string = string_or_empty (out_stdout out) in
     lift_res (if output_string = [] then Inl (Err (Message ''empty stdout''))
       else bind_res (the_or (captures P NodeVersion output_string) (Message ''can not find version'')) (\<lambda>c.
            bind_res (the_or (parse_u32 (group c 2)) ParseError) (\<lambda>major.
            bind_res (the_or (parse_u32 (group c 3)) ParseError) (\<lambda>minor.
            Inr (unat major, unat minor, group c 1)))))))"

subsection \<open>PHP\<close>

definition inspect_phpfpm :: "'w probe_sys \<Rightarrow> ProcessInfo \<Rightarrow> 'w \<Rightarrow> bool res" where
  "inspect_phpfpm P p w =
     bind_res (unwrap_opt (pi_exe_name p)) (\<lambda>exe.
     if starts_with exe (ascii ''php-fpm'')
     then bind_res (from_pid (process_of P (pi_ppid p) w) (pi_ppid p)) (\<lambda>ppi.
          bind_res (unwrap_opt (pi_exe_name ppi)) (\<lambda>parent.
          Inr (\<not> starts_with parent (ascii ''php-fpm''))))
     else Inr False)"

definition execute_phpfpm :: "'w probe_sys \<Rightarrow> string \<Rightarrow> bytes \<Rightarrow> int \<Rightarrow> bytes \<Rightarrow> ('w, bytes) prog" where
  "execute_phpfpm P what flag pid phpfpm =
     bind_st (RASP_NS_ENTER_BIN P) (\<lambda>nsenter.
     bind_st (run_command P nsenter [ascii ''-m'', ascii ''-p'', ascii ''-t'', show_int pid, phpfpm, flag]) (\<lambda>(status, out, _).
     if \<not> success status then lift_res (Inl (Err (Message (''can not fetch phpfpm '' @ what)))) else return_st out))"

definition inspect_phpfpm_version :: "'w probe_sys \<Rightarrow> ProcessInfo \<Rightarrow> ('w, bytes) prog" where
  "inspect_phpfpm_version P p =
     bind_st (lift_res (unwrap_opt (pi_exe_path p))) (\<lambda>exe_path.
     bind_st (execute_phpfpm P ''version'' (ascii ''-v'') (pi_pid p) exe_path) (\<lambda>out.
     lift_res (case captures P PhpVersion out of
                 Some caps \<Rightarrow> if length caps = 4 then unwrap_opt (caps ! 2) else Inl (Err (Message ''can not found php version''))
               | None \<Rightarrow> Inl (Err (Message ''can not found php version'')))))"

definition inspect_phpfpm_zts :: "'w probe_sys \<Rightarrow> ProcessInfo \<Rightarrow> ('w, bool) prog" where
  "inspect_phpfpm_zts P p =
     bind_st (lift_res (unwrap_opt (pi_exe_path p))) (\<lambda>exe_path.
     bind_st (execute_phpfpm P ''info'' (ascii ''-i'') (pi_pid p) exe_path) (\<lambda>out.
     return_st (captures P PhpZts out \<noteq> None)))"

definition check_probe :: "'w probe_sys \<Rightarrow> int \<Rightarrow> 'w \<Rightarrow> bool res" where
  "check_probe P pid w = bind_res (process_maps P pid w) (\<lambda>ms. Inr (any_map (\<lambda>s. contains s (ascii ''probe'')) ms))"

fun first_map :: "(bytes \<Rightarrow> bool) \<Rightarrow> bytes option list \<Rightarrow> bytes option" where
  "first_map p [] = None"
| "first_map p (None # ms) = first_map p ms"
| "first_map p (Some path # ms) =
     (case from_utf8 path of None \<Rightarrow> first_map p ms | Some s \<Rightarrow> if p s then Some s else first_map p ms)"

definition search_maps :: "'w probe_sys \<Rightarrow> proc_view \<Rightarrow> bytes option res" where
  "search_maps P process =
     bind_res (the_or (pv_maps process) IoError) (\<lambda>ms. Inr (first_map (\<lambda>s. captures P PhpLibrary s \<noteq> None) ms))"

fun argv_loop :: "'w probe_sys \<Rightarrow> bytes list \<Rightarrow> bytes option res" where
  "argv_loop P [] = Inr None"
| "argv_loop P (arg # args) =
     (case captures P PhpConf arg of
        None \<Rightarrow> argv_loop P args
      | Some caps \<Rightarrow>
          if 1 < length caps then argv_loop P args
          else (case caps of Some m # _ \<Rightarrow> Inr (Some m) | _ \<Rightarrow> Inl Panic))"

definition search_argv :: "'w probe_sys \<Rightarrow> proc_view \<Rightarrow> bytes option res" where
  "search_argv P process = bind_res (the_or (pv_cmdline process) IoError) (argv_loop P)"

definition locate_extension_dir :: "'w probe_sys \<Rightarrow> proc_view \<Rightarrow> bytes res" where
  "locate_extension_dir P process =
     bind_res (search_maps P process) (\<lambda>path.
     the_or (Option.bind path path_parent) (Message ''can not found extension dir''))"

definition confd_at :: "'w probe_sys \<Rightarrow> int \<Rightarrow> bytes \<Rightarrow> 'w \<Rightarrow> bytes option" where
  "confd_at P pid dir w =
     (let confd = path_join dir (ascii ''conf.d'') in if file_exists P (root_dir pid @ confd) w then Some confd else None)"

definition locate_confd_dir :: "'w probe_sys \<Rightarrow> int \<Rightarrow> proc_view \<Rightarrow> 'w \<Rightarrow> bytes res" where
  "locate_confd_dir P pid process w =
     bind_res (search_argv P process) (\<lambda>conf.
     the_or (case Option.bind conf path_parent of
               None \<Rightarrow> None
             | Some confp \<Rightarrow>
                 (case confd_at P pid confp w of
                    Some confd \<Rightarrow> Some confd
                  | None \<Rightarrow> Option.bind (path_parent confp) (\<lambda>confpp. confd_at P pid confpp w)))
       (Message ''can not found phpfpm confd dir''))"

definition copy_so_to_extension_dir :: "'w probe_sys \<Rightarrow> bytes \<Rightarrow> bytes \<Rightarrow> bytes \<Rightarrow> bytes \<Rightarrow> ('w, unit) prog" where
  "copy_so_to_extension_dir P dest_root extension_dir probe_path probe_name =
     (let target_path = dest_root @ ascii ''/'' @ extension_dir @ ascii ''/'' @ probe_name in
      bind_st (ask (\<lambda>w. Inr (file_exists P target_path w))) (\<lambda>there.
      if there then return_st () else try_do IoError (fs_copy_file P probe_path target_path)))"

definition write_conf_to_cond_dir :: "'w probe_sys \<Rightarrow> bytes \<Rightarrow> bytes \<Rightarrow> bytes \<Rightarrow> ('w, unit) prog" where
  "write_conf_to_cond_dir P dest_root confd_dir probe_path =
     bind_st (copy_file_from_to_dest P probe_path dest_root) (\<lambda>_.
     try_do IoError (fs_write_all P (dest_root @ ascii ''/'' @ confd_dir @ ascii ''/999-php_probe.ini'') (ascii ''extension='' @ probe_path)))"

definition SIGUSR2 :: int where
  "SIGUSR2 = 12"

definition reload_phpfpm :: "'w probe_sys \<Rightarrow> int \<Rightarrow> ('w, unit) prog" where
  "reload_phpfpm P pid = try_do (Message ''restart phpfpm failed'') (send_signal P pid SIGUSR2)"

definition php_probe :: "'w probe_sys \<Rightarrow> bytes \<Rightarrow> ('w, bytes \<times> bytes) prog" where
  "php_probe P version =
     (let splited = split_on 0x2e version in
      if length splited = 2 then bind_st (RASP_PHP_PROBE P (splited ! 0) (splited ! 1) False) (\<lambda>o'. lift_res (unwrap_opt o'))
      else if length splited = 3 then bind_st (RASP_PHP_PROBE P (splited ! 0) (splited ! 1) True) (\<lambda>o'. lift_res (unwrap_opt o'))
      else lift_res (Inl (Err (Message ''php version detect failed''))))"

definition php_attach :: "'w probe_sys \<Rightarrow> ProcessInfo \<Rightarrow> bytes \<Rightarrow> ('w, bool) prog" where
  "php_attach P p version =
     bind_st (ask (\<lambda>w. the_or (proc_of P (pi_pid p) w) IoError)) (\<lambda>process.
     bind_st (php_probe P version) (\<lambda>(probe_path, probe_name).
     bind_st (logged_st (ask (locate_confd_dir P (pi_pid p) process))) (\<lambda>confd.
     case confd of
       None \<Rightarrow> return_st False
     | Some path \<Rightarrow>
         bind_st (logged_st (write_conf_to_cond_dir P (root_dir (pi_pid p)) path probe_path)) (\<lambda>written.
         if written = None then return_st False
         else bind_st (reload_phpfpm P (pi_pid p)) (\<lambda>_. return_st True)))))"

subsection \<open>The probes as parameters of the manager\<close>

definition names :: "'w probe_sys \<Rightarrow> bytes \<Rightarrow> ('w, bytes list \<times> bytes list) prog" where
  "names P name =
     (if name = ascii ''JVM'' then bind_st (RASP_JAVA_JATTACH_BIN P) (\<lambda>a. bind_st (RASP_JAVA_PROBE_BIN P) (\<lambda>b. return_st ([a, b], [])))
      else if name = ascii ''CPython'' then bind_st (RASP_PYTHON_LOADER P) (\<lambda>a. bind_st (RASP_PYTHON_DIR P) (\<lambda>b. return_st ([a], [b])))
      else if name = ascii ''Golang'' then bind_st (RASP_GOLANG P) (\<lambda>a. return_st ([a], []))
      else bind_st (RASP_NODEJS_DIR P) (\<lambda>a. return_st ([], [a])))"

definition copy_probes :: "'w probe_sys \<Rightarrow> bytes \<Rightarrow> int \<Rightarrow> ('w, unit) prog" where
  "copy_probes P name pid =
     bind_st (names P name) (\<lambda>(files, dirs).
     bind_st (for_each (\<lambda>from. copy_file_from_to_dest P from (root_dir pid)) files) (\<lambda>_.
     for_each (\<lambda>from. copy_dir_from_to_dest P from (root_dir pid)) dirs))"

definition inspect_probe :: "'w probe_sys \<Rightarrow> bytes \<Rightarrow> ProcessInfo \<Rightarrow> ('w, bool) prog" where
  "inspect_probe P name p =
     (if name = ascii ''JVM'' then jvm_prop P (pi_pid p)
      else if name = ascii ''CPython'' then ask (search_proc_map P ''python_loader'' (pi_pid p))
      else if name = ascii ''Golang'' then ask (golang_inspect_process P (pi_pid p))
      else ask (check_probe P (pi_pid p)))"

definition attach_with :: "'w probe_sys \<Rightarrow> bytes \<Rightarrow> ProcessInfo \<Rightarrow> ('w, bool) prog" where
  "attach_with P name p =
     (if name = ascii ''JVM'' then java_attach P (pi_pid p)
      else if name = ascii ''CPython'' then python_attach P (pi_pid p)
      else if name = ascii ''Golang'' then golang_attach P (pi_pid p)
      else if name = ascii ''NodeJS'' then nodejs_attach P (pi_pid p) (case pi_exe_path p of Some path \<Rightarrow> path | None \<Rightarrow> [])
      else php_attach P p (case pi_runtime p of Some r \<Rightarrow> rt_version r | None \<Rightarrow> []))"

definition with_probes :: "'w probe_sys \<Rightarrow> 'w rasp_sys \<Rightarrow> 'w rasp_sys" where
  "with_probes P S = S\<lparr>nspid_of := read_nspid P, mount_dir := mount P, link_path := link_bind_path P,
     write_config := (\<lambda>pid nspid ms. bind_st (lift_res (the_or (messages_json P ms) ParseError))
       (write_message_to_config_file P pid nspid)),
     delete_config := delete_config_file P, probe_attached := inspect_probe P, copy_probe := copy_probes P,
     runtime_attach := attach_with P\<rparr>"

text \<open>The detection looks at the system as it is at one moment.\<close>

definition detectors_of :: "'w probe_sys \<Rightarrow> 'w \<Rightarrow> detectors" where
  "detectors_of P w = \<lparr>det_vm_version = (\<lambda>pid. bind_res (fst (vm_version P pid w)) (\<lambda>v. Inr (show_int v))),
     det_nodejs_version = (\<lambda>pid exe. fst (nodejs_version P pid exe w)),
     det_golang_bin_inspect = (\<lambda>path. golang_bin_inspect P path w),
     det_inspect_phpfpm = (\<lambda>p. inspect_phpfpm P p w),
     det_inspect_phpfpm_version = (\<lambda>p. fst (inspect_phpfpm_version P p w)),
     det_inspect_phpfpm_zts = (\<lambda>p. fst (inspect_phpfpm_zts P p w)),
     det_python_inspect = (\<lambda>p. python_inspect P p w)\<rparr>"

end
