(* ===== verification/Rasp_Attach.thy ===== *)
theory Rasp_Attach
  imports Rasp_Probes
begin

section \<open>What detection and attachment do\<close>

text \<open>
  Properties of \<open>Rasp_Probes\<close>: which exit codes count, which versions of PHP panic, where a configuration goes
  and that copying is idempotent. The rules \<open>calm_intros\<close> show that a program does not panic.
\<close>

subsection \<open>Evaluation\<close>

lemma bind_st_Inr: "m w = (Inr x, w') \<Longrightarrow> bind_st m f w = f x w'"
  by (simp add: bind_st_def)

lemma bind_st_Inl: "m w = (Inl e, w') \<Longrightarrow> bind_st m f w = (Inl e, w')"
  by (simp add: bind_st_def)

lemma bind_ask: "bind_st (ask (\<lambda>w. Inr (f w))) g w = g (f w) w"
  by (simp add: bind_st_def ask_def)

definition lib_of :: "bytes \<Rightarrow> bytes" where
  "lib_of d = d @ ascii ''/lib-'' @ RASP_VERSION"

definition base_at :: "'w probe_sys \<Rightarrow> bytes \<Rightarrow> 'w \<Rightarrow> bool" where
  "base_at P d w \<longleftrightarrow> cwd P w = Some d \<and> valid_utf8 d"

lemma RASP_BASE_DIR_at: "base_at P d w \<Longrightarrow> RASP_BASE_DIR P w = (Inr d, w)"
  by (simp add: base_at_def RASP_BASE_DIR_def ask_def unwrap_opt_def from_utf8_def)

lemma below_at: "dir w = (Inr d, w) \<Longrightarrow> below dir name w = (Inr (d @ ascii name), w)"
  by (simp add: below_def bind_st_Inr return_st_def)

lemma RASP_LIB_DIR_at: "base_at P d w \<Longrightarrow> RASP_LIB_DIR P w = (Inr (lib_of d), w)"
  by (simp add: RASP_LIB_DIR_def bind_st_Inr[of "RASP_BASE_DIR P", OF RASP_BASE_DIR_at] return_st_def lib_of_def)

lemma settings_at:
  assumes "base_at P d w"
  shows "RASP_NS_ENTER_BIN P w = (Inr (d @ ascii ''/nsenter''), w)"
    and "RASP_PANGOLIN P w = (Inr (lib_of d @ ascii ''/pangolin''), w)"
    and "RASP_GOLANG P w = (Inr (lib_of d @ ascii ''/golang/go_probe''), w)"
    and "RASP_PYTHON_LOADER P w = (Inr (lib_of d @ ascii ''/python/python_loader''), w)"
    and "RASP_PYTHON_DIR P w = (Inr (lib_of d @ ascii ''/python/rasp''), w)"
    and "RASP_JAVA_JATTACH_BIN P w = (Inr (lib_of d @ ascii ''/java/jattach''), w)"
    and "RASP_JAVA_PROBE_BIN P w = (Inr (lib_of d @ ascii ''/java/SmithAgent.jar''), w)"
    and "RASP_NODEJS_DIR P w = (Inr (lib_of d @ ascii ''/node''), w)"
  unfolding RASP_NS_ENTER_BIN_def RASP_PANGOLIN_def RASP_GOLANG_def RASP_PYTHON_LOADER_def RASP_PYTHON_DIR_def
    RASP_JAVA_JATTACH_BIN_def RASP_JAVA_PROBE_BIN_def RASP_NODEJS_DIR_def
  by (rule below_at, rule RASP_BASE_DIR_at RASP_LIB_DIR_at, rule assms)+

subsection \<open>Exit codes\<close>

lemma pangolin_result_True: "pangolin_result r status = Inr b \<longleftrightarrow> b \<and> success status"
  by (auto simp: pangolin_result_def success_def split: option.splits if_splits)

lemma run_command_result:
  "run_command P bin args w = (Inr (status, out, err), w') \<longleftrightarrow>
     (\<exists>c. run_child P bin args w = (Some c, w') \<and> ch_wait c = Some status \<and> out = read_pipe (ch_stdout c) \<and> err = read_pipe (ch_stderr c))"
  by (auto simp: run_command_def run_async_process_ok split: prod.splits)

lemma run_then_check:
  "bind_st (run_command P bin args) (\<lambda>(status, _, _). lift_res (pangolin_result r status)) w = (Inr b, w') \<longleftrightarrow>
     b \<and> (\<exists>c. run_child P bin args w = (Some c, w') \<and> ch_wait c = Some (Some 0))"
proof -
  have "bind_st (run_command P bin args) (\<lambda>(status, _, _). lift_res (pangolin_result r status)) w = (Inr b, w') \<longleftrightarrow>
      (\<exists>status out err. run_command P bin args w = (Inr (status, out, err), w') \<and> pangolin_result r status = Inr b)"
    by (auto simp: bind_st_def lift_res_def split: prod.splits sum.splits)
  thus ?thesis by (auto simp: run_command_result pangolin_result_True success_def)
qed

text \<open>C36: a Go process counts as attached exactly when the injector was run and ended with code 0. For a Java process the exit
  code is not looked at: it counts as attached whenever the injector could be waited for.\<close>

theorem attach_exit_codes:
  assumes "base_at P d w"
  shows "(golang_attach P pid w = (Inr True, w') \<longleftrightarrow>
      (\<exists>c. run_child P (lib_of d @ ascii ''/pangolin'')
            [ascii ''--daemon'', ascii ''--deaf'', show_int pid, lib_of d @ ascii ''/golang/go_probe''] w = (Some c, w') \<and>
           ch_wait c = Some (Some 0))) \<and>
    (java_attach P pid w = (Inr True, w') \<longleftrightarrow>
      (\<exists>c status. run_child P (lib_of d @ ascii ''/java/jattach'')
            [show_int pid, ascii ''load'', ascii ''instrument'', ascii ''false'', lib_of d @ ascii ''/java/SmithAgent.jar''] w = (Some c, w') \<and>
           ch_wait c = Some status))"
proof -
  note at = settings_at[OF assms]
  have go: "golang_attach P pid w = (Inr True, w') \<longleftrightarrow>
      (\<exists>c. run_child P (lib_of d @ ascii ''/pangolin'')
            [ascii ''--daemon'', ascii ''--deaf'', show_int pid, lib_of d @ ascii ''/golang/go_probe''] w = (Some c, w') \<and>
           ch_wait c = Some (Some 0))"
    unfolding golang_attach_def bind_st_Inr[of "RASP_GOLANG P", OF at(3)] bind_st_Inr[of "RASP_PANGOLIN P", OF at(2)] run_then_check by simp
  let ?run = "run_command P (lib_of d @ ascii ''/java/jattach'')
    [show_int pid, ascii ''load'', ascii ''instrument'', ascii ''false'', lib_of d @ ascii ''/java/SmithAgent.jar'']"
  have "java_attach P pid w = bind_st ?run (\<lambda>_. return_st True) w"
    unfolding java_attach_def bind_st_Inr[of "RASP_JAVA_JATTACH_BIN P", OF at(6)] bind_st_Inr[of "RASP_JAVA_PROBE_BIN P", OF at(7)] by simp
  hence "java_attach P pid w = (Inr True, w') \<longleftrightarrow> (\<exists>status out err. ?run w = (Inr (status, out, err), w'))"
    by (auto simp: bind_st_def return_st_def split: prod.splits sum.splits)
  thus ?thesis using go unfolding run_command_result by blast
qed

subsection \<open>Calls that do not panic\<close>

definition calm :: "('w, 'a) prog \<Rightarrow> bool" where
  "calm m \<longleftrightarrow> (\<forall>w. fst (m w) \<noteq> Inl Panic)"

named_theorems calm_intros \<open>programs that do not panic\<close>

lemma calm_bind [calm_intros]: "calm m \<Longrightarrow> (\<And>x. calm (f x)) \<Longrightarrow> calm (bind_st m f)"
  unfolding calm_def bind_st_def by (auto split: prod.splits sum.splits) (metis fst_conv)+

lemma calm_basic [calm_intros]:
  "calm (return_st x)" "calm (try_do e f)" "calm (lift_res (Inr x))" "calm (lift_res (Inl (Err e)))"
  by (auto simp: calm_def return_st_def try_do_def lift_res_def split: prod.splits)

lemma calm_ask [calm_intros]: "(\<And>w. f w \<noteq> Inl Panic) \<Longrightarrow> calm (ask f)"
  by (simp add: calm_def ask_def)

lemma calm_logged [calm_intros]: "calm m \<Longrightarrow> calm (logged_st m)"
  unfolding calm_def logged_st_def logged_def
  by (auto split: prod.splits sum.splits failure.splits) (metis fst_conv)

lemma calm_if [calm_intros]: "(b \<Longrightarrow> calm m) \<Longrightarrow> (\<not> b \<Longrightarrow> calm m') \<Longrightarrow> calm (if b then m else m')"
  by simp

lemma calm_option [calm_intros]: "calm m \<Longrightarrow> (\<And>x. calm (f x)) \<Longrightarrow> calm (case o' of None \<Rightarrow> m | Some x \<Rightarrow> f x)"
  by (cases o') auto

lemma the_or_calm: "the_or x e \<noteq> Inl Panic"
  by (simp add: the_or_def split: option.splits)

subsection \<open>PHP versions\<close>

lemma split_on_append_any: "split_on sep (xs @ sep # ys) = split_on sep xs @ split_on sep ys"
  by (induction xs) (auto split: list.splits)

lemma components_slash: "components (xs @ 0x2f # ys) = components xs @ components ys"
  by (simp add: components_def split_on_append_any)

lemma php_probe_parent: "path_parent (lib @ ascii ''/php/'' @ name) \<noteq> None"
proof -
  have "components (lib @ ascii ''/php/'' @ name) = components lib @ components (ascii ''php'') @ components name"
    using components_slash[of lib "ascii ''php'' @ 0x2f # name"] components_slash[of "ascii ''php''" name] by simp
  moreover have "components (ascii ''php'') = [ascii ''php'']" by code_simp
  ultimately show ?thesis by (simp add: path_parent_def Let_def del: ascii_Cons)
qed

lemma calm_copy_file: "path_parent from \<noteq> None \<Longrightarrow> calm (copy_file_from_to_dest P from dest)"
  unfolding copy_file_from_to_dest_def create_dir_if_not_exist_def Let_def unwrap_opt_def
  by (auto intro!: calm_intros)

lemma argv_loop_calm:
  assumes "\<And>pat s caps. captures P pat s = Some caps \<Longrightarrow> \<exists>m cs. caps = Some m # cs"
  shows "argv_loop P args \<noteq> Inl Panic"
proof (induction args)
  case (Cons arg args)
  show ?case
  proof (cases "captures P PhpConf arg")
    case (Some caps)
    then obtain m cs where "caps = Some m # cs" using assms by blast
    thus ?thesis using Some Cons by simp
  qed (use Cons in simp)
qed simp

lemma locate_confd_dir_calm:
  assumes "\<And>pat s caps. captures P pat s = Some caps \<Longrightarrow> \<exists>m cs. caps = Some m # cs"
  shows "locate_confd_dir P pid process w \<noteq> Inl Panic"
proof -
  have "search_argv P process \<noteq> Inl Panic"
    using argv_loop_calm[of P, OF assms] by (auto simp: search_argv_def bind_res_eq_Inl the_or_calm)
  thus ?thesis by (auto simp: locate_confd_dir_def bind_res_eq_Inl the_or_calm)
qed

lemma php_probe_at:
  assumes "base_at P d w" and "ps = split_on 0x2e version" and "length ps = 2 \<or> length ps = 3"
  shows "php_probe P version w =
    (if php_supported (ps ! 0) (ps ! 1)
     then let name = ascii ''libphp_probe-'' @ ps ! 0 @ ascii ''.'' @ ps ! 1 @ (if length ps = 3 then ascii ''-zts.so'' else ascii ''.so'')
          in (Inr (lib_of d @ ascii ''/php/'' @ name, name), w)
     else (Inl Panic, w))"
proof -
  have "RASP_PHP_PROBE P a b z w = (Inr (if php_supported a b
      then let name = ascii ''libphp_probe-'' @ a @ ascii ''.'' @ b @ (if z then ascii ''-zts.so'' else ascii ''.so'')
           in Some (lib_of d @ ascii ''/php/'' @ name, name) else None), w)" for a b z
    unfolding RASP_PHP_PROBE_def Let_def
    by (simp add: bind_st_Inr[of "RASP_LIB_DIR P", OF RASP_LIB_DIR_at[OF assms(1)]] return_st_def del: ascii_Cons)
  note probe = bind_st_Inr[of "RASP_PHP_PROBE P a b z" for a b z, OF this]
  show ?thesis
    using assms(3) unfolding php_probe_def assms(2)[symmetric] Let_def
    by (elim disjE) (simp_all add: probe lift_res_def unwrap_opt_def Let_def del: ascii_Cons)
qed

lemma php_attach_panics_iff:
  assumes "base_at P d w" and "proc_of P (pi_pid p) w = Some v"
    and "\<And>pat s caps. captures P pat s = Some caps \<Longrightarrow> \<exists>m cs. caps = Some m # cs"
  shows "fst (php_attach P p version w) = Inl Panic \<longleftrightarrow>
    length (split_on 0x2e version) \<in> {2, 3} \<and> \<not> php_supported (split_on 0x2e version ! 0) (split_on 0x2e version ! 1)"
proof -
  define rest where "rest = (\<lambda>(probe_path :: bytes, probe_name :: bytes).
     bind_st (logged_st (ask (locate_confd_dir P (pi_pid p) v))) (\<lambda>confd.
     case confd of
       None \<Rightarrow> return_st False
     | Some path \<Rightarrow>
         bind_st (logged_st (write_conf_to_cond_dir P (root_dir (pi_pid p)) path probe_path)) (\<lambda>written.
         if written = None then return_st False
         else bind_st (reload_phpfpm P (pi_pid p)) (\<lambda>_. return_st True))))"
  have calm: "calm (rest (lib @ ascii ''/php/'' @ name, n))" for lib name n
    unfolding rest_def write_conf_to_cond_dir_def reload_phpfpm_def prod.case
    by (intro calm_intros calm_copy_file php_probe_parent locate_confd_dir_calm assms(3))
  have attach: "php_attach P p version w = bind_st (php_probe P version) rest w"
  proof -
    have "ask (\<lambda>w. the_or (proc_of P (pi_pid p) w) IoError) w = (Inr v, w)" by (simp add: ask_def assms(2) the_or_def)
    thus ?thesis unfolding php_attach_def rest_def by (rule bind_st_Inr)
  qed
  show ?thesis
  proof (cases "length (split_on 0x2e version) \<in> {2, 3}")
    case True
    hence parts: "length (split_on 0x2e version) = 2 \<or> length (split_on 0x2e version) = 3" by simp
    note probe = php_probe_at[OF assms(1) refl parts]
    show ?thesis
    proof (cases "php_supported (split_on 0x2e version ! 0) (split_on 0x2e version ! 1)")
      case sup: True
      obtain name where "php_probe P version w = (Inr (lib_of d @ ascii ''/php/'' @ name, name), w)"
        using probe unfolding if_P[OF sup] Let_def by blast
      hence "php_attach P p version w = rest (lib_of d @ ascii ''/php/'' @ name, name) w"
        unfolding attach by (rule bind_st_Inr)
      thus ?thesis using calm sup unfolding calm_def by metis
    next
      case False
      have "php_probe P version w = (Inl Panic, w)" using probe unfolding if_not_P[OF False] .
      hence "php_attach P p version w = (Inl Panic, w)" unfolding attach by (rule bind_st_Inl)
      thus ?thesis using True False by simp
    qed
  next
    case False
    hence "php_probe P version w = (Inl (Err (Message ''php version detect failed'')), w)"
      by (auto simp: php_probe_def Let_def lift_res_def)
    thus ?thesis using False unfolding attach by (simp add: bind_st_Inl)
  qed
qed


text \<open>C17: attaching to a PHP process that has no probe yet panics exactly when its version has two or three parts and is not
  one of those for which there is a probe: PHP 7.1 and 8.2 are not. The match of a regular expression always has
  its first group.\<close>

theorem attach_php_panics_iff:
  assumes "base_at P d (rasp_world s)"
    and "\<And>pat t caps. captures P pat t = Some caps \<Longrightarrow> \<exists>m cs. caps = Some m # cs"
    and "proc_of P (pi_pid p) (rasp_world s) = Some v" "pv_maps v = Some ms" "\<not> any_map (\<lambda>t. contains t (ascii ''probe'')) ms"
    and "pi_runtime p = Some \<lparr>rt_name = ascii ''PHP'', rt_version = version\<rparr>"
    and "pi_environ p = Some env" "pi_namespace_info p = Some ns" "mnt ns = Some m"
    and "fst (read_nspid P (pi_pid p) (rasp_world s)) = Inr (Some n)" "\<not> file_exists P (config_path n) (rasp_world s)"
  shows "fst (attach (with_probes P S) p s) = Inl Panic \<longleftrightarrow>
    length (split_on 0x2e version) \<in> {2, 3} \<and> \<not> php_supported (split_on 0x2e version ! 0) (split_on 0x2e version ! 1)"
proof -
  let ?S = "with_probes P S"
  have php: "ascii ''PHP'' \<noteq> ascii ''JVM''" "ascii ''PHP'' \<noteq> ascii ''CPython''" "ascii ''PHP'' \<noteq> ascii ''Golang''" "ascii ''PHP'' \<noteq> ascii ''NodeJS''"
    by code_simp+
  have "sys_call (nspid_of ?S (pi_pid p)) s = (Inr (Some n), s)"
    using assms(10) by (simp add: sys_call_def with_probes_def read_nspid_def ask_def)
  note nspid = bind_st_Inr[of "sys_call (nspid_of ?S (pi_pid p))", OF this]
  have "sys_call (delete_config ?S (pi_pid p) n) s = (Inr (), s)"
    using assms(11) by (simp add: sys_call_def with_probes_def delete_config_file_def bind_ask return_st_def)
  note delete = bind_st_Inr[of "sys_call (delete_config ?S (pi_pid p) n)", OF this]
  have "sys_call (probe_attached ?S (ascii ''PHP'') p) s = (Inr False, s)"
    using assms(3-5) php by (simp add: sys_call_def with_probes_def inspect_probe_def check_probe_def process_maps_def ask_def the_or_def del: ascii_Cons)
  note probe = bind_st_Inr[of "sys_call (probe_attached ?S (ascii ''PHP'') p)", OF this]
  have run: "sys_call (runtime_attach ?S (ascii ''PHP'') p) s =
      (case php_attach P p version (rasp_world s) of (r, w) \<Rightarrow> (r, s\<lparr>rasp_world := w\<rparr>))"
    using php assms(6) by (simp add: sys_call_def with_probes_def attach_with_def del: ascii_Cons)
  have "attach ?S p s = bind_st (sys_call (runtime_attach ?S (ascii ''PHP'') p))
      (\<lambda>success. if success then return_st () else fail_st (Message ''attach failed'')) s"
    unfolding attach_def attach_runtime_def attach_probe_def
    using php assms(6-9) by (simp add: the_or_def unwrap_opt_def lift_res_def[of "Inr x" for x] bind_st_assoc nspid delete probe
      return_st_def[symmetric] del: ascii_Cons)
  hence "fst (attach ?S p s) = Inl Panic \<longleftrightarrow> fst (php_attach P p version (rasp_world s)) = Inl Panic"
    using run by (auto simp: bind_st_def return_st_def fail_st_def lift_res_def split: prod.splits sum.splits)
  thus ?thesis using php_attach_panics_iff[OF assms(1,3,2)] by simp
qed

subsection \<open>Sections that are no strings\<close>

lemma has_section_panics: "Some (Some name) \<notin> set pre \<Longrightarrow> has_section name (pre @ Some None # post) = Inl Panic"
  by (induction name pre rule: has_section.induct) auto

text \<open>C37: looking for the runtime of a process panics when its executable has a section whose name is not a string and no
  Go table before it: any user can end the inspection with such a file.\<close>

theorem bad_section_panics_inspection:
  assumes "pi_exe_name p = Some exe"
    and "\<not> match_exe JVM_FILTER exe" "\<not> match_exe CPYTHON_FILTER exe" "\<not> match_exe NODEJS_FILTER exe"
    and "pi_exe_path p = Some path"
    and "file_size P (container_path (pi_pid p) path) w = Some n" "n < BIN_LIMIT"
    and "parse_elf P (container_path (pi_pid p) path) w = Some elf"
    and "section_names elf = pre @ Some None # post" "Some (Some (ascii ''.gopclntab'')) \<notin> set pre"
  shows "inspect_from_process_info (detectors_of P w) p = Inl Panic"
proof -
  have "golang_bin_inspect P (container_path (pi_pid p) path) w = Inl Panic"
    unfolding golang_bin_inspect_def open_elf_def assms(6,8,9)
    using assms(7) has_section_panics[OF assms(10)] by (simp add: the_or_def assms(9) del: ascii_Cons)
  thus ?thesis
    unfolding inspect_from_process_info_def using assms(1-5) by (simp add: detectors_of_def logged_def)
qed

subsection \<open>Pids of another namespace\<close>

lemma sched_get_host_pid_calm: "sched_get_host_pid P path w \<noteq> Inl Panic"
  by (auto simp: sched_get_host_pid_def bind_res_eq_Inl the_or_calm)

lemma sched_loop_find:
  "sched_loop P pid w ps = Inr (List.find (\<lambda>p. sched_get_host_pid P (sched_path pid p) w = Inr pid) ps)"
proof (induction ps)
  case (Cons p ps)
  show ?case
    using Cons sched_get_host_pid_calm[of P "sched_path pid p" w]
    by (cases "sched_get_host_pid P (sched_path pid p) w") (auto simp: logged_def split: failure.splits)
qed simp

subsection \<open>The configuration file\<close>

text \<open>C38: the configuration for a probe is never written. The script is passed to the shell after the command string, where it
  is only the name of the command; the command string itself is an assignment. The premises are the
  documented behaviour of \<open>nsenter\<close> (it runs the given program) and of \<open>sh -c\<close>: a command string that is just an
  assignment of a plain word has no effect outside the shell, whatever arguments follow.\<close>

theorem config_is_not_written:
  fixes sh :: "bytes \<Rightarrow> bytes list \<Rightarrow> 'w \<Rightarrow> child option \<times> 'w"
  assumes "base_at P d w"
    and "\<And>pid string args w. run_child P (d @ ascii ''/nsenter'')
      ([ascii ''-m'', ascii ''-t'', show_int pid, ascii ''sh'', ascii ''-c'', string] @ args) w = sh string args w"
    and "\<And>name value args w. list_all (\<lambda>b. b \<in> set (ascii ''ABCDEFGHIJKLMNOPQRSTUVWXYZ'')) name \<Longrightarrow>
      list_all (\<lambda>b. b \<in> set (ascii ''abcdefghijklmnopqrstuvwxyz/:'')) value \<Longrightarrow> snd (sh (name @ ascii ''='' @ value) args w) = w"
  shows "snd (write_message_to_config_file P pid nspid message w) = w"
proof -
  have "run_child P (d @ ascii ''/nsenter'') [ascii ''-m'', ascii ''-t'', show_int pid, ascii ''sh'', ascii ''-c'',
      ascii ''PATH=/bin:/usr/bin:/sbin'', config_script nspid message] w
    = sh (ascii ''PATH=/bin:/usr/bin:/sbin'') [config_script nspid message] w"
    using assms(2)[of pid "ascii ''PATH=/bin:/usr/bin:/sbin''" "[config_script nspid message]" w] by (simp del: ascii_Cons)
  moreover have "snd (sh (ascii ''PATH'' @ ascii ''='' @ ascii ''/bin:/usr/bin:/sbin'') [config_script nspid message] w) = w"
    by (rule assms(3)) code_simp+
  ultimately have "snd (run_command P (d @ ascii ''/nsenter'') [ascii ''-m'', ascii ''-t'', show_int pid, ascii ''sh'', ascii ''-c'',
      ascii ''PATH=/bin:/usr/bin:/sbin'', config_script nspid message] w) = w"
    by (simp add: run_command_def case_prod_unfold)
  moreover have "snd (bind_st m (\<lambda>_. return_st ()) w) = snd (m w)" for m :: "('w, ExitStatus \<times> bytes \<times> bytes) prog"
    by (simp add: bind_st_def return_st_def split: prod.splits sum.splits)
  ultimately show ?thesis
    unfolding write_message_to_config_file_def bind_st_Inr[of "RASP_NS_ENTER_BIN P", OF settings_at(1)[OF assms(1)]] by simp
qed


subsection \<open>Copying\<close>

text \<open>What is needed of the file system: copying and creating keep files, a copy exists, and a slash may be doubled.\<close>

definition kept :: "'w probe_sys \<Rightarrow> 'w \<Rightarrow> 'w \<Rightarrow> bool" where
  "kept P w w' \<longleftrightarrow> cwd P w' = cwd P w \<and> (\<forall>q. file_exists P q w \<longrightarrow> file_exists P q w')"

definition fs_lawful :: "'w probe_sys \<Rightarrow> bool" where
  "fs_lawful P \<longleftrightarrow>
     (\<forall>a b w. kept P w (snd (fs_copy_file P a b w)) \<and> (fst (fs_copy_file P a b w) \<longrightarrow> file_exists P b (snd (fs_copy_file P a b w)))) \<and>
     (\<forall>a b w. kept P w (snd (fs_copy_dir P a b w)) \<and> (fst (fs_copy_dir P a b w) \<longrightarrow> file_exists P b (snd (fs_copy_dir P a b w)))) \<and>
     (\<forall>q w. kept P w (snd (fs_create_all P q w))) \<and>
     (\<forall>a b w. file_exists P (a @ 0x2f # 0x2f # b) w = file_exists P (a @ 0x2f # b) w)"

definition keeps_files :: "'w probe_sys \<Rightarrow> ('w, 'a) prog \<Rightarrow> bool" where
  "keeps_files P m \<longleftrightarrow> (\<forall>w. kept P w (snd (m w)))"

named_theorems keeps_intros \<open>programs that keep files\<close>

lemma kept_refl: "kept P w w"
  by (simp add: kept_def)

lemma kept_trans: "kept P w w1 \<Longrightarrow> kept P w1 w2 \<Longrightarrow> kept P w w2"
  by (simp add: kept_def)

lemma keeps_filesD: "keeps_files P m \<Longrightarrow> m w = (r, w') \<Longrightarrow> kept P w w'"
  by (metis keeps_files_def snd_conv)

lemma files_bind [keeps_intros]:
  assumes "keeps_files P m" "\<And>x. keeps_files P (f x)"
  shows "keeps_files P (bind_st m f)"
  unfolding keeps_files_def
proof
  fix w
  obtain r w1 where r: "m w = (r, w1)" by fastforce
  hence "kept P w w1" by (rule keeps_filesD[OF assms(1)])
  moreover have "kept P w1 (snd (f x w1))" for x using assms(2) by (simp add: keeps_files_def)
  ultimately show "kept P w (snd (bind_st m f w))"
    using r kept_trans[of P w w1] by (cases r) (simp_all add: bind_st_def)
qed

lemma files_basic [keeps_intros]: "keeps_files P (return_st x)" "keeps_files P (ask f)" "keeps_files P (lift_res r)"
  by (simp_all add: keeps_files_def return_st_def ask_def lift_res_def kept_refl)

lemma files_if [keeps_intros]: "keeps_files P m \<Longrightarrow> keeps_files P m' \<Longrightarrow> keeps_files P (if b then m else m')"
  by simp

lemma files_try [keeps_intros]: "(\<And>w. kept P w (snd (f w))) \<Longrightarrow> keeps_files P (try_do e f)"
  by (simp add: keeps_files_def try_do_def case_prod_unfold)

lemma try_do_ok: "try_do e f w = (Inr (), w') \<longleftrightarrow> f w = (True, w')"
  by (auto simp: try_do_def split: prod.splits if_splits)

lemma keeps_copies:
  assumes "fs_lawful P"
  shows "keeps_files P (copy_file_from_to_dest P from dest)" "keeps_files P (copy_dir_from_to_dest P from dest)"
  using assms unfolding copy_file_from_to_dest_def copy_dir_from_to_dest_def create_dir_if_not_exist_def Let_def fs_lawful_def
  by (intro keeps_intros; simp)+

lemma bind_try_done:
  "bind_st m (\<lambda>_. try_do e f) w = (Inr (), w') \<Longrightarrow> \<exists>w1. f w1 = (True, w')"
  by (auto simp: bind_st_def try_do_ok split: prod.splits sum.splits)

lemma bind_lift_cases: "bind_st (lift_res r) f w = (Inr x, w') \<Longrightarrow> \<exists>y. r = Inr y \<and> f y w = (Inr x, w')"
  by (cases r) (auto simp: bind_st_def lift_res_def)

lemma fs_lawful_copied:
  assumes "fs_lawful P"
  shows "fs_copy_file P a b w = (True, w') \<Longrightarrow> file_exists P b w'" "fs_copy_dir P a b w = (True, w') \<Longrightarrow> file_exists P b w'"
proof -
  have "fst (fs_copy_file P a b w) \<longrightarrow> file_exists P b (snd (fs_copy_file P a b w))"
    and "fst (fs_copy_dir P a b w) \<longrightarrow> file_exists P b (snd (fs_copy_dir P a b w))"
    using assms unfolding fs_lawful_def by blast+
  thus "fs_copy_file P a b w = (True, w') \<Longrightarrow> file_exists P b w'" "fs_copy_dir P a b w = (True, w') \<Longrightarrow> file_exists P b w'"
    by auto
qed

lemma copy_file_done:
  assumes "fs_lawful P" "copy_file_from_to_dest P from dest w = (Inr (), w')"
  shows "file_exists P (dest @ ascii ''/'' @ from) w'"
proof (cases "file_exists P (dest @ ascii ''/'' @ from) w")
  case True
  thus ?thesis using keeps_filesD[OF keeps_copies(1)[OF assms(1)] assms(2)] by (simp add: kept_def)
next
  case False
  hence "bind_st (lift_res (unwrap_opt (path_parent from))) (\<lambda>dir. bind_st (create_dir_if_not_exist P dir dest) (\<lambda>_.
      try_do (Message ''copy failed'') (fs_copy_file P from (dest @ ascii ''/'' @ from)))) w = (Inr (), w')"
    using assms(2) by (simp add: copy_file_from_to_dest_def Let_def bind_ask del: ascii_Cons)
  from bind_lift_cases[OF this] obtain dir where "bind_st (create_dir_if_not_exist P dir dest) (\<lambda>_.
      try_do (Message ''copy failed'') (fs_copy_file P from (dest @ ascii ''/'' @ from))) w = (Inr (), w')" by blast
  from bind_try_done[OF this] obtain w1 where copied: "fs_copy_file P from (dest @ ascii ''/'' @ from) w1 = (True, w')" by blast
  show ?thesis by (rule fs_lawful_copied(1)[OF assms(1) copied])
qed

lemma copy_file_skip: "file_exists P (dest @ ascii ''/'' @ from) w \<Longrightarrow> copy_file_from_to_dest P from dest w = (Inr (), w)"
  by (simp add: copy_file_from_to_dest_def Let_def bind_st_def ask_def return_st_def del: ascii_Cons)

lemma copy_dir_done:
  assumes "fs_lawful P" "copy_dir_from_to_dest P from dest w = (Inr (), w')" "from = 0x2f # r"
  shows "file_exists P (dest @ from) w'"
proof (cases "file_exists P (dest @ from) w")
  case True
  thus ?thesis using keeps_filesD[OF keeps_copies(2)[OF assms(1)] assms(2)] by (simp add: kept_def)
next
  case False
  hence "bind_st (lift_res (unwrap_opt (path_parent from))) (\<lambda>dir. bind_st (create_dir_if_not_exist P dir dest) (\<lambda>_.
      try_do (Message ''copy failed'') (fs_copy_dir P from (dest @ ascii ''/'' @ from)))) w = (Inr (), w')"
    using assms(2) by (simp add: copy_dir_from_to_dest_def bind_ask del: ascii_Cons)
  from bind_lift_cases[OF this] obtain dir where "bind_st (create_dir_if_not_exist P dir dest) (\<lambda>_.
      try_do (Message ''copy failed'') (fs_copy_dir P from (dest @ ascii ''/'' @ from))) w = (Inr (), w')" by blast
  from bind_try_done[OF this] obtain w1 where copied: "fs_copy_dir P from (dest @ ascii ''/'' @ from) w1 = (True, w')" by blast
  have "file_exists P (dest @ ascii ''/'' @ from) w'" by (rule fs_lawful_copied(2)[OF assms(1) copied])
  thus ?thesis using assms(1,3) by (simp add: fs_lawful_def)
qed

lemma copy_dir_skip: "file_exists P (dest @ from) w \<Longrightarrow> copy_dir_from_to_dest P from dest w = (Inr (), w)"
  by (simp add: copy_dir_from_to_dest_def bind_st_def ask_def return_st_def)

lemma keeps_for_each: "(\<And>x. keeps_files P (f x)) \<Longrightarrow> keeps_files P (for_each f xs)"
  by (induction xs) (auto intro: keeps_intros)

lemma for_each_done:
  assumes "\<And>x. keeps_files P (f x)" and "\<And>x w w'. x \<in> set xs \<Longrightarrow> f x w = (Inr (), w') \<Longrightarrow> file_exists P (target x) w'"
    and "for_each f xs w = (Inr (), w')" "x \<in> set xs"
  shows "file_exists P (target x) w'"
  using assms(2-4)
proof (induction xs arbitrary: w)
  case (Cons y ys)
  from Cons.prems(2) obtain w1 where y: "f y w = (Inr (), w1)" and ys: "for_each f ys w1 = (Inr (), w')"
    by (auto simp: bind_st_def split: prod.splits sum.splits)
  have "kept P w1 w'" by (rule keeps_filesD[OF keeps_for_each[OF assms(1)] ys])
  thus ?case using Cons.IH[OF _ ys] Cons.prems(1)[of y, OF _ y] Cons.prems(1,3) unfolding kept_def by auto
qed simp

lemma for_each_skip: "(\<And>x. x \<in> set xs \<Longrightarrow> f x w = (Inr (), w)) \<Longrightarrow> for_each f xs w = (Inr (), w)"
  by (induction xs) (auto simp: bind_st_Inr return_st_def)

lemma names_at:
  assumes "starts_with d (ascii ''/'')"
  shows "\<exists>files dirs. (\<forall>w. base_at P d w \<longrightarrow> names P name w = (Inr (files, dirs), w)) \<and> (\<forall>x \<in> set dirs. \<exists>r. x = 0x2f # r)"
proof -
  have root: "\<exists>r. lib_of d @ s = 0x2f # r" for s
    using assms by (cases d) (auto simp: lib_of_def starts_with_def)
  let ?files = "if name = ascii ''JVM'' then [lib_of d @ ascii ''/java/jattach'', lib_of d @ ascii ''/java/SmithAgent.jar'']
    else if name = ascii ''CPython'' then [lib_of d @ ascii ''/python/python_loader'']
    else if name = ascii ''Golang'' then [lib_of d @ ascii ''/golang/go_probe''] else []"
  let ?dirs = "if name = ascii ''JVM'' then [] else if name = ascii ''CPython'' then [lib_of d @ ascii ''/python/rasp'']
    else if name = ascii ''Golang'' then [] else [lib_of d @ ascii ''/node'']"
  have "names P name w = (Inr (?files, ?dirs), w)" if "base_at P d w" for w
    unfolding names_def bind_st_def[of "RASP_JAVA_JATTACH_BIN P"] bind_st_def[of "RASP_JAVA_PROBE_BIN P"] bind_st_def[of "RASP_PYTHON_LOADER P"]
      bind_st_def[of "RASP_PYTHON_DIR P"] bind_st_def[of "RASP_GOLANG P"] bind_st_def[of "RASP_NODEJS_DIR P"]
    by (simp add: settings_at[OF that] return_st_def del: ascii_Cons)
  thus ?thesis using root by (intro exI[of _ ?files] exI[of _ ?dirs]) auto
qed



subsection \<open>A host\<close>

text \<open>A host whose state is the list of its files. Pangolin ends with code 0, jattach with code 1, and a shell removes every file
  when its command string begins with \<open>rm\<close>.\<close>

fun squeeze :: "bytes \<Rightarrow> bytes" where
  "squeeze (a # b # cs) = (if a = 0x2f \<and> b = 0x2f then squeeze (b # cs) else a # squeeze (b # cs))"
| "squeeze cs = cs"

definition sample_child :: "ExitStatus \<Rightarrow> child" where
  "sample_child status = \<lparr>ch_wait = Some status, ch_stdout = [], ch_stderr = []\<rparr>"

definition sample_sh :: "bytes \<Rightarrow> bytes list \<Rightarrow> bytes list \<Rightarrow> child option \<times> bytes list" where
  "sample_sh string args w = (Some (sample_child (Some 0)), if starts_with string (ascii ''rm'') then [] else w)"

definition sample_probes :: "bytes list probe_sys" where
  "sample_probes = \<lparr>cwd = (\<lambda>w. Some (ascii ''/e'')), run_output = (\<lambda>b a w. (None, w)),
     run_child = (\<lambda>bin args w.
       if bin = ascii ''/e/nsenter'' then sample_sh (args ! 5) (drop 6 args) w
       else (Some (sample_child (if bin = lib_of (ascii ''/e'') @ ascii ''/pangolin'' then Some 0 else Some 1)), w)),
     proc_of = (\<lambda>pid w. Some \<lparr>pv_maps = Some [], pv_tasks = Some [], pv_cmdline = Some [], pv_nspid = Some (Some [7, 3, 1])\<rparr>),
     process_of = (\<lambda>pid w. None), captures = (\<lambda>pat s. Some [Some s, Some (ascii ''7'')]),
     file_exists = (\<lambda>q w. squeeze q \<in> set w), file_size = (\<lambda>q w. Some 1),
     parse_elf = (\<lambda>q w. Some \<lparr>section_names = [None, Some None], dynsyms = [], syms = []\<rparr>),
     read_link_of = (\<lambda>q w. Some q), list_dir = (\<lambda>q w. Some [ascii ''self'', ascii ''1'']), first_line = (\<lambda>q w. Some q),
     fs_copy_file = (\<lambda>a b w. (True, squeeze b # w)), fs_copy_dir = (\<lambda>a b w. (True, squeeze b # w)),
     fs_create_all = (\<lambda>q w. (True, squeeze q # w)), fs_write_all = (\<lambda>q c w. (True, squeeze q # w)),
     fs_remove = (\<lambda>q w. (True, remove1 q w)), send_signal = (\<lambda>p n w. (True, w)), messages_json = (\<lambda>ms. Some [])\<rparr>"

lemma sample_base: "base_at sample_probes (ascii ''/e'') w"
proof -
  have "valid_utf8 (ascii ''/e'')" by code_simp
  thus ?thesis by (simp add: base_at_def sample_probes_def)
qed

lemma squeeze_double: "squeeze (a @ 0x2f # 0x2f # b) = squeeze (a @ 0x2f # b)"
  by (induction a rule: squeeze.induct) simp_all

lemma sample_fs_lawful: "fs_lawful sample_probes"
  unfolding fs_lawful_def kept_def by (simp add: sample_probes_def squeeze_double)

theorem attach_exit_codes_witness:
  "base_at sample_probes (ascii ''/e'') [] \<and> golang_attach sample_probes 7 [] = (Inr True, []) \<and>
   java_attach sample_probes 7 [] = (Inr True, [])"
proof -
  have "lib_of (ascii ''/e'') @ ascii ''/pangolin'' \<noteq> ascii ''/e/nsenter''" "lib_of (ascii ''/e'') @ ascii ''/java/jattach'' \<noteq> ascii ''/e/nsenter''"
    by code_simp+
  thus ?thesis
    using attach_exit_codes[OF sample_base[of "[]"], of 7 "[]"] sample_base
    by (simp add: sample_probes_def sample_child_def del: ascii_Cons)
qed

definition sample_php :: ProcessInfo where
  "sample_php = (ProcessInfo_new 7)\<lparr>pi_runtime := Some \<lparr>rt_name = ascii ''PHP'', rt_version = ascii ''7.1''\<rparr>,
     pi_environ := Some Map.empty, pi_namespace_info := Some \<lparr>mnt = Some (ascii ''m'')\<rparr>\<rparr>"

definition sample_target :: ProcessInfo where
  "sample_target = (ProcessInfo_new 7)\<lparr>pi_exe_name := Some (ascii ''x''), pi_exe_path := Some (ascii ''/x'')\<rparr>"

theorem bad_section_panics_inspection_witness:
  "pi_exe_name sample_target = Some (ascii ''x'') \<and> inspect_from_process_info (detectors_of sample_probes []) sample_target = Inl Panic"
proof -
  have filters: "\<not> match_exe JVM_FILTER (ascii ''x'')" "\<not> match_exe CPYTHON_FILTER (ascii ''x'')" "\<not> match_exe NODEJS_FILTER (ascii ''x'')"
    by code_simp+
  have "inspect_from_process_info (detectors_of sample_probes []) sample_target = Inl Panic"
    by (rule bad_section_panics_inspection[OF _ filters, where path = "ascii ''/x''" and n = 1 and pre = "[None]" and post = "[]"
      and elf = "\<lparr>section_names = [None, Some None], dynsyms = [], syms = []\<rparr>"])
      (simp_all add: sample_target_def sample_probes_def BIN_LIMIT_def)
  thus ?thesis by (simp add: sample_target_def)
qed

lemma sample_sched:
  "traverse_proc sample_probes 7 [] = Inr [1]" "sched_get_host_pid sample_probes (sched_path 7 1) [] = Inr 7"
  "ascii ''/proc/self/ns/pid'' \<noteq> ascii ''/proc/'' @ show_int 7 @ ascii ''/ns/pid''"
proof -
  have shown: "ascii ''7'' = show_int 7" "ascii ''1'' = show_int 1" by code_simp+
  have numbers: "parse_i32 (ascii ''7'') = Some 7" "parse_i32 (ascii ''1'') = Some 1" "parse_i32 (ascii ''self'') = None"
    unfolding shown by (simp_all add: parse_show_int) (simp add: parse_i32_def parse_uint_def digit_val_def)
  have "from_utf8_lossy (ascii ''1'') = ascii ''1''" "from_utf8_lossy (ascii ''self'') = ascii ''self''"
    by (rule from_utf8_lossy_ascii; auto)+
  thus "traverse_proc sample_probes 7 [] = Inr [1]"
    by (simp add: traverse_proc_def sample_probes_def the_or_def List.map_filter_def numbers del: ascii_Cons)
  show "sched_get_host_pid sample_probes (sched_path 7 1) [] = Inr 7"
    by (simp add: sched_get_host_pid_def sample_probes_def the_or_def group_def numbers del: ascii_Cons)
  show "ascii ''/proc/self/ns/pid'' \<noteq> ascii ''/proc/'' @ show_int 7 @ ascii ''/ns/pid''" by code_simp
qed

lemma sample_nspid: "fst (read_nspid sample_probes 7 []) = Inr (Some 1)"
proof -
  have "read_link_of sample_probes q [] = Some q" "proc_of sample_probes 7 [] = Some
      \<lparr>pv_maps = Some [], pv_tasks = Some [], pv_cmdline = Some [], pv_nspid = Some (Some [7, 3, 1])\<rparr>" for q
    by (simp_all add: sample_probes_def)
  thus ?thesis
    using sample_sched by (simp add: read_nspid_def ask_def the_or_def sched_loop_find del: ascii_Cons)
qed

theorem config_is_not_written_witness:
  "base_at sample_probes (ascii ''/e'') [[1]] \<and> snd (write_message_to_config_file sample_probes 7 1 (ascii ''m'') [[1]]) = [[1]]"
proof -
  have upper: "b \<noteq> 0x72" if "b \<in> set (ascii ''ABCDEFGHIJKLMNOPQRSTUVWXYZ'')" for b using that by auto
  have "snd (write_message_to_config_file sample_probes 7 1 (ascii ''m'') [[1]]) = [[1]]"
  proof (rule config_is_not_written[where sh = sample_sh, OF sample_base])
    show "run_child sample_probes (ascii ''/e'' @ ascii ''/nsenter'')
      ([ascii ''-m'', ascii ''-t'', show_int pid, ascii ''sh'', ascii ''-c'', string] @ args) w = sample_sh string args w" for pid string args w
      by (simp add: sample_probes_def)
    show "snd (sample_sh (name @ ascii ''='' @ val) args w) = w"
      if "list_all (\<lambda>b. b \<in> set (ascii ''ABCDEFGHIJKLMNOPQRSTUVWXYZ'')) name" for name val args w
      using that upper by (cases name) (auto simp: sample_sh_def starts_with_def)
  qed
  thus ?thesis using sample_base by blast
qed



definition sample_rasp_files :: "bytes list rasp_sys" where
  "sample_rasp_files = \<lparr>nspid_of = (\<lambda>p w. (Inr None, w)), spawn_server = (\<lambda>p w. (True, w)), kill_process = (\<lambda>p w. w),
     mount_dir = (\<lambda>p a b w. (Inr (), w)), link_path = (\<lambda>p a b w. (Inr (), w)), thread_send = (\<lambda>p m w. (True, w)),
     server_send = (\<lambda>n m w. (True, w)), stop_control = id, parse_messages = (\<lambda>b. Some []), message_json = (\<lambda>m. Some []),
     write_config = (\<lambda>p n m w. (Inr (), w)), delete_config = (\<lambda>p n w. (Inr (), w)), probe_attached = (\<lambda>n p w. (Inr False, w)),
     copy_probe = (\<lambda>n p w. (Inr (), w)), runtime_attach = (\<lambda>n p w. (Inr True, w)), current_time = (\<lambda>w. (ascii ''0'', w))\<rparr>"

definition sample_rasp_start :: "bytes list rasp" where
  "sample_rasp_start = \<lparr>rasp_manager = \<lparr>namespace_tracer = tracer_new, thread_comm = None, process_comm = None\<rparr>, rasp_world = []\<rparr>"

theorem attach_php_panics_iff_witness:
  "pi_runtime sample_php = Some \<lparr>rt_name = ascii ''PHP'', rt_version = ascii ''7.1''\<rparr> \<and>
   fst (attach (with_probes sample_probes sample_rasp_files) sample_php sample_rasp_start) = Inl Panic"
proof -
  let ?v = "\<lparr>pv_maps = Some [], pv_tasks = Some [], pv_cmdline = Some [], pv_nspid = Some (Some [7, 3, 1])\<rparr>"
  have pid: "pi_pid sample_php = 7" by (simp add: sample_php_def ProcessInfo_new_def)
  have "length (split_on 0x2e (ascii ''7.1'')) \<in> {2, 3} \<and>
    \<not> php_supported (split_on 0x2e (ascii ''7.1'') ! 0) (split_on 0x2e (ascii ''7.1'') ! 1)" by code_simp
  moreover have "fst (attach (with_probes sample_probes sample_rasp_files) sample_php sample_rasp_start) = Inl Panic \<longleftrightarrow>
    length (split_on 0x2e (ascii ''7.1'')) \<in> {2, 3} \<and>
    \<not> php_supported (split_on 0x2e (ascii ''7.1'') ! 0) (split_on 0x2e (ascii ''7.1'') ! 1)"
    by (rule attach_php_panics_iff[OF sample_base, where n = 1 and v = ?v and ms = "[]" and ns = "\<lparr>mnt = Some (ascii ''m'')\<rparr>"])
      (auto simp: pid sample_rasp_start_def sample_nspid simp del: ascii_Cons, auto simp: sample_probes_def sample_php_def)
  ultimately show ?thesis by (simp add: sample_php_def del: ascii_Cons)
qed

end
