(* ===== verification/Rasp_Operation.thy ===== *)
theory Rasp_Operation
  imports Rasp_Manager
begin

section \<open>The operations of the RASP plugin\<close>

text \<open>
  \<open>Operator\<close> of \<^verbatim>\<open>src/rasp/plugin/src/operation.rs\<close>: what a command does to a process. A call with a mutable process
  takes the process and returns it, also when it fails. The two counters wrap, as in a build without
  overflow checks.
\<close>

subsection \<open>The operator\<close>

definition set_time :: "'w rasp_sys \<Rightarrow> (bytes \<Rightarrow> ProcessInfo \<Rightarrow> ProcessInfo) \<Rightarrow> ProcessInfo \<Rightarrow> ('w, ProcessInfo) rasp_prog" where
  "set_time S upd p = sys_call (\<lambda>w. case current_time S w of (t, w) \<Rightarrow> (Inr (upd t p), w))"

definition update_attach_start_time :: "bytes \<Rightarrow> ProcessInfo \<Rightarrow> ProcessInfo" where
  "update_attach_start_time t p = p\<lparr>pi_attach_start_time := Some t\<rparr>"

definition update_attach_end_time :: "bytes \<Rightarrow> ProcessInfo \<Rightarrow> ProcessInfo" where
  "update_attach_end_time t p = p\<lparr>pi_attach_end_time := Some t\<rparr>"

definition update_failed_time :: "bytes \<Rightarrow> ProcessInfo \<Rightarrow> ProcessInfo" where
  "update_failed_time t p = p\<lparr>pi_failed_time := Some t\<rparr>"

definition update_missing_time :: "bytes \<Rightarrow> ProcessInfo \<Rightarrow> ProcessInfo" where
  "update_missing_time t p = p\<lparr>pi_missing_time := Some t\<rparr>"

definition update_try_attach_count :: "ProcessInfo \<Rightarrow> ProcessInfo" where
  "update_try_attach_count p = p\<lparr>pi_try_attach_count := pi_try_attach_count p + 1\<rparr>"

definition update_attached_count :: "ProcessInfo \<Rightarrow> ProcessInfo" where
  "update_attached_count p = p\<lparr>pi_attached_count := pi_attached_count p + 1\<rparr>"

text \<open>A call on a mutable process: the result, the process and the state.\<close>

type_synonym 'w op = "'w rasp \<Rightarrow> unit res \<times> ProcessInfo \<times> 'w rasp"

definition with_process :: "ProcessInfo \<Rightarrow> ('w, unit) rasp_prog \<Rightarrow> 'w op" where
  "with_process p m s = (case m s of (r, s) \<Rightarrow> (r, p, s))"

definition attach_process :: "'w rasp_sys \<Rightarrow> ProcessInfo \<Rightarrow> 'w op" where
  "attach_process S p s =
     (case start_comm S p s of
        (Inl e, s) \<Rightarrow> (Inl e, p, s)
      | (Inr _, s) \<Rightarrow>
          if pi_runtime p = None then (Inl (Err (Message ''runtime not detected'')), p, s)
          else case set_time S update_attach_start_time (update_try_attach_count p) s of
            (Inl e, s) \<Rightarrow> (Inl e, p, s)
          | (Inr p, s) \<Rightarrow>
              (case attach S p s of
                 (Inr _, s) \<Rightarrow>
                   (case set_time S update_attach_end_time (update_attached_count p) s of
                      (Inl e, s) \<Rightarrow> (Inl e, p, s)
                    | (Inr p, s) \<Rightarrow> (Inr (), p, s))
               | (Inl Panic, s) \<Rightarrow> (Inl Panic, p, s)
               | (Inl (Err e), s) \<Rightarrow>
                   (case set_time S update_failed_time p s of
                      (Inl e, s) \<Rightarrow> (Inl e, p, s)
                    | (Inr p, s) \<Rightarrow>
                        (case stop_comm S p s of
                           (Inl e, s) \<Rightarrow> (Inl e, p, s)
                         | (Inr _, s) \<Rightarrow> (Inl (Err (Message ''attach failed'')), p, s)))))"

definition handle_missing :: "'w rasp_sys \<Rightarrow> ProcessInfo \<Rightarrow> 'w op" where
  "handle_missing S p s =
     (case pi_tracing_state p of
        None \<Rightarrow> (Inl (Err (Message ''empty state found during handle missing'')), p, s)
      | Some st \<Rightarrow>
          if TracingState_fmt st = ascii ''ATTACHED''
          then case set_time S update_missing_time p s of
                 (Inl e, s) \<Rightarrow> (Inl e, p, s)
               | (Inr p, s) \<Rightarrow> with_process p (stop_comm S p) s
          else with_process p (stop_comm S p) s)"

definition send_probe_message :: "'w rasp_sys \<Rightarrow> ProcessInfo \<Rightarrow> bytes \<Rightarrow> ('w, unit) rasp_prog" where
  "send_probe_message S p message =
     bind_st (lift_res (the_or (pi_namespace_info p) (Message ''unable fetch namespace''))) (\<lambda>ns.
     bind_st (lift_res (the_or (mnt ns) (Message ''unable fetch namespace''))) (\<lambda>mnt_namespace.
     send_message_to_probe S (pi_pid p) mnt_namespace message))"

definition Operator_op :: "'w rasp_sys \<Rightarrow> ProcessInfo \<Rightarrow> bytes \<Rightarrow> bytes \<Rightarrow> 'w op" where
  "Operator_op S p state probe_message s =
     (if state = ascii ''MISSING'' then handle_missing S p s
      else if state = ascii ''WAIT_ATTACH''
      then case pi_tracing_state p of
             None \<Rightarrow> (Inr (), p, s)
           | Some st \<Rightarrow>
               (case (if TracingState_fmt st = ascii ''ATTACHED'' then (Inr (), p, s) else attach_process S p s) of
                  (Inl e, p, s) \<Rightarrow> (Inl e, p, s)
                | (Inr _, p, s) \<Rightarrow>
                    if probe_message \<noteq> [] then
                      (case send_probe_message S p probe_message s of
                         (Inr _, s) \<Rightarrow> (Inr (), p, s)
                       | (Inl Panic, s) \<Rightarrow> (Inl Panic, p, s)
                       | (Inl (Err e), s) \<Rightarrow> (Inl (Err (Message ''send probe message failed'')), p, s))
                    else (Inr (), p, s))
      else (Inr (), p, s))"

subsection \<open>What an operation keeps\<close>

text \<open>Calls of the operating system leave the manager alone.\<close>

definition keeps_manager :: "('w, 'a) rasp_prog \<Rightarrow> bool" where
  "keeps_manager m \<longleftrightarrow> (\<forall>s. rasp_manager (snd (m s)) = rasp_manager s)"

lemma keeps_managerD: "keeps_manager m \<Longrightarrow> m s = (r, s') \<Longrightarrow> rasp_manager s' = rasp_manager s"
  unfolding keeps_manager_def by (metis snd_conv)

lemma keeps_bind:
  assumes "keeps_manager m" "\<And>x. keeps_manager (f x)"
  shows "keeps_manager (bind_st m f)"
  using assms unfolding keeps_manager_def bind_st_def
  by (auto simp: case_prod_beta split: sum.split)

lemma keeps_calls:
  "keeps_manager (sys_call f)" "keeps_manager (sys_check e c)" "keeps_manager (lift_res r)"
  "keeps_manager (return_st x)" "keeps_manager (fail_st e)" "keeps_manager get_manager"
  by (simp_all add: keeps_manager_def rasp_defs case_prod_beta)

lemma keeps_if: "keeps_manager m \<Longrightarrow> keeps_manager n \<Longrightarrow> keeps_manager (if b then m else n)"
  by simp

lemma keeps_option: "keeps_manager m \<Longrightarrow> (\<And>x. keeps_manager (f x)) \<Longrightarrow> keeps_manager (case y of None \<Rightarrow> m | Some x \<Rightarrow> f x)"
  by (cases y) simp_all

lemmas keeps = keeps_bind keeps_calls keeps_if keeps_option

lemma keeps_attach: "keeps_manager (attach S p)"
proof -
  have "keeps_manager (attach_runtime S name p)" for name
    unfolding attach_runtime_def attach_probe_def by (intro keeps)
  then show ?thesis unfolding attach_def by (intro keeps)
qed

lemma keeps_send_probe_message: "keeps_manager (send_probe_message S p message)"
proof -
  have send: "keeps_manager (send_to_comm S pid ns m)" for pid ns m
    unfolding send_to_comm_def case_prod_conv by (intro keeps)
  have "keeps_manager (send_valid S pid ns ms)" for pid ns ms
    by (induction ms) (auto intro!: keeps send)
  then show ?thesis
    unfolding send_probe_message_def send_message_to_probe_def Let_def by (intro keeps)
qed

lemma set_time_result:
  assumes "set_time S upd p s = (r, s')"
  obtains t where "r = Inr (upd t p)" "rasp_manager s' = rasp_manager s"
  using assms by (auto simp: set_time_def sys_call_def split: prod.splits)

text \<open>What stays of the process.\<close>

definition same_process :: "ProcessInfo \<Rightarrow> ProcessInfo \<Rightarrow> bool" where
  "same_process p q \<longleftrightarrow> pi_pid q = pi_pid p \<and> pi_runtime q = pi_runtime p \<and>
     pi_tracing_state q = pi_tracing_state p \<and> pi_namespace_info q = pi_namespace_info p"

lemma same_process_refl [simp]: "same_process p p"
  by (simp add: same_process_def)

lemma same_process_updates [simp]:
  "same_process p (update_attach_start_time t q) = same_process p q"
  "same_process p (update_attach_end_time t q) = same_process p q"
  "same_process p (update_failed_time t q) = same_process p q"
  "same_process p (update_missing_time t q) = same_process p q"
  "same_process p (update_try_attach_count q) = same_process p q"
  "same_process p (update_attached_count q) = same_process p q"
  by (simp_all add: same_process_def update_attach_start_time_def update_attach_end_time_def update_failed_time_def
      update_missing_time_def update_try_attach_count_def update_attached_count_def)

lemma same_process_mnt: "same_process p q \<Longrightarrow> get_mnt_ns q = get_mnt_ns p"
  by (simp add: same_process_def get_mnt_ns_def)

lemma attach_process_same: "attach_process S p s = (r, p', s') \<Longrightarrow> same_process p p'"
  by (auto simp: attach_process_def set_time_def sys_call_def with_process_def
      split: prod.splits sum.splits failure.splits if_splits)

lemma handle_missing_same: "handle_missing S p s = (r, p', s') \<Longrightarrow> same_process p p'"
  by (auto simp: handle_missing_def set_time_def sys_call_def with_process_def
      split: prod.splits sum.splits option.splits if_splits)

lemma Operator_op_same: "Operator_op S p state message s = (r, p', s') \<Longrightarrow> same_process p p'"
  unfolding Operator_op_def
  by (auto simp del: ascii_Cons dest: attach_process_same handle_missing_same
      split: prod.splits sum.splits failure.splits option.splits if_splits)

subsection \<open>Operations in thread mode\<close>

definition thread_mode :: "'w rasp \<Rightarrow> bool" where
  "thread_mode s \<longleftrightarrow> thread_comm (rasp_manager s) \<noteq> None \<and> process_comm (rasp_manager s) = None \<and> tracer_ok (tracer_of s)"

abbreviation served_of :: "'w rasp \<Rightarrow> (bytes \<times> int) set" where
  "served_of s \<equiv> served_pids (tracer_of s)"

lemma thread_mode_cong: "rasp_manager s' = rasp_manager s \<Longrightarrow> thread_mode s' = thread_mode s"
  by (simp add: thread_mode_def)

lemma start_thread:
  assumes "thread_mode s" "start_comm S p s = (r, s')"
  shows "thread_mode s' \<and> (case r of Inl _ \<Rightarrow> served_of s' = served_of s
    | Inr _ \<Rightarrow> \<exists>ns. get_mnt_ns p = Inr ns \<and> served_of s' = insert (ns, pi_pid p) (served_of s))"
proof -
  obtain comm where "thread_comm (rasp_manager s) = Some comm" using assms(1) by (auto simp: thread_mode_def)
  from start_comm_thread[OF this assms(2)] show ?thesis
    using assms(1) registry.add_ok registry.add_served by (cases r) (auto simp: thread_mode_def)
qed

lemma stop_thread:
  assumes "thread_mode s" "stop_comm S p s = (r, s')"
  shows "thread_mode s' \<and> (case r of Inl _ \<Rightarrow> served_of s' = served_of s
    | Inr _ \<Rightarrow> \<exists>ns. get_mnt_ns p = Inr ns \<and> served_of s' = served_of s - {(ns, pi_pid p)})"
proof -
  have "process_comm (rasp_manager s) = None" using assms(1) by (simp add: thread_mode_def)
  from stop_comm_thread[OF this assms(2)] show ?thesis
    using assms(1) registry.off_ok registry.off_served by (cases r) (auto simp: thread_mode_def)
qed

text \<open>The processes other than one.\<close>

definition others_served :: "int \<Rightarrow> 'w rasp \<Rightarrow> 'w rasp \<Rightarrow> bool" where
  "others_served pid s s' \<longleftrightarrow> (\<forall>ns q. q \<noteq> pid \<longrightarrow> (ns, q) \<in> served_of s' \<longleftrightarrow> (ns, q) \<in> served_of s)"

lemma attach_process_thread:
  assumes "thread_mode s" "attach_process S p s = (r, p', s')"
  shows "thread_mode s' \<and> others_served (pi_pid p) s s' \<and>
    (r = Inr () \<longrightarrow> (\<exists>ns. get_mnt_ns p = Inr ns \<and> (ns, pi_pid p) \<in> served_of s'))"
proof -
  obtain r1 s1 where s1: "start_comm S p s = (r1, s1)" by (meson surj_pair)
  note start = start_thread[OF assms(1) s1]
  show ?thesis
  proof (cases "\<exists>u. r1 = Inr u \<and> pi_runtime p \<noteq> None")
    case False
    then have "s' = s1 \<and> r \<noteq> Inr ()" using assms(2) s1 by (auto simp: attach_process_def split: sum.splits)
    then show ?thesis using start by (cases r1) (auto simp: others_served_def)
  next
    case True
    then obtain ns where ns: "get_mnt_ns p = Inr ns" "served_of s1 = insert (ns, pi_pid p) (served_of s)" "thread_mode s1"
      using start by auto
    obtain r2 s2 where s2: "set_time S update_attach_start_time (update_try_attach_count p) s1 = (r2, s2)" by (meson surj_pair)
    then obtain t where r2: "r2 = Inr (update_attach_start_time t (update_try_attach_count p))" "rasp_manager s2 = rasp_manager s1"
      by (rule set_time_result)
    let ?q = "update_attach_start_time t (update_try_attach_count p)"
    obtain r3 s3 where s3: "attach S ?q s2 = (r3, s3)" by (meson surj_pair)
    then have m3: "rasp_manager s3 = rasp_manager s1" using keeps_managerD[OF keeps_attach] r2(2) by metis
    have q: "same_process p ?q" by simp
    show ?thesis
    proof (cases "\<exists>e. r3 = Inl (Err e)")
      case False
      then have "rasp_manager s' = rasp_manager s3"
        using assms(2) True s1 s2 r2(1) s3
        by (auto simp: attach_process_def elim!: set_time_result split: prod.splits sum.splits failure.splits)
      then show ?thesis using ns m3 by (auto simp: others_served_def thread_mode_cong[of s' s1])
    next
      case err: True
      obtain r4 s4 where s4: "set_time S update_failed_time ?q s3 = (r4, s4)" by (meson surj_pair)
      then obtain t4 where r4: "r4 = Inr (update_failed_time t4 ?q)" "rasp_manager s4 = rasp_manager s3"
        by (rule set_time_result)
      obtain r5 where s5: "stop_comm S (update_failed_time t4 ?q) s4 = (r5, s')" "r \<noteq> Inr ()"
        using assms(2) True s1 s2 r2(1) s3 err s4 r4(1)
        by (auto simp: attach_process_def split: prod.splits sum.splits)
      have "thread_mode s4" "served_of s4 = served_of s1" using ns(3) m3 r4(2) by (simp_all add: thread_mode_def)
      from stop_thread[OF this(1) s5(1)] this(2) ns s5(2) q show ?thesis
        by (cases r5) (auto simp: others_served_def same_process_def update_failed_time_def)
    qed
  qed
qed

lemma handle_missing_stops:
  assumes "handle_missing S p s = (r, p', s')" "pi_tracing_state p = Some st"
  obtains s1 where "rasp_manager s1 = rasp_manager s" "stop_comm S p' s1 = (r, s')"
  using assms
  by (auto simp del: ascii_Cons simp: handle_missing_def with_process_def elim!: set_time_result split: prod.splits sum.splits if_splits)

lemma handle_missing_thread:
  assumes "thread_mode s" "handle_missing S p s = (r, p', s')"
  shows "thread_mode s' \<and> others_served (pi_pid p) s s' \<and> (r \<noteq> Inr () \<longrightarrow> served_of s' = served_of s)"
proof (cases "pi_tracing_state p")
  case None
  then show ?thesis using assms by (auto simp: handle_missing_def others_served_def)
next
  case (Some st)
  have "same_process p p'" using handle_missing_same[OF assms(2)] .
  moreover obtain s1 where "rasp_manager s1 = rasp_manager s" "stop_comm S p' s1 = (r, s')"
    using handle_missing_stops[OF assms(2) Some] .
  ultimately have q: "same_process p p'" "rasp_manager s1 = rasp_manager s" "stop_comm S p' s1 = (r, s')" by simp_all
  then have "thread_mode s1" using assms(1) thread_mode_cong by blast
  from stop_thread[OF this q(3)] q(1,2) show ?thesis
    by (cases r) (auto simp: others_served_def same_process_def)
qed

lemma fmt_attached: "TracingState_fmt st = ascii ''ATTACHED'' \<longleftrightarrow> st = ATTACHED"
  by (cases st) simp_all

lemma wait_is_not_missing: "ascii ''WAIT_ATTACH'' \<noteq> ascii ''MISSING''"
  by simp

lemma op_wait:
  assumes "Operator_op S p (ascii ''WAIT_ATTACH'') message s = (r, p', s')" "pi_tracing_state p = Some st"
  obtains r1 q s1 where "(if st = ATTACHED then (Inr (), p, s) else attach_process S p s) = (r1, q, s1)"
    "rasp_manager s' = rasp_manager s1" "r = Inr () \<Longrightarrow> r1 = Inr ()"
proof -
  obtain r1 q s1 where 1: "(if st = ATTACHED then (Inr (), p, s) else attach_process S p s) = (r1, q, s1)"
    by (metis surj_pair)
  obtain r2 s2 where 2: "send_probe_message S q message s1 = (r2, s2)" by (meson surj_pair)
  then have "rasp_manager s2 = rasp_manager s1" by (rule keeps_managerD[OF keeps_send_probe_message])
  moreover have "(s' = s1 \<or> s' = s2) \<and> (r = Inr () \<longrightarrow> r1 = Inr ())"
    using assms 1 2 unfolding Operator_op_def fmt_attached
    by (auto simp: wait_is_not_missing simp del: ascii_Cons split: sum.splits failure.splits if_splits)
  ultimately show ?thesis using that[OF 1] by auto
qed

lemma Operator_op_thread:
  assumes "thread_mode s" "Operator_op S p state message s = (r, p', s')"
  shows "thread_mode s' \<and> others_served (pi_pid p) s s' \<and>
    (state = ascii ''MISSING'' \<and> r \<noteq> Inr () \<longrightarrow> served_of s' = served_of s) \<and>
    (state \<noteq> ascii ''MISSING'' \<and> pi_tracing_state p = Some ATTACHED \<longrightarrow> served_of s' = served_of s) \<and>
    (state = ascii ''WAIT_ATTACH'' \<and> pi_tracing_state p = Some INSPECTED \<and> r = Inr () \<longrightarrow>
       (\<exists>ns. get_mnt_ns p = Inr ns \<and> (ns, pi_pid p) \<in> served_of s'))"
proof (cases "state = ascii ''MISSING''")
  case True
  then have "handle_missing S p s = (r, p', s')" using assms(2) by (simp add: Operator_op_def)
  from handle_missing_thread[OF assms(1) this] True wait_is_not_missing show ?thesis by auto
next
  case not_missing: False
  show ?thesis
  proof (cases "state = ascii ''WAIT_ATTACH'' \<and> pi_tracing_state p \<noteq> None")
    case True
    then obtain st where st: "pi_tracing_state p = Some st" by blast
    have "Operator_op S p (ascii ''WAIT_ATTACH'') message s = (r, p', s')" using assms(2) True by blast
    from this st obtain r1 q s1 where 1: "(if st = ATTACHED then (Inr (), p, s) else attach_process S p s) = (r1, q, s1)"
        "rasp_manager s' = rasp_manager s1" "r = Inr () \<Longrightarrow> r1 = Inr ()" by (rule op_wait) blast
    have "thread_mode s1 \<and> others_served (pi_pid p) s s1 \<and> (st = ATTACHED \<longrightarrow> served_of s1 = served_of s) \<and>
        (st \<noteq> ATTACHED \<and> r1 = Inr () \<longrightarrow> (\<exists>ns. get_mnt_ns p = Inr ns \<and> (ns, pi_pid p) \<in> served_of s1))"
      using 1(1) assms(1) attach_process_thread[OF assms(1), of S p r1 q s1] by (cases "st = ATTACHED") (auto simp: others_served_def)
    then show ?thesis using 1(2,3) st not_missing by (auto simp: thread_mode_def others_served_def simp del: ascii_Cons)
  next
    case False
    then have "s' = s" using assms(2) not_missing by (auto simp: Operator_op_def simp del: ascii_Cons split: if_splits)
    then show ?thesis using assms(1) False not_missing by (auto simp: others_served_def simp del: ascii_Cons)
  qed
qed

subsection \<open>Operations in server mode\<close>

lemma server_inv_startD: "server_inv s \<Longrightarrow> start_comm S p s = (r, s') \<Longrightarrow> server_inv s'"
  using server_inv_start[of s S p] by simp

lemma server_inv_stopD: "server_inv s \<Longrightarrow> stop_comm S p s = (r, s') \<Longrightarrow> server_inv s'"
  using server_inv_stop[of s S p] by simp

lemma server_inv_keeps: "server_inv s \<Longrightarrow> keeps_manager m \<Longrightarrow> m s = (r, s') \<Longrightarrow> server_inv s'"
  using keeps_managerD server_inv_cong by metis

lemma keeps_set_time: "keeps_manager (set_time S upd p)"
  unfolding set_time_def by (rule keeps)

lemma attach_process_server:
  assumes "server_inv s" "attach_process S p s = (r, p', s')"
  shows "server_inv s'"
proof -
  obtain r1 s1 where s1: "start_comm S p s = (r1, s1)" by (meson surj_pair)
  note i1 = server_inv_startD[OF assms(1) s1]
  obtain r2 s2 where s2: "set_time S update_attach_start_time (update_try_attach_count p) s1 = (r2, s2)" by (meson surj_pair)
  note i2 = server_inv_keeps[OF i1 keeps_set_time s2]
  obtain t where r2: "r2 = Inr (update_attach_start_time t (update_try_attach_count p))" using s2 by (rule set_time_result)
  let ?q = "update_attach_start_time t (update_try_attach_count p)"
  obtain r3 s3 where s3: "attach S ?q s2 = (r3, s3)" by (meson surj_pair)
  note i3 = server_inv_keeps[OF i2 keeps_attach s3]
  obtain r4 s4 where s4: "set_time S update_failed_time ?q s3 = (r4, s4)" by (meson surj_pair)
  note i4 = server_inv_keeps[OF i3 keeps_set_time s4]
  obtain r5 s5 where s5: "set_time S update_attach_end_time (update_attached_count ?q) s3 = (r5, s5)" by (meson surj_pair)
  note i5 = server_inv_keeps[OF i3 keeps_set_time s5]
  obtain t4 where r4: "r4 = Inr (update_failed_time t4 ?q)" using s4 by (rule set_time_result)
  obtain r6 s6 where s6: "stop_comm S (update_failed_time t4 ?q) s4 = (r6, s6)" by (meson surj_pair)
  note i6 = server_inv_stopD[OF i4 s6]
  have "s' \<in> {s1, s3, s5, s6}"
    using assms(2) unfolding attach_process_def
    by (auto simp: s1 s2 r2 s3 s4 r4 s5 s6 split: sum.splits failure.splits if_splits)
  then show ?thesis using i1 i3 i5 i6 by blast
qed

lemma handle_missing_server:
  assumes "server_inv s" "handle_missing S p s = (r, p', s')"
  shows "server_inv s'"
proof (cases "pi_tracing_state p")
  case None
  then show ?thesis using assms by (simp add: handle_missing_def)
next
  case (Some st)
  obtain s1 where "rasp_manager s1 = rasp_manager s" "stop_comm S p' s1 = (r, s')"
    using handle_missing_stops[OF assms(2) Some] .
  then show ?thesis using server_inv_stopD server_inv_cong assms(1) by blast
qed

lemma Operator_op_server:
  assumes "server_inv s" "Operator_op S p state message s = (r, p', s')"
  shows "server_inv s'"
proof (cases "state = ascii ''MISSING''")
  case True
  then have "handle_missing S p s = (r, p', s')" using assms(2) by (simp add: Operator_op_def)
  from handle_missing_server[OF assms(1) this] show ?thesis .
next
  case not_missing: False
  show ?thesis
  proof (cases "state = ascii ''WAIT_ATTACH'' \<and> pi_tracing_state p \<noteq> None")
    case True
    then obtain st where st: "pi_tracing_state p = Some st" by blast
    have "Operator_op S p (ascii ''WAIT_ATTACH'') message s = (r, p', s')" using assms(2) True by blast
    from this st obtain r1 q s1 where 1: "(if st = ATTACHED then (Inr (), p, s) else attach_process S p s) = (r1, q, s1)"
        "rasp_manager s' = rasp_manager s1" by (rule op_wait) blast
    then have "server_inv s1" using assms(1) attach_process_server[OF assms(1)] by (auto split: if_splits)
    then show ?thesis by (rule server_inv_cong[OF 1(2)])
  next
    case False
    then have "s' = s" using assms(2) not_missing by (auto simp: Operator_op_def simp del: ascii_Cons split: if_splits)
    then show ?thesis using assms(1) by simp
  qed
qed

end
