(* ===== verification/Rasp_Monitor.thy ===== *)
theory Rasp_Monitor
  imports Rasp_Operation
begin

section \<open>The threads of the RASP plugin\<close>

text \<open>
  \<open>internal_main\<close> of \<^verbatim>\<open>src/rasp/plugin/src/monitor.rs\<close>: threads that find processes, inspect them, notice that they are gone
  and carry out the commands on them share the table of the watched processes and a queue of commands.
  Each rule of \<open>monitor_step\<close> is what one thread does between two points where the others may act: a
  thread that locks the table twice has two rules; the thread of the operations has three, for the lookup, the operation and the change of the table. The queues are bounded; a sender waits while its
  queue is full, except the one for the commands of the agent, which drops the command. The answers
  of the proc file system and of the detectors are arbitrary in every step. The heartbeats and action
  reports (see \<open>Rasp_Report\<close>), the waits and the tests of the stop signal are left out, and a thread that panics is one
  that takes no more steps.
\<close>

subsection \<open>Commands and the table\<close>

record RASPCommand =
  cmd_pid :: bytes
  cmd_state :: bytes
  cmd_runtime :: bytes
  cmd_probe_message :: "bytes option"

type_synonym processes = "int \<rightharpoonup> ProcessInfo"

definition auto_attach_command :: "Filters \<Rightarrow> ProcessInfo \<Rightarrow> Runtime \<Rightarrow> RASPCommand list" where
  "auto_attach_command filters p runtime =
     (if list_ex (\<lambda>rt. rt_name runtime = rt) (auto_attach_runtime filters)
      then [\<lparr>cmd_pid = show_int (pi_pid p), cmd_state = ascii ''WAIT_ATTACH'', cmd_runtime = Runtime_fmt runtime,
             cmd_probe_message = None\<rparr>]
      else [])"

text \<open>The inspection of a process, up to the second use of the table: the process to insert and the
  commands that are sent before.\<close>

definition inspect_process :: "(nat \<Rightarrow> nat) \<Rightarrow> detectors \<Rightarrow> Filters \<Rightarrow> Process option \<Rightarrow> int \<Rightarrow>
  (ProcessInfo \<times> RASPCommand list) option res" where
  "inspect_process as_f32 D filters pr pid =
     (case collect as_f32 pr pid filters of
        Inl Panic \<Rightarrow> Inl Panic
      | Inl (Err e) \<Rightarrow> Inr None
      | Inr p \<Rightarrow>
          (case inspect_from_process_info D p of
             Inl Panic \<Rightarrow> Inl Panic
           | Inl (Err e) \<Rightarrow> Inr None
           | Inr None \<Rightarrow> Inr None
           | Inr (Some runtime) \<Rightarrow>
               let p = p\<lparr>pi_tracing_state := Some INSPECTED, pi_runtime := Some runtime\<rparr> in
               Inr (Some (p, auto_attach_command filters p runtime))))"

definition missing_command :: "int \<Rightarrow> RASPCommand" where
  "missing_command pid = \<lparr>cmd_pid = show_int pid, cmd_state = ascii ''MISSING'', cmd_runtime = [], cmd_probe_message = None\<rparr>"

definition find_process :: "RASPCommand \<Rightarrow> processes \<Rightarrow> ProcessInfo option" where
  "find_process cmd ps = Option.bind (parse_i32 (cmd_pid cmd)) ps"

definition update_watched :: "(bytes \<Rightarrow> bytes) \<Rightarrow> bytes \<Rightarrow> bytes \<Rightarrow> ProcessInfo \<Rightarrow> processes \<Rightarrow> processes" where
  "update_watched md5 state probe_message p ps =
     (if state = ascii ''WAIT_ATTACH''
      then ps(pi_pid p \<mapsto> p\<lparr>pi_tracing_state := Some ATTACHED,
             pi_current_config_hash := (if probe_message \<noteq> [] then md5 probe_message else [])\<rparr>)
      else if state = ascii ''MISSING'' then ps(pi_pid p := None) else ps)"

text \<open>The operation on the copy of a process, without a lock on the table. When it succeeds, the changed copy is still to be
  written: \<open>finish\<close> does that, with the lock, on the table as it is then.\<close>

definition operate :: "'w rasp_sys \<Rightarrow> RASPCommand \<Rightarrow> ProcessInfo \<Rightarrow> 'w rasp \<Rightarrow>
  unit res \<times> (RASPCommand \<times> ProcessInfo) option \<times> 'w rasp" where
  "operate S cmd p s =
     (case Operator_op S p (cmd_state cmd) (opt_bytes (cmd_probe_message cmd)) s of
        (Inl e, p, s) \<Rightarrow> (Inl e, None, s)
      | (Inr _, p, s) \<Rightarrow> (Inr (), Some (cmd, p), s))"

definition finish :: "(bytes \<Rightarrow> bytes) \<Rightarrow> RASPCommand \<Rightarrow> ProcessInfo \<Rightarrow> processes \<Rightarrow> processes" where
  "finish md5 cmd p ps = update_watched md5 (cmd_state cmd) (opt_bytes (cmd_probe_message cmd)) p ps"

subsection \<open>The threads\<close>

record 'w plugin =
  tracking_pids :: "int list"
  unsent :: "int list"
  pid_queue :: "int list"
  inspected :: "(int \<times> ProcessInfo) option"
  watched :: processes
  missing :: "int list"
  commands :: "RASPCommand list"
  operating :: "(RASPCommand \<times> ProcessInfo) option"
  finishing :: "(RASPCommand \<times> ProcessInfo) option"
  operator :: "'w rasp"

record monitor_config =
  filters :: Filters
  pid_queue_length :: nat
  external_message_capability :: nat

definition plugin_init :: "'w rasp \<Rightarrow> 'w plugin" where
  "plugin_init s = \<lparr>tracking_pids = [], unsent = [], pid_queue = [], inspected = None, watched = Map.empty,
     missing = [], commands = [], operating = None, finishing = None, operator = s\<rparr>"

inductive monitor_step :: "monitor_config \<Rightarrow> 'w rasp_sys \<Rightarrow> (bytes \<Rightarrow> bytes) \<Rightarrow> 'w plugin \<Rightarrow> 'w plugin \<Rightarrow> bool"
  for cfg S md5 where
  poll: "unsent st = [] \<Longrightarrow> poll_pid_func proc_pids (tracking_pids st) = Inr (all, need_inspect) \<Longrightarrow>
    monitor_step cfg S md5 st (st\<lparr>tracking_pids := all, unsent := need_inspect\<rparr>)"
| send_pid: "unsent st = pid # pids \<Longrightarrow> length (pid_queue st) < pid_queue_length cfg \<Longrightarrow>
    monitor_step cfg S md5 st (st\<lparr>unsent := pids, pid_queue := pid_queue st @ [pid]\<rparr>)"
| skip: "inspected st = None \<Longrightarrow> pid_queue st = pid # pids \<Longrightarrow>
    inspect_process as_f32 D (filters cfg) pr pid = Inr None \<Longrightarrow>
    monitor_step cfg S md5 st (st\<lparr>pid_queue := pids\<rparr>)"
| inspect: "inspected st = None \<Longrightarrow> pid_queue st = pid # pids \<Longrightarrow>
    inspect_process as_f32 D (filters cfg) pr pid = Inr (Some (p, cmds)) \<Longrightarrow>
    length (commands st @ cmds) \<le> external_message_capability cfg \<Longrightarrow>
    monitor_step cfg S md5 st (st\<lparr>pid_queue := pids, commands := commands st @ cmds, inspected := Some (pid, p)\<rparr>)"
| insert: "inspected st = Some (pid, p) \<Longrightarrow>
    monitor_step cfg S md5 st (st\<lparr>inspected := None, watched := (watched st)(pid \<mapsto> p)\<rparr>)"
| clean: "missing st = [] \<Longrightarrow> set pids = dom (watched st) \<Longrightarrow> distinct pids \<Longrightarrow>
    monitor_step cfg S md5 st (st\<lparr>missing := process_health procfs pids\<rparr>)"
| send_missing: "missing st = pid # pids \<Longrightarrow> length (commands st) < external_message_capability cfg \<Longrightarrow>
    monitor_step cfg S md5 st (st\<lparr>missing := pids, commands := commands st @ [missing_command pid]\<rparr>)"
| external: "length (commands st) < external_message_capability cfg \<Longrightarrow>
    monitor_step cfg S md5 st (st\<lparr>commands := commands st @ [cmd]\<rparr>)"
| receive: "operating st = None \<Longrightarrow> finishing st = None \<Longrightarrow> commands st = cmd # cmds \<Longrightarrow>
    monitor_step cfg S md5 st (st\<lparr>commands := cmds, operating := map_option (Pair cmd) (find_process cmd (watched st))\<rparr>)"
| operate: "operating st = Some (cmd, p) \<Longrightarrow> operate S cmd p (operator st) = (r, pending, s) \<Longrightarrow> r \<noteq> Inl Panic \<Longrightarrow>
    monitor_step cfg S md5 st (st\<lparr>operating := None, finishing := pending, operator := s\<rparr>)"
| finish: "finishing st = Some (cmd, p) \<Longrightarrow>
    monitor_step cfg S md5 st (st\<lparr>finishing := None, watched := finish md5 cmd p (watched st)\<rparr>)"

inductive_cases monitor_stepE: "monitor_step cfg S md5 st st'"

subsection \<open>The table\<close>

text \<open>A process that may be watched: its runtime is known, and it is inspected or attached.\<close>

definition watchable :: "ProcessInfo \<Rightarrow> bool" where
  "watchable p \<longleftrightarrow> pi_runtime p \<noteq> None \<and> (pi_tracing_state p = Some INSPECTED \<or> pi_tracing_state p = Some ATTACHED)"

definition table_ok :: "'w plugin \<Rightarrow> bool" where
  "table_ok st \<longleftrightarrow> (\<forall>pid p. watched st pid = Some p \<longrightarrow> pi_pid p = pid \<and> watchable p) \<and>
     (\<forall>pid p. inspected st = Some (pid, p) \<longrightarrow> pi_pid p = pid \<and> watchable p \<and> pi_tracing_state p = Some INSPECTED) \<and>
     (\<forall>cmd p. operating st = Some (cmd, p) \<longrightarrow> watchable p) \<and> (\<forall>cmd p. finishing st = Some (cmd, p) \<longrightarrow> watchable p)"

lemma table_okD:
  assumes "table_ok st"
  shows "watched st pid = Some p \<Longrightarrow> pi_pid p = pid" "watched st pid = Some p \<Longrightarrow> watchable p"
    "inspected st = Some (pid', q) \<Longrightarrow> watchable q" "inspected st = Some (pid', q) \<Longrightarrow> pi_tracing_state q = Some INSPECTED"
    "operating st = Some (cmd, q) \<Longrightarrow> watchable q" "finishing st = Some (cmd, q) \<Longrightarrow> watchable q"
  using assms unfolding table_ok_def by blast+

lemma inspect_process_result:
  assumes "inspect_process as_f32 D F pr pid = Inr (Some (p, cmds))"
  shows "pi_pid p = pid" "pi_tracing_state p = Some INSPECTED" "pi_runtime p \<noteq> None"
    "cmds = auto_attach_command F p (the (pi_runtime p))"
  using assms by (auto simp: inspect_process_def Let_def collect_pid split: sum.splits failure.splits option.splits)

lemma same_process_watchable: "same_process p q \<Longrightarrow> watchable q = watchable p"
  by (simp add: same_process_def watchable_def)

text \<open>What an operation leaves to be written.\<close>

lemma operate_result:
  assumes "operate S cmd p s = (r, pending, s')"
  obtains q where "Operator_op S p (cmd_state cmd) (opt_bytes (cmd_probe_message cmd)) s = (r, q, s')" "same_process p q"
    "pending = (if r = Inr () then Some (cmd, q) else None)"
proof -
  obtain r1 q s1 where op: "Operator_op S p (cmd_state cmd) (opt_bytes (cmd_probe_message cmd)) s = (r1, q, s1)"
    by (metis surj_pair)
  with assms have "r1 = r" "s1 = s'" "pending = (if r = Inr () then Some (cmd, q) else None)"
    by (auto simp: operate_def split: sum.splits)
  then show ?thesis using that op Operator_op_same[OF op] by blast
qed

lemma update_watched_cases:
  assumes "update_watched md5 state message q ps pid = Some p"
  shows "ps pid = Some p \<and> (state = ascii ''MISSING'' \<longrightarrow> pid \<noteq> pi_pid q) \<or>
    state = ascii ''WAIT_ATTACH'' \<and> pid = pi_pid q \<and> pi_tracing_state p = Some ATTACHED \<and> pi_pid p = pi_pid q \<and>
      pi_runtime p = pi_runtime q \<and> pi_namespace_info p = pi_namespace_info q"
  using assms by (auto simp: update_watched_def simp del: ascii_Cons split: if_splits)

lemma table_ok_step:
  assumes ok: "table_ok st" and step: "monitor_step cfg S md5 st st'"
  shows "table_ok st'"
  using step
proof cases
  case (inspect pid pids as_f32 D pr p cmds)
  then show ?thesis using ok inspect_process_result[OF inspect(4)] by (simp add: table_ok_def watchable_def)
next
  case (insert pid p)
  then show ?thesis using ok by (simp add: table_ok_def)
next
  case (receive cmd cmds)
  then show ?thesis using ok by (auto simp: table_ok_def find_process_def bind_eq_Some_conv)
next
  case (operate cmd p r pending s)
  obtain q where q: "same_process p q" "pending = (if r = Inr () then Some (cmd, q) else None)"
    using operate_result[OF operate(3)] by metis
  have "watchable q" using table_okD(5)[OF ok operate(2)] same_process_watchable[OF q(1)] by simp
  then show ?thesis using operate(1) q(2) ok by (simp add: table_ok_def)
next
  case (finish cmd q)
  have "watchable q" using table_okD(6)[OF ok finish(2)] .
  then have "Rasp_Monitor.finish md5 cmd q (watched st) pid = Some p \<Longrightarrow> pi_pid p = pid \<and> watchable p" for pid p
    using table_okD(1,2)[OF ok] update_watched_cases[of md5 "cmd_state cmd" "opt_bytes (cmd_probe_message cmd)" q "watched st" pid p]
    by (auto simp: finish_def watchable_def)
  then show ?thesis using finish(1) ok by (simp add: table_ok_def)
qed (use ok in \<open>simp_all add: table_ok_def\<close>)

interpretation table: step_invariant "monitor_step cfg S md5" table_ok
  for cfg :: monitor_config and S :: "'w rasp_sys" and md5 :: "bytes \<Rightarrow> bytes"
  by unfold_locales (rule table_ok_step)

lemma table_ok_init: "table_ok (plugin_init s)"
  by (simp add: table_ok_def plugin_init_def)

subsection \<open>Attached processes in thread mode\<close>

text \<open>A process whose state is attached has its communication, unless the thread of the operations has just handled it as missing
  and has not yet removed it from the table. While an operation runs on a process that was not attached, no other
  thread has made it so; a process that is about to be written as attached has its communication.\<close>

definition comm_of :: "'w plugin \<Rightarrow> ProcessInfo \<Rightarrow> bool" where
  "comm_of st p \<longleftrightarrow> (\<forall>ns. get_mnt_ns p = Inr ns \<longrightarrow> (ns, pi_pid p) \<in> served_of (operator st))"

definition leaving :: "'w plugin \<Rightarrow> int \<Rightarrow> bool" where
  "leaving st pid \<longleftrightarrow> (\<exists>cmd q. finishing st = Some (cmd, q) \<and> cmd_state cmd = ascii ''MISSING'' \<and> pi_pid q = pid)"

definition attached_ok :: "'w plugin \<Rightarrow> bool" where
  "attached_ok st \<longleftrightarrow> table_ok st \<and> thread_mode (operator st) \<and> (operating st = None \<or> finishing st = None) \<and>
     (\<forall>pid p. watched st pid = Some p \<longrightarrow> pi_tracing_state p = Some ATTACHED \<longrightarrow> comm_of st p \<or> leaving st pid) \<and>
     (\<forall>cmd p. operating st = Some (cmd, p) \<longrightarrow> (pi_tracing_state p = Some ATTACHED \<longrightarrow> comm_of st p) \<and>
        (\<forall>q. pi_tracing_state p \<noteq> Some ATTACHED \<longrightarrow> watched st (pi_pid p) = Some q \<longrightarrow> pi_tracing_state q \<noteq> Some ATTACHED)) \<and>
     (\<forall>cmd p. finishing st = Some (cmd, p) \<longrightarrow> cmd_state cmd = ascii ''WAIT_ATTACH'' \<longrightarrow> comm_of st p)"

lemma attached_okD:
  assumes "attached_ok st"
  shows "table_ok st" "thread_mode (operator st)"
    "watched st pid = Some p \<Longrightarrow> pi_tracing_state p = Some ATTACHED \<Longrightarrow> comm_of st p \<or> leaving st pid"
    "operating st = Some (cmd, q) \<Longrightarrow> pi_tracing_state q = Some ATTACHED \<Longrightarrow> comm_of st q"
    "operating st = Some (cmd, q) \<Longrightarrow> pi_tracing_state q \<noteq> Some ATTACHED \<Longrightarrow> watched st (pi_pid q) = Some p \<Longrightarrow>
       pi_tracing_state p \<noteq> Some ATTACHED"
    "operating st = Some (cmd, q) \<Longrightarrow> finishing st = None"
    "finishing st = Some (cmd, q) \<Longrightarrow> cmd_state cmd = ascii ''WAIT_ATTACH'' \<Longrightarrow> comm_of st q"
    "finishing st = Some (cmd, q) \<Longrightarrow> operating st = None"
  using assms unfolding attached_ok_def by auto

text \<open>The operation keeps the communication of every attached process, except that of one it handles as missing.\<close>

lemma attached_ok_operate:
  assumes ok: "attached_ok st" and operating: "operating st = Some (cmd, p)"
    and op: "operate S cmd p (operator st) = (r, pending, s)" and p': "watched st pid = Some p'"
    and attached: "pi_tracing_state p' = Some ATTACHED" "get_mnt_ns p' = Inr ns"
  shows "(ns, pi_pid p') \<in> served_of s \<or> r = Inr () \<and> cmd_state cmd = ascii ''MISSING'' \<and> pid = pi_pid p"
proof -
  obtain q where q: "Operator_op S p (cmd_state cmd) (opt_bytes (cmd_probe_message cmd)) (operator st) = (r, q, s)"
    using operate_result[OF op] by metis
  note served = Operator_op_thread[OF attached_okD(2)[OF ok] q]
  have pid: "pi_pid p' = pid" using table_okD(1)[OF attached_okD(1)[OF ok] p'] .
  have "\<not> leaving st pid" using attached_okD(6)[OF ok operating] by (simp add: leaving_def)
  then have before: "(ns, pi_pid p') \<in> served_of (operator st)"
    using attached_okD(3)[OF ok p' attached(1)] attached(2) by (simp add: comm_of_def)
  show ?thesis
  proof (cases "pid = pi_pid p")
    case False
    then show ?thesis using served before pid by (simp add: others_served_def)
  next
    case True
    then have "pi_tracing_state p = Some ATTACHED" using attached_okD(5)[OF ok operating] p' attached(1) by blast
    then have "r = Inr () \<and> cmd_state cmd = ascii ''MISSING'' \<or> served_of s = served_of (operator st)" using served by blast
    then show ?thesis using before True by auto
  qed
qed

text \<open>A process that is to be written as attached has its communication.\<close>

lemma pending_has_comm:
  assumes ok: "attached_ok st" and operating: "operating st = Some (cmd, p)"
    and q: "Operator_op S p (cmd_state cmd) (opt_bytes (cmd_probe_message cmd)) (operator st) = (Inr (), q, s)" "same_process p q"
    and wait: "cmd_state cmd = ascii ''WAIT_ATTACH''" and ns: "get_mnt_ns q = Inr ns"
  shows "(ns, pi_pid q) \<in> served_of s"
proof -
  note served = Operator_op_thread[OF attached_okD(2)[OF ok] q(1)]
  have same: "pi_pid q = pi_pid p" "get_mnt_ns q = get_mnt_ns p" using q(2) by (simp_all add: same_process_def get_mnt_ns_def)
  have state: "pi_tracing_state p = Some INSPECTED \<or> pi_tracing_state p = Some ATTACHED"
    using table_okD(5)[OF attached_okD(1)[OF ok] operating] by (simp add: watchable_def)
  show ?thesis
  proof (cases "pi_tracing_state p = Some ATTACHED")
    case True
    then have "(ns, pi_pid p) \<in> served_of (operator st)"
      using attached_okD(4)[OF ok operating] ns same(2) by (simp add: comm_of_def)
    then show ?thesis using served True wait same(1) wait_is_not_missing by auto
  next
    case False
    then show ?thesis using served state wait ns same by auto
  qed
qed

lemma attached_ok_step:
  assumes ok: "attached_ok st" and step: "monitor_step cfg S md5 st st'"
  shows "attached_ok st'"
proof -
  have table: "table_ok st'" using table_ok_step[OF attached_okD(1)[OF ok] step] .
  from step show ?thesis
  proof cases
    case (insert pid p)
    have "pi_tracing_state p = Some INSPECTED" using table_okD(4)[OF attached_okD(1)[OF ok] insert(2)] .
    then show ?thesis using insert ok table by (simp add: attached_ok_def comm_of_def leaving_def)
  next
    case (receive cmd cmds)
    have "find_process cmd (watched st) = Some p \<Longrightarrow> pi_tracing_state p = Some ATTACHED \<Longrightarrow> comm_of st p" for p
      using attached_okD(3)[OF ok] receive(3) by (auto simp: find_process_def bind_eq_Some_conv leaving_def)
    moreover have "find_process cmd (watched st) = Some p \<Longrightarrow> watched st (pi_pid p) = Some p" for p
      using table_okD(1)[OF attached_okD(1)[OF ok]] by (auto simp: find_process_def bind_eq_Some_conv)
    ultimately show ?thesis using ok table receive by (auto simp: attached_ok_def comm_of_def leaving_def)
  next
    case (operate cmd p r pending s)
    obtain q where q: "Operator_op S p (cmd_state cmd) (opt_bytes (cmd_probe_message cmd)) (operator st) = (r, q, s)" "same_process p q"
        "pending = (if r = Inr () then Some (cmd, q) else None)"
      using operate_result[OF operate(3)] by metis
    have "thread_mode s" using Operator_op_thread[OF attached_okD(2)[OF ok] q(1)] by blast
    moreover have "comm_of st' p' \<or> leaving st' pid" if "watched st pid = Some p'" "pi_tracing_state p' = Some ATTACHED" for pid p'
      using attached_ok_operate[OF ok operate(2,3) that] operate(1) q(2,3)
      by (auto simp: comm_of_def leaving_def same_process_def simp del: ascii_Cons)
    moreover have "comm_of st' q" if "r = Inr ()" "cmd_state cmd = ascii ''WAIT_ATTACH''"
      using pending_has_comm[OF ok operate(2) _ q(2) that(2)] q(1) that(1) operate(1) by (simp add: comm_of_def)
    ultimately show ?thesis using operate(1) table q(3) by (simp add: attached_ok_def)
  next
    case (finish cmd q)
    have "comm_of st' p \<or> leaving st' pid"
      if p: "Rasp_Monitor.finish md5 cmd q (watched st) pid = Some p" "pi_tracing_state p = Some ATTACHED" for pid p
    proof -
      from update_watched_cases[OF p(1)[unfolded finish_def]] consider
          (old) "watched st pid = Some p" "cmd_state cmd = ascii ''MISSING'' \<longrightarrow> pid \<noteq> pi_pid q"
        | (new) "cmd_state cmd = ascii ''WAIT_ATTACH''" "pi_pid p = pi_pid q" "pi_namespace_info p = pi_namespace_info q" by blast
      then show ?thesis
      proof cases
        case old
        then have "comm_of st p" using attached_okD(3)[OF ok old(1) p(2)] finish(2) by (auto simp: leaving_def)
        then show ?thesis using finish(1) by (simp add: comm_of_def)
      next
        case new
        then have "comm_of st q" using attached_okD(7)[OF ok finish(2)] by blast
        then show ?thesis using finish(1) new(2,3) by (simp add: comm_of_def get_mnt_ns_def)
      qed
    qed
    then show ?thesis using finish ok table attached_okD(8)[OF ok finish(2)] by (simp add: attached_ok_def)
  qed (use ok table in \<open>simp_all add: attached_ok_def comm_of_def leaving_def\<close>)
qed

interpretation attached: step_invariant "monitor_step cfg S md5" attached_ok
  for cfg :: monitor_config and S :: "'w rasp_sys" and md5 :: "bytes \<Rightarrow> bytes"
  by unfold_locales (rule attached_ok_step)

subsection \<open>Servers\<close>

lemma server_inv_step:
  assumes "server_inv (operator st)" "monitor_step cfg S md5 st st'"
  shows "server_inv (operator st')"
  using assms(2)
proof cases
  case (operate cmd p r pending s)
  obtain q where "Operator_op S p (cmd_state cmd) (opt_bytes (cmd_probe_message cmd)) (operator st) = (r, q, s)"
    using operate_result[OF operate(3)] by metis
  then have "server_inv s" using Operator_op_server[OF assms(1)] by blast
  then show ?thesis using operate(1) by simp
qed (use assms(1) in simp_all)

interpretation servers: step_invariant "monitor_step cfg S md5" "\<lambda>st. server_inv (operator st)"
  for cfg :: monitor_config and S :: "'w rasp_sys" and md5 :: "bytes \<Rightarrow> bytes"
  by unfold_locales (rule server_inv_step)

subsection \<open>A run\<close>

lemma steps_trans:
  "monitor_step cfg S md5 a b \<Longrightarrow> (monitor_step cfg S md5)\<^sup>*\<^sup>* b c \<Longrightarrow> (monitor_step cfg S md5)\<^sup>*\<^sup>* a c"
  by (rule converse_rtranclp_into_rtranclp)

definition sample_config :: monitor_config where
  "sample_config = \<lparr>filters = sample_filters, pid_queue_length = 1, external_message_capability = 1\<rparr>"

definition sample_thread_rasp :: "int list rasp" where
  "sample_thread_rasp = \<lparr>rasp_manager = \<lparr>namespace_tracer = tracer_new, thread_comm = Some sample_thread, process_comm = None\<rparr>,
     rasp_world = []\<rparr>"

definition sample_detectors :: detectors where
  "sample_detectors = \<lparr>det_vm_version = (\<lambda>_. Inr []), det_nodejs_version = (\<lambda>_ _. Inl (Err IoError)),
     det_golang_bin_inspect = (\<lambda>_. Inl (Err IoError)), det_inspect_phpfpm = (\<lambda>_. Inl (Err IoError)),
     det_inspect_phpfpm_version = (\<lambda>_. Inl (Err IoError)), det_inspect_phpfpm_zts = (\<lambda>_. Inr False),
     det_python_inspect = (\<lambda>_. Inr None)\<rparr>"

definition sample_command :: RASPCommand where
  "sample_command = \<lparr>cmd_pid = ascii ''7'', cmd_state = ascii ''WAIT_ATTACH'', cmd_runtime = ascii ''JVM '', cmd_probe_message = None\<rparr>"

definition sample_watched :: ProcessInfo where
  "sample_watched = (case inspect_process id sample_detectors sample_filters (Some sample_process) 7 of
     Inr (Some (p, _)) \<Rightarrow> p | _ \<Rightarrow> ProcessInfo_new 7)"

lemma sample_inspect:
  "inspect_process id sample_detectors sample_filters (Some sample_process) 7 = Inr (Some (sample_watched, [sample_command]))"
proof -
  have "case inspect_process id sample_detectors sample_filters (Some sample_process) 7 of
     Inr (Some (p, cmds)) \<Rightarrow> cmds = [sample_command] | _ \<Rightarrow> False" by code_simp
  then show ?thesis by (auto simp: sample_watched_def split: sum.splits option.splits)
qed

text \<open>The process is found, inspected and inserted before its command is taken.\<close>

abbreviation sample_inserted :: "'w rasp \<Rightarrow> 'w plugin" where
  "sample_inserted s \<equiv> (plugin_init s)\<lparr>tracking_pids := [7], watched := [7 \<mapsto> sample_watched], commands := [sample_command]\<rparr>"

lemma sample_inserted_reachable: "(monitor_step sample_config S md5)\<^sup>*\<^sup>* (plugin_init s) (sample_inserted s)"
proof -
  let ?st1 = "(plugin_init s)\<lparr>tracking_pids := [7], unsent := [7]\<rparr>"
  let ?st2 = "?st1\<lparr>unsent := [], pid_queue := [7]\<rparr>"
  let ?st3 = "?st2\<lparr>pid_queue := [], commands := [sample_command], inspected := Some (7, sample_watched)\<rparr>"
  let ?st4 = "?st3\<lparr>inspected := None, watched := [7 \<mapsto> sample_watched]\<rparr>"
  have "monitor_step sample_config S md5 (plugin_init s) ?st1"
    by (rule monitor_step.poll[where proc_pids = "Some [7]"]) (simp_all add: plugin_init_def poll_pid_func_def the_or_def)
  moreover have "monitor_step sample_config S md5 ?st1 ?st2"
    using monitor_step.send_pid[of ?st1 7 "[]" sample_config S md5] by (simp add: sample_config_def plugin_init_def)
  moreover have "monitor_step sample_config S md5 ?st2 ?st3"
    using monitor_step.inspect[of ?st2 7 "[]" id sample_detectors sample_config "Some sample_process" sample_watched "[sample_command]" S md5]
      sample_inspect by (simp add: sample_config_def plugin_init_def)
  moreover have "monitor_step sample_config S md5 ?st3 ?st4"
    using monitor_step.insert[of ?st3 7 sample_watched sample_config S md5] by (simp add: plugin_init_def)
  ultimately have "(monitor_step sample_config S md5)\<^sup>*\<^sup>* (plugin_init s) ?st4" by (meson steps_trans rtranclp.rtrancl_refl)
  then show ?thesis by (simp add: plugin_init_def)
qed

definition sample_rasp_ns :: "int list rasp_sys" where
  "sample_rasp_ns = sample_rasp\<lparr>nspid_of := (\<lambda>p w. (Inr (Some p), w))\<rparr>"

lemma operate_pending: "operate S cmd p s = (r, Some cq, s') \<Longrightarrow> r = Inr () \<and> fst cq = cmd"
  by (rule operate_result) (auto split: if_splits)

lemma sample_operate:
  "\<exists>p q s. operate sample_rasp_ns sample_command sample_watched sample_thread_rasp = (Inr (), Some (sample_command, q), s) \<and>
     finish id sample_command q [7 \<mapsto> sample_watched] 7 = Some p \<and> pi_tracing_state p = Some ATTACHED \<and> get_mnt_ns p = Inr (ascii ''m'')"
proof -
  obtain r pending s where op: "operate sample_rasp_ns sample_command sample_watched sample_thread_rasp = (r, pending, s)"
    by (metis prod_cases3)
  have "case fst (snd (operate sample_rasp_ns sample_command sample_watched sample_thread_rasp)) of
      Some cq \<Rightarrow> (case finish id sample_command (snd cq) [7 \<mapsto> sample_watched] 7 of
        Some p \<Rightarrow> pi_tracing_state p = Some ATTACHED \<and> get_mnt_ns p = Inr (ascii ''m'') | None \<Rightarrow> False)
    | None \<Rightarrow> False" by code_simp
  then obtain cq p where "pending = Some cq" "finish id sample_command (snd cq) [7 \<mapsto> sample_watched] 7 = Some p"
      "pi_tracing_state p = Some ATTACHED" "get_mnt_ns p = Inr (ascii ''m'')"
    unfolding op by (auto simp del: ascii_Cons split: option.splits)
  then show ?thesis using op operate_pending[of sample_rasp_ns sample_command sample_watched sample_thread_rasp r cq s]
    by (metis prod.collapse)
qed

subsection \<open>Properties\<close>

text \<open>However the threads interleave, and whatever commands the agent sends, every watched process stands
  under its own identity, its runtime is known, and its state is inspected or attached. So a command finds
  the process it names, and no operation fails for want of a runtime or a state.\<close>

theorem watched_processes_ok:
  assumes "(monitor_step cfg S md5)\<^sup>*\<^sup>* (plugin_init s) st"
    and "watched st pid = Some p"
  shows "pi_pid p = pid \<and> pi_runtime p \<noteq> None \<and>
    (pi_tracing_state p = Some INSPECTED \<or> pi_tracing_state p = Some ATTACHED)"
  using table_okD(1,2)[OF table.reachable[OF assms(1) table_ok_init] assms(2)] by (simp add: watchable_def)

theorem watched_processes_ok_witness:
  "pi_pid sample_watched = 7 \<and> pi_runtime sample_watched \<noteq> None \<and>
    (pi_tracing_state sample_watched = Some INSPECTED \<or> pi_tracing_state sample_watched = Some ATTACHED)"
  by (rule watched_processes_ok[OF sample_inserted_reachable[of sample_rasp id sample_thread_rasp]]) simp

text \<open>C3: in thread mode, however the threads interleave, a process whose state is attached is served: its communication was
  started, and no operation on another process, and no failed or repeated operation on itself, has stopped it since. The one
  exception is the moment after the thread of the operations has stopped a missing process and before it takes it
  out of the table, which is the next thing it does.\<close>

theorem attached_processes_are_served:
  assumes "RASPManager_init (ascii ''thread'') th = Inr m"
    and "(monitor_step cfg S md5)\<^sup>*\<^sup>* (plugin_init \<lparr>rasp_manager = m, rasp_world = w\<rparr>) st"
    and "watched st pid = Some p" "pi_tracing_state p = Some ATTACHED" "get_mnt_ns p = Inr ns"
  shows "(ns, pid) \<in> served_pids (tracer_of (operator st)) \<or>
    (\<exists>cmd q. finishing st = Some (cmd, q) \<and> cmd_state cmd = ascii ''MISSING'' \<and> finish md5 cmd q (watched st) pid = None)"
proof -
  have "thread_mode \<lparr>rasp_manager = m, rasp_world = w\<rparr>"
    using assms(1) by (auto simp: RASPManager_init_def thread_mode_def tracer_ok_new)
  then have "attached_ok (plugin_init \<lparr>rasp_manager = m, rasp_world = w\<rparr>)"
    by (simp add: attached_ok_def table_ok_init) (simp add: plugin_init_def)
  then have ok: "attached_ok st" by (rule attached.reachable[OF assms(2)])
  have pid: "pi_pid p = pid" using table_okD(1)[OF attached_okD(1)[OF ok] assms(3)] .
  have gone: "finish md5 cmd q ps (pi_pid q) = None" if "cmd_state cmd = ascii ''MISSING''" for cmd q ps
    using that wait_is_not_missing by (auto simp: finish_def update_watched_def simp del: ascii_Cons)
  from attached_okD(3)[OF ok assms(3,4)] show ?thesis
  proof
    assume "comm_of st p"
    then show ?thesis using pid assms(5) by (simp add: comm_of_def)
  next
    assume "leaving st pid"
    then obtain cmd q where q: "finishing st = Some (cmd, q)" "cmd_state cmd = ascii ''MISSING''" "pi_pid q = pid"
      unfolding leaving_def by blast
    then have "finish md5 cmd q (watched st) pid = None" using gone[of cmd q "watched st"] by simp
    then show ?thesis using q by blast
  qed
qed

theorem attached_processes_are_served_witness:
  "\<exists>st p. watched st 7 = Some p \<and> pi_tracing_state p = Some ATTACHED \<and>
     (monitor_step sample_config sample_rasp_ns id)\<^sup>*\<^sup>* (plugin_init sample_thread_rasp) st \<and>
     (ascii ''m'', 7) \<in> served_pids (tracer_of (operator st))"
proof -
  let ?st1 = "sample_inserted sample_thread_rasp"
  let ?st2 = "?st1\<lparr>commands := [], operating := Some (sample_command, sample_watched)\<rparr>"
  obtain p q s where op:
      "operate sample_rasp_ns sample_command sample_watched sample_thread_rasp = (Inr (), Some (sample_command, q), s)"
      "finish id sample_command q [7 \<mapsto> sample_watched] 7 = Some p" "pi_tracing_state p = Some ATTACHED" "get_mnt_ns p = Inr (ascii ''m'')"
    using sample_operate by blast
  let ?st3 = "?st2\<lparr>operating := None, finishing := Some (sample_command, q), operator := s\<rparr>"
  let ?st4 = "?st3\<lparr>finishing := None, watched := finish id sample_command q [7 \<mapsto> sample_watched]\<rparr>"
  have "parse_i32 (ascii ''7'') = Some 7" using parse_show_int[of 7] by (simp add: show_int_def show_nat.simps)
  then have "find_process sample_command [7 \<mapsto> sample_watched] = Some sample_watched"
    by (simp add: find_process_def sample_command_def del: ascii_Cons)
  then have "monitor_step sample_config sample_rasp_ns id ?st1 ?st2"
    using monitor_step.receive[of ?st1 sample_command "[]" sample_config sample_rasp_ns id] by (simp add: plugin_init_def)
  moreover have "monitor_step sample_config sample_rasp_ns id ?st2 ?st3"
    using monitor_step.operate[of ?st2 sample_command sample_watched sample_rasp_ns "Inr ()" "Some (sample_command, q)" s sample_config id] op(1)
    by (simp add: plugin_init_def)
  moreover have "monitor_step sample_config sample_rasp_ns id ?st3 ?st4"
    using monitor_step.finish[of ?st3 sample_command q sample_config sample_rasp_ns id] by simp
  ultimately have run: "(monitor_step sample_config sample_rasp_ns id)\<^sup>*\<^sup>* (plugin_init sample_thread_rasp) ?st4"
    using sample_inserted_reachable[of sample_rasp_ns id sample_thread_rasp] by (meson rtranclp.rtrancl_into_rtrancl)
  have init: "RASPManager_init (ascii ''thread'') sample_thread =
      Inr \<lparr>namespace_tracer = tracer_new, thread_comm = Some sample_thread, process_comm = None\<rparr>"
    by (simp add: RASPManager_init_def)
  have watched: "watched ?st4 7 = Some p" using op(2) by simp
  from attached_processes_are_served[OF init _ watched op(3,4), of sample_config sample_rasp_ns id "[]"] run
  have "(ascii ''m'', 7) \<in> served_pids (tracer_of (operator ?st4))" unfolding sample_thread_rasp_def by auto
  then show ?thesis using run watched op(3) by blast
qed

text \<open>In server mode the servers and the tracer agree while the plugin runs: whatever the threads do, a
  namespace has a server exactly when the tracer knows it.\<close>

theorem plugin_servers_follow_tracer:
  assumes "RASPManager_init (ascii ''server'') th = Inr m"
    and "(monitor_step cfg S md5)\<^sup>*\<^sup>* (plugin_init \<lparr>rasp_manager = m, rasp_world = w\<rparr>) st"
  shows "\<exists>c. process_comm (rasp_manager (operator st)) = Some c \<and>
    dom (mnt_namesapce_server_map c) = dom (tracer_of (operator st))"
proof -
  have "server_inv (operator (plugin_init \<lparr>rasp_manager = m, rasp_world = w\<rparr>))"
    using assms(1) by (auto simp: RASPManager_init_def server_inv_def tracer_ok_new plugin_init_def) (simp_all add: tracer_new_def)
  then have "server_inv (operator st)" by (rule servers.reachable[OF assms(2)])
  then show ?thesis by (auto simp: server_inv_def)
qed

theorem plugin_servers_follow_tracer_witness:
  "\<exists>st c. (monitor_step sample_config sample_rasp id)\<^sup>*\<^sup>* (plugin_init \<lparr>rasp_manager = sample_manager, rasp_world = []\<rparr>) st \<and>
    watched st 7 \<noteq> None \<and> process_comm (rasp_manager (operator st)) = Some c \<and>
    dom (mnt_namesapce_server_map c) = dom (tracer_of (operator st))"
proof -
  have init: "RASPManager_init (ascii ''server'') sample_thread = Inr sample_manager"
    by (simp add: RASPManager_init_def sample_manager_def)
  let ?s = "\<lparr>rasp_manager = sample_manager, rasp_world = []\<rparr> :: int list rasp"
  obtain c where "process_comm (rasp_manager (operator (sample_inserted ?s))) = Some c"
      "dom (mnt_namesapce_server_map c) = dom (tracer_of (operator (sample_inserted ?s)))"
    using plugin_servers_follow_tracer[OF init sample_inserted_reachable[of sample_rasp id]] by blast
  then show ?thesis
    by (intro exI[of _ "sample_inserted ?s"] exI[of _ c] conjI sample_inserted_reachable) simp_all
qed

text \<open>A process that should be attached at once may never be. Its command is sent before the process is in
  the table, so that the thread of the operations may take the command first, not find the process, and
  drop the command; the process is then watched, and no operation was tried on it.\<close>

theorem auto_attach_may_be_lost:
  assumes "inspect_process as_f32 D (filters cfg) pr pid = Inr (Some (p, [cmd]))"
    and "inspected st = None" "pid_queue st = [pid]" "watched st pid = None" "commands st = []" "operating st = None" "finishing st = None"
    and "0 < external_message_capability cfg" "- (2 ^ 31) \<le> pid" "pid < 2 ^ 31"
  shows "cmd_state cmd = ascii ''WAIT_ATTACH'' \<and>
    (\<exists>st'. (monitor_step cfg S md5)\<^sup>*\<^sup>* st st' \<and> watched st' pid = Some p \<and> pi_tracing_state p = Some INSPECTED \<and>
      commands st' = [] \<and> pid_queue st' = [] \<and> operating st' = None \<and> operator st' = operator st)"
proof -
  note p = inspect_process_result[OF assms(1)]
  have cmd: "cmd_pid cmd = show_int pid" "cmd_state cmd = ascii ''WAIT_ATTACH''"
    using p(1,4) by (auto simp: auto_attach_command_def simp del: ascii_Cons split: if_splits)
  let ?st1 = "st\<lparr>pid_queue := [], commands := [cmd], inspected := Some (pid, p)\<rparr>"
  let ?st2 = "?st1\<lparr>commands := [], operating := None\<rparr>"
  let ?st3 = "?st2\<lparr>inspected := None, watched := (watched st)(pid \<mapsto> p)\<rparr>"
  have "monitor_step cfg S md5 st ?st1"
    using monitor_step.inspect[OF assms(2,3,1), of S md5] assms(5,8) by simp
  moreover have "find_process cmd (watched st) = None"
    using parse_show_int[OF assms(9,10)] cmd(1) assms(4) by (simp add: find_process_def)
  then have "monitor_step cfg S md5 ?st1 ?st2"
    using monitor_step.receive[of ?st1 cmd "[]" cfg S md5] assms(6,7) by simp
  moreover have "monitor_step cfg S md5 ?st2 ?st3"
    using monitor_step.insert[of ?st2 pid p cfg S md5] by simp
  ultimately have "(monitor_step cfg S md5)\<^sup>*\<^sup>* st ?st3" by (meson steps_trans rtranclp.rtrancl_refl)
  then show ?thesis using cmd(2) p(2) by (intro conjI exI[of _ ?st3]) simp_all
qed

theorem auto_attach_may_be_lost_witness:
  "\<exists>st'. (monitor_step sample_config sample_rasp id)\<^sup>*\<^sup>* ((plugin_init sample_thread_rasp)\<lparr>pid_queue := [7]\<rparr>) st' \<and>
    watched st' 7 = Some sample_watched \<and> commands st' = [] \<and> operator st' = sample_thread_rasp"
proof -
  have inspect: "inspect_process id sample_detectors (filters sample_config) (Some sample_process) 7 = Inr (Some (sample_watched, [sample_command]))"
    using sample_inspect by (simp add: sample_config_def)
  show ?thesis
    using auto_attach_may_be_lost[OF inspect, of "(plugin_init sample_thread_rasp)\<lparr>pid_queue := [7]\<rparr>" sample_rasp id]
    by (auto simp: plugin_init_def sample_config_def)
qed

end
