(* ===== verification/Rasp_Server.thy ===== *)
theory Rasp_Server
  imports Rasp_Manager "HOL-Library.Sublist"
begin

section \<open>The RASP server\<close>

text \<open>
  The crate \<^verbatim>\<open>src/rasp/rasp_server/src\<close>: the messages of the probes (\<^verbatim>\<open>proto.rs\<close>), the threads that pass them on
  when the server is a process of its own (\<^verbatim>\<open>process_mode.rs\<close>), and the socket server itself with the table of its
  connections (\<^verbatim>\<open>comm.rs\<close>), whose tasks are a step relation. The JSON encoder and parser, the printing of floating point
  numbers and the conversion of bytes to a string are the fields of \<open>json_sys\<close>; the codec of the frames, procfs and the socket are
  parameters. Waits and log lines are left out.
\<close>

unbundle bit_operations_syntax

subsection \<open>Lengths of frames\<close>

definition four_bytes_to_num :: "byte \<times> byte \<times> byte \<times> byte \<Rightarrow> u64" where
  "four_bytes_to_num a = (case a of (a0, a1, a2, a3) \<Rightarrow>
     ucast (push_bit 24 (ucast a0 :: u32) + push_bit 16 (ucast a1) + push_bit 8 (ucast a2) + push_bit 0 (ucast a3)))"

definition num_to_four_bytes :: "u64 \<Rightarrow> byte \<times> byte \<times> byte \<times> byte" where
  "num_to_four_bytes x =
     (ucast (drop_bit 24 x AND 0xff), ucast (drop_bit 16 x AND 0xff), ucast (drop_bit 8 x AND 0xff), ucast (x AND 0xff))"

subsection \<open>Messages of probes\<close>

record JarData =
  jar_path :: bytes
  implementation_title :: "bytes option"
  implementation_version :: "bytes option"
  specification_tittle :: "bytes option"
  specification_version :: "bytes option"

record GolangReplace =
  gr_path :: "bytes option"
  gr_sum :: "bytes option"
  gr_version :: "bytes option"

record GolangDep =
  gd_path :: "bytes option"
  gd_sum :: "bytes option"
  gd_version :: "bytes option"
  gd_replace :: "GolangReplace option"

record GolangDepData =
  deps :: "GolangDep list option"
  main_deps :: "GolangDep list option"
  go_path :: "bytes option"

record ProbeData =
  args :: "bytes list option"
  method_id :: "u32 option"
  class_id :: "u32 option"
  stack_trace :: "bytes list option"
  async_stack_trace :: "bytes list list option"
  probe_action :: "u32 option"
  probe_config :: "bytes option"
  jars :: "JarData list option"
  golang :: "GolangDepData option"
  request :: "bytes option"
  blocked :: "bool option"

text \<open>The time of a message is a floating point number, given by its bits.\<close>

record Message =
  msg_pid :: int
  msg_runtime :: bytes
  msg_runtime_version :: bytes
  msg_probe_version :: bytes
  msg_type :: u32
  msg_time :: u64
  msg_data :: "ProbeData option"

record json_sys =
  to_json :: "Message \<Rightarrow> bytes"
  from_json :: "bytes \<Rightarrow> Message option"
  json_error :: "bytes \<Rightarrow> bytes"
  json_strings :: "bytes list \<Rightarrow> bytes"
  json_traces :: "bytes list list \<Rightarrow> bytes"
  json_string :: "bytes \<Rightarrow> bytes"
  json_jars :: "JarData list \<Rightarrow> bytes"
  show_f64 :: "u64 \<Rightarrow> bytes"

definition ProbeData_default :: ProbeData where
  "ProbeData_default = \<lparr>args = None, method_id = None, class_id = None, stack_trace = None, async_stack_trace = None,
     probe_action = None, probe_config = None, jars = None, golang = None, request = None, blocked = None\<rparr>"

definition ProbeData_new_config :: "bytes \<Rightarrow> ProbeData" where
  "ProbeData_new_config config_string = ProbeData_default\<lparr>probe_config := Some config_string\<rparr>"

definition ProbeData_new_action :: "u32 \<Rightarrow> ProbeData" where
  "ProbeData_new_action action = ProbeData_default\<lparr>probe_action := Some action\<rparr>"

definition insert_some :: "string \<Rightarrow> bytes option \<Rightarrow> patch \<Rightarrow> patch" where
  "insert_some k v m = (case v of None \<Rightarrow> m | Some v \<Rightarrow> m(ascii k \<mapsto> v))"

definition show_bool :: "bool \<Rightarrow> bytes" where
  "show_bool b = (if b then ascii ''true'' else ascii ''false'')"

definition ProbeData_to_hashmap :: "json_sys \<Rightarrow> ProbeData \<Rightarrow> patch" where
  "ProbeData_to_hashmap J d =
     insert_some ''blocked'' (map_option show_bool (blocked d))
    (insert_some ''jars'' (map_option (json_jars J) (jars d))
    (insert_some ''stack_trace'' (map_option (json_strings J) (stack_trace d))
    (insert_some ''request'' (map_option (json_string J) (request d))
    (insert_some ''async_stack_trace'' (map_option (json_traces J) (async_stack_trace d))
    (insert_some ''class_id'' (map_option (\<lambda>n. show_nat (unat n)) (class_id d))
    (insert_some ''method_id'' (map_option (\<lambda>n. show_nat (unat n)) (method_id d))
    (insert_some ''args'' (map_option (json_strings J) (args d)) Map.empty)))))))"

definition Message_default :: "u64 \<Rightarrow> Message" where
  "Message_default now = \<lparr>msg_pid = 0, msg_runtime = [], msg_runtime_version = [], msg_probe_version = [], msg_type = 0,
     msg_time = now, msg_data = None\<rparr>"

definition Message_new_config :: "u64 \<Rightarrow> bytes \<Rightarrow> Message" where
  "Message_new_config now config_string =
     (Message_default now)\<lparr>msg_data := Some (ProbeData_new_config config_string), msg_type := 3\<rparr>"

definition Message_new_action :: "u64 \<Rightarrow> u32 \<Rightarrow> Message" where
  "Message_new_action now action = (Message_default now)\<lparr>msg_data := Some (ProbeData_new_action action), msg_type := 4\<rparr>"

definition Message_to_hashmap :: "json_sys \<Rightarrow> Message \<Rightarrow> patch" where
  "Message_to_hashmap J m =
     [ascii ''pid'' \<mapsto> show_int (msg_pid m), ascii ''runtime'' \<mapsto> msg_runtime m, ascii ''runtime_version'' \<mapsto> msg_runtime_version m,
      ascii ''message_type'' \<mapsto> show_nat (unat (msg_type m)), ascii ''rasp_timestamp'' \<mapsto> show_f64 J (msg_time m),
      ascii ''probe_version'' \<mapsto> msg_probe_version m]
     ++ (case msg_data m of None \<Rightarrow> Map.empty | Some d \<Rightarrow> ProbeData_to_hashmap J d)"

text \<open>What the handler answers, and the line it prints.\<close>

definition heartbeat_handle :: "json_sys \<Rightarrow> Message \<Rightarrow> (bytes + bytes) \<times> bytes" where
  "heartbeat_handle J m = (Inr (to_json J m), ascii ''heart_beat:'' @ to_json J m @ [0x0a])"

definition probe_report :: "json_sys \<Rightarrow> Message \<Rightarrow> bytes option \<times> bytes" where
  "probe_report J m = (None, ascii ''probe_report:'' @ to_json J m @ [0x0a])"

definition jar_report :: "json_sys \<Rightarrow> Message \<Rightarrow> (bytes + bytes) \<times> bytes" where
  "jar_report J m = (Inr [], ascii ''jar:'' @ to_json J m @ [0x0a])"

definition message_handle :: "json_sys \<Rightarrow> bytes \<Rightarrow> (bytes + bytes) \<times> bytes" where
  "message_handle J message =
     (case from_json J message of
        None \<Rightarrow> (Inl (json_error J message), [])
      | Some m \<Rightarrow>
          if msg_type m = 1 then heartbeat_handle J m
          else if msg_type m = 2 then
            (case probe_report J m of (Some e, out) \<Rightarrow> (Inl e, out) | (None, out) \<Rightarrow> (Inr [], out))
          else if msg_type m = 5 then
            (case jar_report J m of (Inr _, out) \<Rightarrow> (Inr [], out) | (Inl e, out) \<Rightarrow> (Inl e, out))
          else (Inl (ascii ''bad message type''), []))"

subsection \<open>The server as a process\<close>

definition parse_server_stdout :: "json_sys \<Rightarrow> bytes \<Rightarrow> patch option" where
  "parse_server_stdout J buf =
     (case splitn 2 0x3a buf of
        [kind, rest] \<Rightarrow>
          if kind \<in> {ascii ''probe_report'', ascii ''heart_beat'', ascii ''jar''}
          then map_option (Message_to_hashmap J) (from_json J rest)
          else None
      | _ \<Rightarrow> None)"

record rasp_record =
  rr_type :: int
  rr_time :: int
  rr_fields :: patch

definition Record_new :: rasp_record where
  "Record_new = \<lparr>rr_type = 0, rr_time = 0, rr_fields = Map.empty\<rparr>"

text \<open>The record that the sending thread makes of a line.\<close>

definition comm_record :: "json_sys \<Rightarrow> (bytes \<rightharpoonup> patch) \<Rightarrow> bytes \<Rightarrow> rasp_record option" where
  "comm_record J patches buf =
     (case parse_server_stdout J buf of
        None \<Rightarrow> None
      | Some message_from_probe \<Rightarrow>
          let nspid = (case message_from_probe (ascii ''pid'') of Some nspid \<Rightarrow> nspid | None \<Rightarrow> []) in
          let patched = (case patches nspid of Some patch \<Rightarrow> message_from_probe ++ patch | None \<Rightarrow> message_from_probe) in
          Some (Record_new\<lparr>rr_fields := patched\<rparr>))"

text \<open>The two threads of \<open>process_comm\<close>: a turn has the values of the two controls, and what the read or the receive gives. A line read is
  empty at the end of the stream. The flag of the result of a send or write is part of the turn.\<close>

record 'a turn =
  global_on :: bool
  child_on :: bool
  input :: 'a
  accepted :: bool

fun comm_send :: "json_sys \<Rightarrow> (bytes \<rightharpoonup> patch) \<Rightarrow> bytes option turn list \<Rightarrow> rasp_record list" where
  "comm_send J patches [] = []"
| "comm_send J patches (t # ts) =
     (if \<not> global_on t \<or> \<not> child_on t then []
      else case input t of
        None \<Rightarrow> []
      | Some buf \<Rightarrow>
          if buf = [] then []
          else (case comm_record J patches buf of
                  None \<Rightarrow> comm_send J patches ts
                | Some r \<Rightarrow> if accepted t then r # comm_send J patches ts else []))"

datatype try_recv = Received bytes | Empty | Disconnected

fun comm_recv :: "try_recv turn list \<Rightarrow> bytes" where
  "comm_recv [] = []"
| "comm_recv (t # ts) =
     (if \<not> global_on t \<or> \<not> child_on t then []
      else case input t of
        Received line \<Rightarrow> if accepted t then line @ [0x0a] @ comm_recv ts else []
      | Empty \<Rightarrow> comm_recv ts
      | Disconnected \<Rightarrow> [])"

text \<open>Lines of the standard input that are a probe configuration are passed on with their process.\<close>

fun listen_stdin :: "(bytes \<Rightarrow> int option) \<Rightarrow> bytes option list \<Rightarrow> (int \<times> bytes) list" where
  "listen_stdin config_pid [] = []"
| "listen_stdin config_pid (None # ls) = []"
| "listen_stdin config_pid (Some l # ls) =
     (case config_pid l of None \<Rightarrow> listen_stdin config_pid ls | Some pid \<Rightarrow> (pid, l) # listen_stdin config_pid ls)"

subsection \<open>The connections\<close>

text \<open>A connection has the reading end of its channel; the pair in the table has the sending end, so that a connection without pair receives
  what is left in the channel and then the end. \<open>written\<close> is what was sent to the probe. The two steps of the
  cleaner have their own locks: \<open>dirty\<close> are the processes it has found in the first.\<close>

record conn =
  conn_pid :: int
  conn_ctrl :: bool
  conn_open :: bool
  inbox :: "bytes list"
  written :: "bytes list"
  patch_r :: patch
  final_patch :: patch

record server =
  pairs :: "int \<rightharpoonup> nat"
  conns :: "nat \<rightharpoonup> conn"
  next_conn :: nat
  server_ctrl :: bool
  dirty :: "int list"
  dispatched :: "(int \<times> bytes) list"
  to_agent :: "rasp_record list"

definition CHANNEL :: nat where
  "CHANNEL = 5"

definition server_init :: server where
  "server_init = \<lparr>pairs = Map.empty, conns = Map.empty, next_conn = 0, server_ctrl = True, dirty = [], dispatched = [], to_agent = []\<rparr>"

definition new_pair :: "int \<Rightarrow> server \<Rightarrow> server" where
  "new_pair pid s = s\<lparr>pairs := (pairs s)(pid \<mapsto> next_conn s),
     conns := (conns s)(next_conn s \<mapsto> \<lparr>conn_pid = pid, conn_ctrl = True, conn_open = True, inbox = [], written = [],
       patch_r = Map.empty, final_patch = Map.empty\<rparr>),
     next_conn := next_conn s + 1\<rparr>"

definition update_conn :: "nat \<Rightarrow> (conn \<Rightarrow> conn) \<Rightarrow> server \<Rightarrow> server" where
  "update_conn n f s = s\<lparr>conns := (case conns s n of None \<Rightarrow> conns s | Some c \<Rightarrow> (conns s)(n \<mapsto> f c))\<rparr>"

text \<open>The stop of a connection: its task returns, its control is off.\<close>

definition stop_conn :: "nat \<Rightarrow> server \<Rightarrow> server" where
  "stop_conn n = update_conn n (\<lambda>c. c\<lparr>conn_ctrl := False, conn_open := False\<rparr>)"

text \<open>The dispatcher waits while the channel is full, and a message for a connection that is gone is lost.\<close>

definition dispatch :: "int \<Rightarrow> bytes \<Rightarrow> server \<Rightarrow> server option" where
  "dispatch pid message s =
     (let s' = s\<lparr>dispatched := dispatched s @ [(pid, message)]\<rparr> in
      case pairs s pid of
        None \<Rightarrow> Some s'
      | Some n \<Rightarrow>
          (case conns s n of
             None \<Rightarrow> Some s'
           | Some c \<Rightarrow>
               if \<not> conn_open c then Some s'
               else if length (inbox c) < CHANNEL then Some (update_conn n (\<lambda>c. c\<lparr>inbox := inbox c @ [message]\<rparr>) s')
               else None))"

definition is_dirty :: "server \<Rightarrow> int \<Rightarrow> bool" where
  "is_dirty s pid = (case Option.bind (pairs s pid) (conns s) of None \<Rightarrow> False | Some c \<Rightarrow> \<not> conn_ctrl c)"

definition clean_collect :: "int list \<Rightarrow> server \<Rightarrow> server" where
  "clean_collect keys s = s\<lparr>dirty := filter (is_dirty s) keys\<rparr>"

definition clean_remove :: "server \<Rightarrow> server" where
  "clean_remove s = s\<lparr>pairs := (\<lambda>pid. if pid \<in> set (dirty s) then None else pairs s pid), dirty := []\<rparr>"

definition stop_all :: "server \<Rightarrow> server" where
  "stop_all s = s\<lparr>conns := (\<lambda>n. map_option (\<lambda>c. if n \<in> ran (pairs s) then c\<lparr>conn_ctrl := False\<rparr> else c) (conns s n))\<rparr>"

text \<open>A turn of \<open>looping\<close> that takes a message for the probe, and one that takes a frame of the probe.\<close>

definition take_message :: "nat \<Rightarrow> bool \<Rightarrow> server \<Rightarrow> server option" where
  "take_message n sent s =
     (case conns s n of
        None \<Rightarrow> None
      | Some c \<Rightarrow>
          if \<not> conn_open c then None
          else (case inbox c of
                  m # ms \<Rightarrow>
                    Some (if sent then update_conn n (\<lambda>c. c\<lparr>inbox := ms, written := written c @ [m]\<rparr>) s
                          else stop_conn n (update_conn n (\<lambda>c. c\<lparr>inbox := ms\<rparr>) s))
                | [] \<Rightarrow> if n \<in> ran (pairs s) then None else Some (stop_conn n s)))"

definition frame_record :: "int \<Rightarrow> conn \<Rightarrow> bytes \<Rightarrow> rasp_record" where
  "frame_record now c message =
     (let fields = (if final_patch c \<noteq> Map.empty then final_patch c else patch_r c) in
      \<lparr>rr_type = 2439, rr_time = now,
       rr_fields = fields(ascii ''pid'' \<mapsto> show_int (conn_pid c), ascii ''RASP_DATA'' \<mapsto> message)\<rparr>)"

definition take_frame :: "nat \<Rightarrow> bytes option \<Rightarrow> int \<Rightarrow> bool \<Rightarrow> server \<Rightarrow> server option" where
  "take_frame n frame now sent s =
     (case conns s n of
        None \<Rightarrow> None
      | Some c \<Rightarrow>
          if \<not> conn_open c then None
          else (case frame of
                  None \<Rightarrow> Some (stop_conn n s)
                | Some message \<Rightarrow>
                    let s = update_conn n (\<lambda>c. c\<lparr>final_patch := if final_patch c \<noteq> Map.empty then final_patch c else patch_r c\<rparr>) s in
                    if sent then Some (s\<lparr>to_agent := to_agent s @ [frame_record now c message]\<rparr>) else Some (stop_conn n s)))"

text \<open>The fields that \<open>generate_patch\<close> reads of a process.\<close>

record proc_stat =
  ps_session :: int
  ps_ppid :: int
  ps_tpgid :: int
  ps_exe :: "bytes option"
  ps_cmdline :: "bytes list option"
  ps_ids :: "ids option"

definition join_space :: "bytes list \<Rightarrow> bytes" where
  "join_space ws = (case ws of [] \<Rightarrow> [] | w # ws \<Rightarrow> foldl (\<lambda>acc w. acc @ [0x20] @ w) w ws)"

definition generate_patch :: "proc_stat option \<Rightarrow> patch option" where
  "generate_patch proc =
     (case proc of
        None \<Rightarrow> None
      | Some p \<Rightarrow>
          Some ([ascii ''sid'' \<mapsto> show_int (ps_session p), ascii ''ppid'' \<mapsto> show_int (ps_ppid p), ascii ''tgid'' \<mapsto> show_int (ps_tpgid p),
                 ascii ''exe'' \<mapsto> (case ps_exe p of Some e \<Rightarrow> e | None \<Rightarrow> []),
                 ascii ''argv'' \<mapsto> (case ps_cmdline p of Some cv \<Rightarrow> join_space cv | None \<Rightarrow> [])]
                ++ (case ps_ids p of
                      None \<Rightarrow> Map.empty
                    | Some i \<Rightarrow> [ascii ''ruid'' \<mapsto> show_nat (unat (ruid i)), ascii ''rgid'' \<mapsto> show_nat (unat (rgid i)),
                        ascii ''euid'' \<mapsto> show_nat (unat (euid i)), ascii ''egid'' \<mapsto> show_nat (unat (egid i)),
                        ascii ''suid'' \<mapsto> show_nat (unat (suid i)), ascii ''sgid'' \<mapsto> show_nat (unat (sgid i)),
                        ascii ''fuid'' \<mapsto> show_nat (unat (fuid i)), ascii ''fgid'' \<mapsto> show_nat (unat (fgid i))])))"

inductive server_step :: "server \<Rightarrow> server \<Rightarrow> bool" where
  accept: "server_step s (new_pair pid s)"
| receive: "server_ctrl s \<Longrightarrow> dispatch pid message s = Some s' \<Longrightarrow> server_step s s'"
| collect: "server_ctrl s \<Longrightarrow> server_step s (clean_collect keys s)" if "set keys = dom (pairs s)"
| remove: "server_step s (clean_remove s)"
| quit: "\<not> server_ctrl s \<Longrightarrow> server_step s (stop_all s)"
| gone: "server_step s (s\<lparr>server_ctrl := False\<rparr>)"
| to_probe: "take_message n sent s = Some s' \<Longrightarrow> server_step s s'"
| from_probe: "take_frame n frame now sent s = Some s' \<Longrightarrow> server_step s s'"
| patched: "generate_patch proc = Some p \<Longrightarrow> server_step s (update_conn n (\<lambda>c. c\<lparr>patch_r := patch_r c ++ p\<rparr>) s)"

abbreviation server_reachable :: "server \<Rightarrow> bool" where
  "server_reachable s \<equiv> server_step\<^sup>*\<^sup>* server_init s"

subsection \<open>Properties of the messages\<close>

lemma ucast_nat: "ucast (a :: byte) = (of_nat (unat a) :: u32)"
  by (simp only: word_unat_eq_iff unsigned_ucast_eq unsigned_of_nat of_nat_id)

lemma unat_small:
  assumes "n < 2 ^ 32"
  shows "unat (ucast (of_nat n :: u32) :: u64) = n"
proof -
  have "take_bit LENGTH(32) n = n" "take_bit LENGTH(64) n = n"
    by (rule take_bit_nat_eq_self, rule less_le_trans[OF assms], simp)+
  then show ?thesis by (simp only: unsigned_ucast_eq unsigned_of_nat of_nat_id)
qed

lemma byte_less: "unat (b :: byte) < 256"
  using unsigned_less[of b, where 'a = nat] by simp

lemma four_bytes_unat:
  "unat (four_bytes_to_num (a, b, c, d)) = unat a * 2 ^ 24 + unat b * 2 ^ 16 + unat c * 2 ^ 8 + unat d"
proof -
  let ?n = "unat a * 2 ^ 24 + unat b * 2 ^ 16 + unat c * 2 ^ 8 + unat d"
  have "push_bit 24 (ucast a :: u32) + push_bit 16 (ucast b) + push_bit 8 (ucast c) + push_bit 0 (ucast d) = of_nat ?n"
    by (simp only: push_bit_eq_mult ucast_nat of_nat_add of_nat_mult of_nat_power of_nat_numeral power_0 mult_1_right)
  then have num: "four_bytes_to_num (a, b, c, d) = ucast (of_nat ?n :: u32)"
    by (simp only: four_bytes_to_num_def prod.case)
  have "i * 16777216 + j * 65536 + k * 256 + l < (4294967296 :: nat)" if "i < 256" "j < 256" "k < 256" "l < 256" for i j k l
    using that by linarith
  from this[OF byte_less byte_less byte_less byte_less, of a b c d] have "?n < 2 ^ 32" by simp
  then show ?thesis unfolding num by (rule unat_small)
qed

lemma byte_unat: "unat (ucast (x AND 0xff :: u64) :: byte) = unat x mod 256"
proof -
  have low: "x AND 0xff = take_bit 8 x" unfolding take_bit_eq_mask mask_eq_exp_minus_1 by simp
  have "unat x mod 2 ^ 8 mod 2 ^ 8 = unat x mod 256" by simp
  then show ?thesis unfolding low unsigned_ucast_eq unsigned_take_bit_eq by (simp add: take_bit_eq_mod)
qed

lemma unat_drop: "unat (drop_bit n (x :: u64)) = unat x div 2 ^ n"
proof -
  have "take_bit LENGTH(64) (unat x) = unat x"
    by (rule take_bit_nat_eq_self) (rule unsigned_less)
  then show ?thesis unfolding unsigned_drop_bit_eq by (simp only: drop_bit_eq_div)
qed

lemma digit: "d < 256 \<Longrightarrow> (q * 256 + d) div 256 = q" "d < 256 \<Longrightarrow> (q * 256 + d) mod 256 = (d :: nat)"
  by simp_all

lemma div_256:
  fixes n :: nat
  shows "n div 2 ^ 8 = n div 256" "n div 2 ^ 16 = n div 256 div 256" "n div 2 ^ 24 = n div 256 div 256 div 256"
proof -
  have "n div 2 ^ 16 = n div (256 * 256)" by simp
  then show two: "n div 2 ^ 16 = n div 256 div 256" by (simp only: div_mult2_eq)
  have "n div 2 ^ 24 = n div (256 * 256 * 256)" by simp
  then show "n div 2 ^ 24 = n div 256 div 256 div 256" by (simp only: div_mult2_eq)
qed simp

lemma horner: "256 * (256 * (256 * a + b) + c) + d = a * 2 ^ 24 + b * 2 ^ 16 + c * 2 ^ 8 + (d :: nat)"
  by simp

lemma mod_base_256:
  fixes n :: nat
  shows "n mod 2 ^ 32 = n div 2 ^ 24 mod 256 * 2 ^ 24 + n div 2 ^ 16 mod 256 * 2 ^ 16 + n div 2 ^ 8 mod 256 * 2 ^ 8 + n mod 256"
proof -
  have exps: "(2 :: nat) ^ 32 = 256 * (256 * (256 * 256))" by simp
  show ?thesis
    unfolding exps mod_mult2_eq div_256 by (rule horner)
qed

lemma base_256:
  fixes a b c d :: nat
  assumes "a < 256" "b < 256" "c < 256" "d < 256"
  defines "n \<equiv> a * 2 ^ 24 + b * 2 ^ 16 + c * 2 ^ 8 + d"
  shows "n div 2 ^ 24 mod 256 = a" "n div 2 ^ 16 mod 256 = b" "n div 2 ^ 8 mod 256 = c" "n mod 256 = d"
proof -
  have n: "n = ((a * 256 + b) * 256 + c) * 256 + d" by (simp add: n_def)
  have one: "n div 256 = (a * 256 + b) * 256 + c" unfolding n by (rule digit[OF assms(4)])
  have two: "n div 256 div 256 = a * 256 + b" unfolding one by (rule digit[OF assms(3)])
  have three: "n div 256 div 256 div 256 = a" unfolding two by (rule digit[OF assms(2)])
  show "n div 2 ^ 24 mod 256 = a" unfolding div_256 three using assms(1) by simp
  show "n div 2 ^ 16 mod 256 = b" unfolding div_256 two by (rule digit[OF assms(2)])
  show "n div 2 ^ 8 mod 256 = c" unfolding div_256 one by (rule digit[OF assms(3)])
  show "n mod 256 = d" unfolding n by (rule digit[OF assms(4)])
qed

text \<open>The length of a frame survives its four bytes: every four bytes are the bytes of their number, and a number comes back
  modulo \<open>2\<^sup>3\<^sup>2\<close>.\<close>

theorem frame_length_roundtrip:
  "num_to_four_bytes (four_bytes_to_num a) = a \<and> four_bytes_to_num (num_to_four_bytes x) = x AND 0xffffffff"
proof
  obtain a0 a1 a2 a3 where a: "a = (a0, a1, a2, a3)" by (metis prod_cases4)
  show "num_to_four_bytes (four_bytes_to_num a) = a"
    unfolding num_to_four_bytes_def a prod.inject word_unat_eq_iff byte_unat unat_drop four_bytes_unat
    by (intro conjI base_256 byte_less)
  have low: "x AND 0xffffffff = take_bit 32 x" unfolding take_bit_eq_mask mask_eq_exp_minus_1 by simp
  have "unat (four_bytes_to_num (num_to_four_bytes x)) = unat x mod 2 ^ 32"
    unfolding num_to_four_bytes_def four_bytes_unat byte_unat unat_drop by (rule mod_base_256[symmetric])
  then show "four_bytes_to_num (num_to_four_bytes x) = x AND 0xffffffff"
    unfolding low word_unat_eq_iff unsigned_take_bit_eq by (simp only: take_bit_eq_mod)
qed

text \<open>The identity of the process in a message is not overwritten by the data of the probe.\<close>

lemma probe_data_keys:
  assumes "k \<notin> ascii ` {''args'', ''method_id'', ''class_id'', ''async_stack_trace'', ''request'', ''stack_trace'', ''jars'', ''blocked''}"
  shows "ProbeData_to_hashmap J d k = None"
  using assms by (simp add: ProbeData_to_hashmap_def insert_some_def del: ascii_Cons split: option.split)

lemma message_pid: "Message_to_hashmap J m (ascii ''pid'') = Some (show_int (msg_pid m))"
proof -
  have "ProbeData_to_hashmap J d (ascii ''pid'') = None" for d
    by (rule probe_data_keys) simp
  then show ?thesis by (simp add: Message_to_hashmap_def map_add_def split: option.split)
qed

lemma parse_line:
  assumes "kind \<in> {ascii ''probe_report'', ascii ''heart_beat'', ascii ''jar''}"
  shows "parse_server_stdout J (kind @ [0x3a] @ rest) = map_option (Message_to_hashmap J) (from_json J rest)"
proof -
  have one: "splitn 1 sep bs = [bs]" for sep bs by (induction bs) simp_all
  have "splitn 2 sep (k @ [sep] @ bs) = [k, bs]" if "sep \<notin> set k" for sep k bs
    using that by (induction k) (auto simp: one[unfolded One_nat_def] numeral_2_eq_2)
  moreover have "0x3a \<notin> set kind" using assms by auto
  ultimately show ?thesis using assms by (simp add: parse_server_stdout_def del: ascii_Cons)
qed

definition sample_message :: Message where
  "sample_message = \<lparr>msg_pid = 3, msg_runtime = ascii ''JVM'', msg_runtime_version = ascii ''11'', msg_probe_version = ascii ''1'', msg_type = 2,
     msg_time = 0, msg_data = None\<rparr>"

definition sample_json :: json_sys where
  "sample_json = \<lparr>to_json = (\<lambda>m. ascii ''{}''), from_json = (\<lambda>t. if starts_with t (ascii ''{}'') then Some sample_message else None),
     json_error = id, json_strings = concat, json_traces = (\<lambda>t. []), json_string = id, json_jars = (\<lambda>j. []), show_f64 = (\<lambda>b. ascii ''0'')\<rparr>"

lemma sample_parse: "from_json sample_json (ascii ''{}'' @ rest) = Some sample_message"
  by (simp add: sample_json_def starts_with_def)

text \<open>In the process mode, a line that a probe sends from the namespace of a process becomes a record with the identity, the executable and the
  command line that the plugin knows of that process, and with the fields of the message otherwise; the record has no data type.\<close>

theorem record_has_host_identity:
  assumes "kind \<in> {ascii ''probe_report'', ascii ''heart_beat'', ascii ''jar''}" "from_json J rest = Some m" "msg_pid m = nspid"
  shows "comm_record J (patch_field (RASPServerProcess_new pid (patch_of p nspid))) (kind @ [0x3a] @ rest) =
    Some \<lparr>rr_type = 0, rr_time = 0, rr_fields = Message_to_hashmap J m ++ patch_of p nspid\<rparr> \<and>
    (Message_to_hashmap J m ++ patch_of p nspid) (ascii ''pid'') = Some (show_int (pi_pid p))"
proof
  have "patch_of p nspid (ascii ''nspid'') = Some (show_int nspid)" by (simp add: patch_of_def)
  then show "comm_record J (patch_field (RASPServerProcess_new pid (patch_of p nspid))) (kind @ [0x3a] @ rest) =
    Some \<lparr>rr_type = 0, rr_time = 0, rr_fields = Message_to_hashmap J m ++ patch_of p nspid\<rparr>"
    using assms parse_line[OF assms(1), of J rest]
    by (simp add: comm_record_def message_pid RASPServerProcess_new_def update_patch_field_def Record_new_def del: ascii_Cons)
  show "(Message_to_hashmap J m ++ patch_of p nspid) (ascii ''pid'') = Some (show_int (pi_pid p))"
    by (simp add: map_add_def patch_of_def)
qed

theorem record_has_host_identity_witness:
  "\<exists>r. comm_record sample_json (patch_field (RASPServerProcess_new 42 (patch_of (ProcessInfo_new 42) 3))) (ascii ''jar:{}'') = Some r \<and>
     rr_type r = 0 \<and> rr_fields r (ascii ''pid'') = Some (show_int 42)"
proof -
  have line: "ascii ''jar:{}'' = ascii ''jar'' @ [0x3a] @ ascii ''{}''" by simp
  have m: "from_json sample_json (ascii ''{}'') = Some sample_message" "msg_pid sample_message = 3"
    using sample_parse[of "[]"] by (simp_all add: sample_message_def)
  have "pi_pid (ProcessInfo_new 42) = 42" by (simp add: ProcessInfo_new_def)
  with record_has_host_identity[OF _ m, of "ascii ''jar''" 42 "ProcessInfo_new 42"] show ?thesis
    unfolding line by (auto simp del: ascii_Cons)
qed

subsection \<open>Properties of the connections\<close>

text \<open>What was sent to a probe, and what still waits for it, is part of what was dispatched to its process, in the same order.\<close>

definition for_pid :: "int \<Rightarrow> (int \<times> bytes) list \<Rightarrow> bytes list" where
  "for_pid pid ms = map snd (filter (\<lambda>(p, _). p = pid) ms)"

definition conn_ok :: "(int \<times> bytes) list \<Rightarrow> conn \<Rightarrow> bool" where
  "conn_ok ms c \<longleftrightarrow> subseq (written c @ inbox c) (for_pid (conn_pid c) ms)"

definition server_ok :: "server \<Rightarrow> bool" where
  "server_ok s \<longleftrightarrow>
     (\<forall>n c. conns s n = Some c \<longrightarrow> n < next_conn s \<and> conn_ok (dispatched s) c) \<and>
     (\<forall>pid n. pairs s pid = Some n \<longrightarrow> (\<exists>c. conns s n = Some c \<and> conn_pid c = pid))"

lemma for_pid_snoc: "for_pid pid (ms @ [(p, m)]) = for_pid pid ms @ (if p = pid then [m] else [])"
  by (simp add: for_pid_def)

lemma conn_ok_later: "conn_ok ms c \<Longrightarrow> conn_ok (ms @ [e]) c"
  by (cases e) (auto simp: conn_ok_def for_pid_snoc intro: subseq_rev_drop_many)

lemma conn_ok_same: "conn_ok ms c \<Longrightarrow> conn_pid c' = conn_pid c \<Longrightarrow> written c' @ inbox c' = written c @ inbox c \<Longrightarrow> conn_ok ms c'"
  by (simp add: conn_ok_def)

lemma conn_ok_drop:
  "conn_ok ms c \<Longrightarrow> inbox c = m # rest \<Longrightarrow> conn_pid c' = conn_pid c \<Longrightarrow> written c' = written c \<Longrightarrow> inbox c' = rest \<Longrightarrow> conn_ok ms c'"
proof -
  assume c: "conn_ok ms c" "inbox c = m # rest" "conn_pid c' = conn_pid c" "written c' = written c" "inbox c' = rest"
  have "subseq (written c @ rest) (written c @ m # rest)" by (intro list_emb_append_mono) auto
  then show ?thesis using c unfolding conn_ok_def by (metis subseq_order.order_trans)
qed

lemma update_conn_ok:
  assumes "server_ok s" "\<And>c. conns s n = Some c \<Longrightarrow> conn_ok (dispatched s) c \<Longrightarrow> conn_ok (dispatched s) (f c) \<and> conn_pid (f c) = conn_pid c"
  shows "server_ok (update_conn n f s)"
proof (cases "conns s n")
  case (Some c)
  then have c: "n < next_conn s" "conn_ok (dispatched s) (f c)" "conn_pid (f c) = conn_pid c"
    using assms unfolding server_ok_def by blast+
  have "n' < next_conn s \<and> conn_ok (dispatched s) c'" if "((conns s)(n \<mapsto> f c)) n' = Some c'" for n' c'
    using that c assms(1) by (cases "n' = n") (auto simp: server_ok_def)
  moreover have "\<exists>c'. ((conns s)(n \<mapsto> f c)) n' = Some c' \<and> conn_pid c' = pid" if "pairs s pid = Some n'" for pid n'
    using that c assms(1) Some unfolding server_ok_def by (cases "n' = n") fastforce+
  ultimately show ?thesis using Some by (simp add: server_ok_def update_conn_def)
qed (use assms in \<open>simp add: update_conn_def\<close>)

lemma stop_conn_ok: "server_ok s \<Longrightarrow> server_ok (stop_conn n s)"
  unfolding stop_conn_def by (rule update_conn_ok) (auto intro: conn_ok_same)

lemma new_pair_ok: "server_ok s \<Longrightarrow> server_ok (new_pair pid s)"
proof -
  assume ok: "server_ok s"
  let ?c = "\<lparr>conn_pid = pid, conn_ctrl = True, conn_open = True, inbox = [], written = [], patch_r = Map.empty, final_patch = Map.empty\<rparr>"
  have "n < next_conn s + 1 \<and> conn_ok (dispatched s) c" if "((conns s)(next_conn s \<mapsto> ?c)) n = Some c" for n c
    using that ok by (cases "n = next_conn s") (auto simp: server_ok_def conn_ok_def less_SucI)
  moreover have "\<exists>c. ((conns s)(next_conn s \<mapsto> ?c)) n = Some c \<and> conn_pid c = p"
    if pair: "((pairs s)(pid \<mapsto> next_conn s)) p = Some n" for p n
  proof (cases "p = pid")
    case False
    then have "pairs s p = Some n" using pair by simp
    then obtain c where "conns s n = Some c" "conn_pid c = p" using ok unfolding server_ok_def by blast
    moreover from this have "n \<noteq> next_conn s" using ok unfolding server_ok_def by blast
    ultimately show ?thesis by simp
  qed (use pair in simp)
  ultimately show ?thesis by (simp add: server_ok_def new_pair_def)
qed

lemma dispatch_ok:
  assumes "server_ok s" "dispatch pid m s = Some s'"
  shows "server_ok s'"
proof -
  let ?s = "s\<lparr>dispatched := dispatched s @ [(pid, m)]\<rparr>"
  have later: "server_ok ?s" using assms(1) by (auto simp: server_ok_def intro: conn_ok_later)
  show ?thesis
  proof (cases "s' = ?s")
    case False
    then obtain n c where n: "pairs s pid = Some n" "conns s n = Some c" "s' = update_conn n (\<lambda>c. c\<lparr>inbox := inbox c @ [m]\<rparr>) ?s"
      using assms(2) by (auto simp: dispatch_def Let_def split: option.splits if_splits)
    have c: "conn_ok (dispatched s) c" "conn_pid c = pid" using assms(1) n(1,2) unfolding server_ok_def by fastforce+
    have "conn_ok (dispatched ?s) (c\<lparr>inbox := inbox c @ [m]\<rparr>)"
      using c by (auto simp: conn_ok_def for_pid_snoc simp flip: append_assoc intro: list_emb_append_mono)
    then have "server_ok (update_conn n (\<lambda>c. c\<lparr>inbox := inbox c @ [m]\<rparr>) ?s)"
      using n(2) by (intro update_conn_ok[OF later]) simp
    then show ?thesis using n(3) by simp
  qed (use later in simp)
qed

lemma take_message_ok:
  assumes "server_ok s" "take_message n sent s = Some s'"
  shows "server_ok s'"
proof -
  obtain c where c: "conns s n = Some c" using assms(2) by (auto simp: take_message_def split: option.splits)
  show ?thesis
  proof (cases "inbox c")
    case Nil
    then show ?thesis using assms c stop_conn_ok by (auto simp: take_message_def split: if_splits)
  next
    case (Cons m ms)
    have "server_ok (update_conn n (\<lambda>c. c\<lparr>inbox := ms, written := written c @ [m]\<rparr>) s)"
      using Cons c by (intro update_conn_ok[OF assms(1)]) (auto intro: conn_ok_same)
    moreover have "server_ok (update_conn n (\<lambda>c. c\<lparr>inbox := ms\<rparr>) s)"
      using Cons c by (intro update_conn_ok[OF assms(1)]) (auto intro: conn_ok_drop)
    ultimately show ?thesis using assms(2) Cons c stop_conn_ok by (auto simp: take_message_def split: if_splits)
  qed
qed

lemma take_frame_ok:
  assumes "server_ok s" "take_frame n frame now sent s = Some s'"
  shows "server_ok s'"
proof -
  let ?s = "update_conn n (\<lambda>c. c\<lparr>final_patch := if final_patch c \<noteq> Map.empty then final_patch c else patch_r c\<rparr>) s"
  have "server_ok ?s" by (rule update_conn_ok[OF assms(1)]) (auto intro: conn_ok_same)
  moreover have "server_ok (t\<lparr>to_agent := rs\<rparr>)" if "server_ok t" for t rs using that by (simp add: server_ok_def)
  ultimately show ?thesis
    using assms stop_conn_ok by (auto simp: take_frame_def Let_def split: option.splits if_splits)
qed

lemma stop_all_ok: "server_ok s \<Longrightarrow> server_ok (stop_all s)"
proof -
  assume ok: "server_ok s"
  have "conn_ok ms (c\<lparr>conn_ctrl := False\<rparr>) = conn_ok ms c" for ms c by (simp add: conn_ok_def)
  then have "n < next_conn s \<and> conn_ok (dispatched s) c" if "conns (stop_all s) n = Some c" for n c
    using ok that by (auto simp: server_ok_def stop_all_def split: if_splits)
  moreover have "\<exists>c. conns (stop_all s) n = Some c \<and> conn_pid c = pid" if pair: "pairs s pid = Some n" for pid n
  proof -
    obtain c where "conns s n = Some c" "conn_pid c = pid" using ok pair unfolding server_ok_def by blast
    then show ?thesis by (auto simp: stop_all_def)
  qed
  ultimately show ?thesis by (simp add: server_ok_def stop_all_def)
qed

lemma server_step_ok: "server_step s s' \<Longrightarrow> server_ok s \<Longrightarrow> server_ok s'"
proof (induction rule: server_step.induct)
  case (collect s keys)
  then show ?case by (simp add: server_ok_def clean_collect_def)
next
  case (remove s)
  then show ?case by (simp add: server_ok_def clean_remove_def)
next
  case (quit s)
  then show ?case by (blast intro: stop_all_ok)
next
  case (gone s)
  then show ?case by (simp add: server_ok_def)
next
  case (patched proc p s n)
  then show ?case by (auto intro!: update_conn_ok intro: conn_ok_same)
qed (auto intro: new_pair_ok dispatch_ok take_message_ok take_frame_ok)

interpretation connections: step_invariant server_step server_ok
  by unfold_locales (blast intro: server_step_ok)

text \<open>C15: However the tasks of the socket server interleave, the messages a connection has sent to its probe were all addressed to the
  process of that connection, and were sent in the order in which they came.\<close>

theorem probes_get_their_messages_in_order:
  assumes "server_reachable s" "conns s n = Some c"
  shows "subseq (written c) (for_pid (conn_pid c) (dispatched s))"
proof -
  have "server_ok server_init" by (simp add: server_ok_def server_init_def)
  then have "conn_ok (dispatched s) c"
    using connections.reachable[OF assms(1)] assms(2) by (auto simp: server_ok_def)
  moreover have "subseq (written c) (written c @ inbox c)" by (rule subseq_rev_drop_many) simp
  ultimately show ?thesis unfolding conn_ok_def using subseq_order.order_trans by blast
qed

theorem probes_get_their_messages_in_order_witness:
  "\<exists>s c. server_reachable s \<and> conns s 0 = Some c \<and> written c = [ascii ''m''] \<and> subseq [ascii ''m''] (for_pid 7 (dispatched s))"
proof -
  define c where "c = \<lparr>conn_pid = 7, conn_ctrl = True, conn_open = True, inbox = [], written = [ascii ''m''],
      patch_r = Map.empty, final_patch = Map.empty\<rparr>"
  define s1 where "s1 = new_pair 7 server_init"
  define s2 where "s2 = update_conn 0 (\<lambda>c. c\<lparr>inbox := [ascii ''m'']\<rparr>) (s1\<lparr>dispatched := [(7, ascii ''m'')]\<rparr>)"
  define s3 where "s3 = update_conn 0 (\<lambda>c. c\<lparr>inbox := [], written := [ascii ''m'']\<rparr>) s2"
  note states = s3_def s2_def s1_def new_pair_def update_conn_def server_init_def c_def
  have "server_step server_init s1" unfolding s1_def by (rule server_step.accept)
  moreover have "server_step s1 s2"
    by (rule server_step.receive[where pid = 7 and message = "ascii ''m''"]) (simp_all add: dispatch_def CHANNEL_def states)
  moreover have "server_step s2 s3"
    by (rule server_step.to_probe[where n = 0 and sent = True]) (simp add: take_message_def states)
  ultimately have run: "server_reachable s3" by (meson rtranclp.rtrancl_into_rtrancl rtranclp.rtrancl_refl)
  have conn: "conns s3 0 = Some c" by (simp add: states)
  show ?thesis using probes_get_their_messages_in_order[OF run conn] run conn by (auto simp: c_def)
qed

text \<open>C35: The cleaner can remove the pair of a connection that is in use: between the two locks it takes, the process may have connected
  again. The connection is then closed, as it has lost the sending end of its channel.\<close>

theorem cleaner_may_close_new_connection:
  "\<exists>s n c. server_reachable s \<and> conns s n = Some c \<and> conn_open c \<and> conn_ctrl c \<and> pairs s (conn_pid c) = None \<and>
     take_message n True s = Some (stop_conn n s)"
proof -
  define s1 where "s1 = new_pair 7 server_init"
  define s2 where "s2 = stop_conn 0 s1"
  define s3 where "s3 = clean_collect [7] s2"
  define s4 where "s4 = new_pair 7 s3"
  define s5 where "s5 = clean_remove s4"
  have st1: "server_step server_init s1" unfolding s1_def by (rule server_step.accept)
  have st2: "server_step s1 s2"
    by (rule server_step.from_probe[where n = 0 and frame = None])
       (simp add: take_frame_def s2_def s1_def new_pair_def server_init_def)
  have st3: "server_step s2 s3" unfolding s3_def
    by (rule server_step.collect) (auto simp: s2_def s1_def new_pair_def stop_conn_def update_conn_def server_init_def)
  have st4: "server_step s3 s4" unfolding s4_def by (rule server_step.accept)
  have st5: "server_step s4 s5" unfolding s5_def by (rule server_step.remove)
  note step = rtranclp.rtrancl_into_rtrancl[where r = server_step]
  have "server_reachable s5" by (rule step[OF step[OF step[OF step[OF r_into_rtranclp[of server_step, OF st1] st2] st3] st4] st5])
  moreover have "conns s5 1 = Some \<lparr>conn_pid = 7, conn_ctrl = True, conn_open = True, inbox = [], written = [],
      patch_r = Map.empty, final_patch = Map.empty\<rparr>" "pairs s5 = Map.empty"
    by (auto simp: s5_def s4_def s3_def s2_def s1_def clean_remove_def clean_collect_def is_dirty_def new_pair_def stop_conn_def
        update_conn_def server_init_def fun_eq_iff)
  ultimately show ?thesis by (intro exI[of _ s5] exI[of _ 1] exI conjI) (auto simp: take_message_def)
qed

end
