(* ===== verification/Rasp_Report.thy ===== *)
theory Rasp_Report
  imports Rasp_Monitor Rasp_Server Rasp_Probes Plugin_Client
begin

section \<open>Reports and messages of the RASP plugin\<close>

text \<open>
  \<^verbatim>\<open>utils.rs\<close>, \<^verbatim>\<open>report.rs\<close> and \<^verbatim>\<open>message.rs\<close> of \<^verbatim>\<open>src/rasp/plugin/src\<close>, and the threads of \<^verbatim>\<open>monitor.rs\<close> that send reports to the agent and take its
  messages: collect, external, reporter, and the reports of the inspection and the operation. The JSON encoder,
  the clock, the kernel parameters and the arithmetic of \<open>f32\<close> are fields of \<open>report_sys\<close>; HTTP and the file system are
  fields of \<open>patch_sys\<close>.
\<close>

subsection \<open>Reports\<close>

text \<open>\<open>f32_secs start ticks\<close> is \<open>(start / ticks) as i64 as u64\<close>; \<open>env_items\<close> is the order in which a map is iterated; \<open>json_os_env\<close> may fail.\<close>

record report_sys =
  rs_now :: u64
  rs_ticks :: "nat option"
  rs_boot_time :: "u64 option"
  f32_secs :: "nat \<Rightarrow> nat \<Rightarrow> u64"
  env_items :: "(bytes \<rightharpoonup> bytes) \<Rightarrow> (bytes \<times> bytes) list"
  json_env :: "(bytes \<rightharpoonup> bytes) \<Rightarrow> bytes"
  json_os_env :: "(bytes \<rightharpoonup> bytes) \<Rightarrow> bytes option"
  err_text :: "error \<Rightarrow> bytes"

definition generate_seq_id :: "report_sys \<Rightarrow> bytes" where
  "generate_seq_id R = show_nat (unat (rs_now R)) @ ascii ''-rand''"

text \<open>The subtraction wraps around, as it does in a release build.\<close>

definition count_uptime :: "report_sys \<Rightarrow> nat \<Rightarrow> u64 res" where
  "count_uptime R start_time =
     bind_res (the_or (rs_ticks R) IoError) (\<lambda>ticks.
     bind_res (the_or (rs_boot_time R) IoError) (\<lambda>boottime.
     Inr (rs_now R - f32_secs R start_time ticks - boottime)))"

definition uptime_text :: "report_sys \<Rightarrow> ProcessInfo \<Rightarrow> bytes" where
  "uptime_text R p =
     (case count_uptime R (case pi_start_time p of None \<Rightarrow> 0 | Some t \<Rightarrow> t) of
        Inr t \<Rightarrow> show_nat (unat t)
      | Inl _ \<Rightarrow> ascii ''0'')"

definition environ_string :: "report_sys \<Rightarrow> (bytes \<rightharpoonup> bytes) \<Rightarrow> bytes \<rightharpoonup> bytes" where
  "environ_string R environ =
     foldl (\<lambda>m (k, v). m(string_or_empty k \<mapsto> string_or_empty v)) Map.empty (env_items R environ)"

definition generate_heartbeat :: "report_sys \<Rightarrow> ProcessInfo \<Rightarrow> patch" where
  "generate_heartbeat R p =
     (let environ = (case pi_environ p of None \<Rightarrow> Map.empty | Some e \<Rightarrow> e);
          state = (case pi_tracing_state p of None \<Rightarrow> INSPECTED | Some s \<Rightarrow> s);
          runtime = (case pi_runtime p of None \<Rightarrow> \<lparr>rt_name = ascii ''unknown'', rt_version = ascii ''unknown''\<rparr> | Some r \<Rightarrow> r) in
      [ascii ''pid'' \<mapsto> show_int (pi_pid p), ascii ''cmdline'' \<mapsto> opt_bytes (pi_cmdline p), ascii ''exe_name'' \<mapsto> opt_bytes (pi_exe_name p),
       ascii ''current_config_hash'' \<mapsto> pi_current_config_hash p, ascii ''environ'' \<mapsto> json_env R (environ_string R environ),
       ascii ''trace_state'' \<mapsto> TracingState_fmt state, ascii ''runtime'' \<mapsto> rt_name runtime, ascii ''runtime_version'' \<mapsto> rt_version runtime,
       ascii ''attach_start_time'' \<mapsto> opt_bytes (pi_attach_start_time p), ascii ''attach_end_time'' \<mapsto> opt_bytes (pi_attach_end_time p),
       ascii ''failed_time'' \<mapsto> opt_bytes (pi_failed_time p), ascii ''missing_time'' \<mapsto> opt_bytes (pi_missing_time p),
       ascii ''try_attach_count'' \<mapsto> show_nat (unat (pi_try_attach_count p)), ascii ''attached_count'' \<mapsto> show_nat (unat (pi_attached_count p)),
       ascii ''uptime'' \<mapsto> uptime_text R p])"

definition make_report :: "report_sys \<Rightarrow> ProcessInfo \<Rightarrow> bytes \<Rightarrow> bytes \<Rightarrow> patch" where
  "make_report R p action reason =
     [ascii ''action'' \<mapsto> action, ascii ''reason'' \<mapsto> reason, ascii ''pid'' \<mapsto> show_int (pi_pid p), ascii ''cmdline'' \<mapsto> opt_bytes (pi_cmdline p)]
     ++ (case pi_environ p of None \<Rightarrow> Map.empty | Some envs \<Rightarrow> [ascii ''envs'' \<mapsto> opt_bytes (json_os_env R envs)])
     ++ [ascii ''tracing_state'' \<mapsto> (case pi_tracing_state p of Some st \<Rightarrow> TracingState_fmt st | None \<Rightarrow> []),
         ascii ''runtime'' \<mapsto> (case pi_runtime p of Some rt \<Rightarrow> Runtime_fmt rt | None \<Rightarrow> []),
         ascii ''attach_start_time'' \<mapsto> opt_bytes (pi_attach_start_time p), ascii ''attach_end_time'' \<mapsto> opt_bytes (pi_attach_end_time p),
         ascii ''failed_time'' \<mapsto> opt_bytes (pi_failed_time p), ascii ''missing_time'' \<mapsto> opt_bytes (pi_missing_time p),
         ascii ''try_attach_count'' \<mapsto> show_nat (unat (pi_try_attach_count p)), ascii ''attached_count'' \<mapsto> show_nat (unat (pi_attached_count p)),
         ascii ''uptime'' \<mapsto> uptime_text R p]"

definition hashmap_to_record :: "patch \<Rightarrow> rasp_record" where
  "hashmap_to_record hashmap = Record_new\<lparr>rr_fields := hashmap\<rparr>"

definition parse_i64 :: "bytes \<Rightarrow> int option" where
  "parse_i64 s =
     (if s \<noteq> [] \<and> hd s = 0x2d
      then if starts_with (tl s) (ascii ''+'') then None else map_option (\<lambda>n. - int n) (parse_uint (2 ^ 63 + 1) (tl s))
      else map_option int (parse_uint (2 ^ 63) s))"

definition make_record :: "report_sys \<Rightarrow> patch \<Rightarrow> rasp_record" where
  "make_record R message =
     \<lparr>rr_type = (case message (ascii ''data_type'') of
        Some data_type \<Rightarrow> (case parse_i32 data_type of Some dt \<Rightarrow> dt | None \<Rightarrow> 2459)
      | None \<Rightarrow> 2439),
      rr_time = (case Option.bind (message (ascii ''rasp_timestamp'')) parse_i64 of Some ts \<Rightarrow> ts | None \<Rightarrow> sint (rs_now R)),
      rr_fields = message(ascii ''data_type'' := None, ascii ''rasp_timestamp'' := None)\<rparr>"

text \<open>\<open>as i64\<close> of the seconds of the clock.\<close>

definition report_record :: "report_sys \<Rightarrow> int \<Rightarrow> patch \<Rightarrow> rasp_record" where
  "report_record R data_type report = (hashmap_to_record report)\<lparr>rr_type := data_type, rr_time := sint (rs_now R)\<rparr>"

text \<open>A round of the reporter, over the processes in the order of the map.\<close>

definition heartbeat_round :: "report_sys \<Rightarrow> int \<Rightarrow> ProcessInfo list \<Rightarrow> rasp_record list" where
  "heartbeat_round R data_type ps =
     (let seq_id = generate_seq_id R in
      map (\<lambda>p. report_record R data_type ((generate_heartbeat R p)(ascii ''package_seq'' \<mapsto> seq_id))) ps)"

definition inspect_report :: "report_sys \<Rightarrow> int \<Rightarrow> ProcessInfo \<Rightarrow> rasp_record" where
  "inspect_report R data_type p = report_record R data_type (make_report R p (ascii ''inspected'') [])"

text \<open>The operation with the record it sends.\<close>

definition operate_report :: "report_sys \<Rightarrow> int \<Rightarrow> 'w rasp_sys \<Rightarrow> RASPCommand \<Rightarrow> ProcessInfo \<Rightarrow> 'w rasp \<Rightarrow>
  (unit res \<times> (RASPCommand \<times> ProcessInfo) option \<times> 'w rasp) \<times> rasp_record option" where
  "operate_report R data_type S cmd p s =
     (case Operator_op S p (cmd_state cmd) (opt_bytes (cmd_probe_message cmd)) s of
        (Inl Panic, p, s) \<Rightarrow> ((Inl Panic, None, s), None)
      | (Inl (Err e), p, s) \<Rightarrow>
          ((Inl (Err e), None, s), Some (report_record R data_type (make_report R p (cmd_state cmd @ ascii ''_failed'') (err_text R e))))
      | (Inr _, p, s) \<Rightarrow>
          ((Inr (), Some (cmd, p), s),
           Some (report_record R data_type (make_report R p (cmd_state cmd @ ascii ''_success'') []))))"

lemma operate_report_operate: "fst (operate_report R data_type S cmd p s) = operate S cmd p s"
  by (auto simp: operate_report_def operate_def split: prod.splits sum.splits failure.splits)

subsection \<open>Messages of the agent\<close>

record RASPMessage =
  rm_name :: bytes
  rm_commands :: "RASPCommand list option"

record ProbeConfigPatch =
  class_name :: bytes
  patch_path :: bytes
  file_download_url :: "bytes list option"
  sum_hash :: "bytes option"

text \<open>\<open>http_get\<close> gives a response, whatever its status, with the body or \<open>None\<close> when reading it fails. \<open>copy_skip\<close> is the copy that leaves
  an existing file alone. \<open>config_patches\<close> parses a probe configuration and gives its patches.\<close>

record 'w patch_sys =
  http_get :: "bytes \<Rightarrow> 'w \<Rightarrow> bytes option option \<times> 'w"
  create_file :: "bytes \<Rightarrow> 'w \<Rightarrow> bool \<times> 'w"
  write_file :: "bytes \<Rightarrow> bytes \<Rightarrow> 'w \<Rightarrow> bool \<times> 'w"
  copy_skip :: "bytes \<Rightarrow> bytes \<Rightarrow> 'w \<Rightarrow> bool \<times> 'w"
  read_file :: "bytes \<Rightarrow> 'w \<Rightarrow> bytes option"
  sha256_hex :: "bytes \<Rightarrow> bytes"
  parse_rasp_message :: "bytes \<Rightarrow> RASPMessage option"
  config_patches :: "bytes \<Rightarrow> ProbeConfigPatch list option option"

definition download_patch_to_file :: "'w patch_sys \<Rightarrow> bytes \<Rightarrow> bytes \<Rightarrow> ('w, unit) prog" where
  "download_patch_to_file N path download_url =
     bind_st (\<lambda>w. case http_get N download_url w of (r, w) \<Rightarrow> (the_or r (HttpError None), w)) (\<lambda>response.
     bind_st (try_do IoError (create_file N path)) (\<lambda>_.
     bind_st (lift_res (the_or response (HttpError None))) (\<lambda>body.
     try_do IoError (write_file N path body))))"

definition file_check_sum :: "'w patch_sys \<Rightarrow> bytes \<Rightarrow> bytes \<Rightarrow> 'w \<Rightarrow> unit res" where
  "file_check_sum N file_path sum_of w =
     bind_res (the_or (read_file N file_path w) IoError) (\<lambda>bytes.
     if sum_of = sha256_hex N bytes then Inr () else Inl (Err (Message ''check sum not match downloaded'')))"

fun download_first :: "'w patch_sys \<Rightarrow> bytes \<Rightarrow> bytes list \<Rightarrow> ('w, unit) prog" where
  "download_first N path [] = return_st ()"
| "download_first N path (url # urls) =
     bind_st (logged_st (download_patch_to_file N path url)) (\<lambda>ok.
     if ok = None then download_first N path urls else return_st ())"

definition parse_patch_message :: "'w patch_sys \<Rightarrow> bytes \<Rightarrow> ProbeConfigPatch list \<Rightarrow> ('w, unit) prog" where
  "parse_patch_message N pid patches =
     for_each (\<lambda>patch.
       bind_st (case file_download_url patch of None \<Rightarrow> return_st () | Some urls \<Rightarrow> download_first N (patch_path patch) urls) (\<lambda>_.
       bind_st (lift_res (the_or (parse_i32 pid) ParseError)) (\<lambda>ipid.
       try_do IoError (copy_skip N (patch_path patch) (root_dir ipid @ ascii ''/'' @ patch_path patch))))) patches"

definition command_patches :: "'w patch_sys \<Rightarrow> RASPCommand \<Rightarrow> ('w, unit) prog" where
  "command_patches N command =
     (case Option.bind (cmd_probe_message command) (config_patches N) of
        Some (Some patches) \<Rightarrow> bind_st (logged_st (parse_patch_message N (cmd_pid command) patches)) (\<lambda>_. return_st ())
      | _ \<Rightarrow> return_st ())"

definition parse_message :: "'w patch_sys \<Rightarrow> bytes \<Rightarrow> ('w, RASPMessage) prog" where
  "parse_message N message_str =
     bind_st (lift_res (the_or (parse_rasp_message N message_str) ParseError)) (\<lambda>rasp_message.
     bind_st (if contains message_str (ascii ''file_download_url'') \<or> contains message_str (ascii ''file_content'')
              then for_each (command_patches N) (case rm_commands rasp_message of None \<Rightarrow> [] | Some cs \<Rightarrow> cs)
              else return_st ()) (\<lambda>_.
     return_st rasp_message))"

text \<open>The commands of a message are put into the queue; a full queue drops a command, and a queue without reader stops the plugin.\<close>

datatype try_send = Sent | Full | NoReader

fun forward_commands :: "(RASPCommand \<times> try_send) list \<Rightarrow> RASPCommand list \<times> bool" where
  "forward_commands [] = ([], True)"
| "forward_commands ((c, Sent) # cs) = (case forward_commands cs of (sent, alive) \<Rightarrow> (c # sent, alive))"
| "forward_commands ((c, Full) # cs) = forward_commands cs"
| "forward_commands ((c, NoReader) # cs) = ([], False)"

lemma forward_commands_subseq: "subseq (fst (forward_commands cs)) (map fst cs)"
  by (induction cs rule: forward_commands.induct) (auto split: prod.splits)

lemma forward_commands_all: "list_all (\<lambda>(c, t). t = Sent) cs \<Longrightarrow> forward_commands cs = (map fst cs, True)"
  by (induction cs rule: forward_commands.induct) auto

subsection \<open>Settings\<close>

text \<open>The readers of \<^verbatim>\<open>config.rs\<close> over a loaded configuration; the values and their conversions belong to the configuration library.\<close>

record 'v settings =
  get_table :: "bytes \<Rightarrow> (bytes \<rightharpoonup> 'v) option"
  to_text :: "'v \<Rightarrow> bytes"
  into_array :: "'v \<Rightarrow> 'v list option"
  into_str :: "'v \<Rightarrow> bytes option"
  into_bool :: "'v \<Rightarrow> bool option"
  into_int :: "'v \<Rightarrow> int option"

definition settings_value :: "'v settings \<Rightarrow> bytes \<Rightarrow> bytes \<Rightarrow> 'v res" where
  "settings_value C table key =
     bind_res (the_or (get_table C table) ParseError) (\<lambda>service. the_or (service key) (Message ''missing key''))"

definition settings_string :: "'v settings \<Rightarrow> bytes \<Rightarrow> bytes \<Rightarrow> bytes res" where
  "settings_string C table key = bind_res (settings_value C table key) (\<lambda>v. Inr (to_text C v))"

definition settings_vec_string :: "'v settings \<Rightarrow> bytes \<Rightarrow> bytes \<Rightarrow> bytes list res" where
  "settings_vec_string C table key =
     bind_res (settings_value C table key) (\<lambda>v.
     bind_res (the_or (into_array C v) ParseError) (\<lambda>vs. the_or (those (map (into_str C) vs)) ParseError))"

definition settings_bool :: "'v settings \<Rightarrow> bytes \<Rightarrow> bytes \<Rightarrow> bool res" where
  "settings_bool C table key = bind_res (settings_value C table key) (\<lambda>v. the_or (into_bool C v) ParseError)"

definition settings_int :: "'v settings \<Rightarrow> bytes \<Rightarrow> bytes \<Rightarrow> int res" where
  "settings_int C table key = bind_res (settings_value C table key) (\<lambda>v. the_or (into_int C v) ParseError)"

text \<open>The filters of the plugin; \<open>compile\<close> is the regular expression compiler.\<close>

definition load_local_filter :: "'v settings \<Rightarrow> (bytes \<Rightarrow> (bytes \<Rightarrow> bool) option) \<Rightarrow> Filters res" where
  "load_local_filter C compile =
     (let strings = settings_vec_string C (ascii ''filter'') in
      bind_res (strings (ascii ''ignore_argv_regex'')) (\<lambda>regex_strings.
      bind_res (the_or (those (map compile regex_strings)) ParseError) (\<lambda>argv_regex.
      bind_res (strings (ascii ''ignore_exe_path'')) (\<lambda>exe_path.
      bind_res (strings (ascii ''ignore_exe_name'')) (\<lambda>exe_name.
      bind_res (strings (ascii ''collect_env'')) (\<lambda>env.
      bind_res (settings_bool C (ascii ''filter'') (ascii ''collect_all_env'')) (\<lambda>all_env.
      bind_res (strings (ascii ''auto_attach_runtime'')) (\<lambda>auto.
      Inr \<lparr>ignore_exe_path = exe_path, ignore_exe_name = exe_name, ignore_argv_regex = argv_regex, collect_env = env,
        collect_all_env = all_env, auto_attach_runtime = auto\<rparr>))))))))"

subsection \<open>The collect thread\<close>

text \<open>A turn of the thread has the value of the control and the records in the channel. The result tells whether the thread
  still runs.\<close>

fun collect_loop :: "(bytes \<Rightarrow> 'p \<Rightarrow> nat \<times> 'p) \<Rightarrow> ('m \<Rightarrow> u32) \<Rightarrow> ('m \<Rightarrow> bytes) \<Rightarrow> (bool \<times> 'm list) list \<Rightarrow> 'p Client \<Rightarrow> bool \<times> 'p Client" where
  "collect_loop W compute_size write_to [] c = (True, c)"
| "collect_loop W compute_size write_to ((running, recs) # turns) c =
     (if \<not> running then (False, c)
      else if recs = [] then collect_loop W compute_size write_to turns c
      else case send_records W compute_size write_to recs c of
        (Inr _, c) \<Rightarrow> collect_loop W compute_size write_to turns c
      | (Inl _, c) \<Rightarrow> (False, c))"

lemma wire_of_append: "wire_of compute_size write_to (xs @ ys) = wire_of compute_size write_to xs @ wire_of compute_size write_to ys"
  by (simp add: wire_of_def)



subsection \<open>What the reports say\<close>

lemma report_fields:
  "rr_fields (report_record R t (make_report R p action reason)) (ascii ''tracing_state'') =
     Some (case pi_tracing_state p of Some st \<Rightarrow> TracingState_fmt st | None \<Rightarrow> [])"
  "rr_fields (report_record R t (make_report R p action reason)) (ascii ''action'') = Some action"
  by (auto simp: report_record_def hashmap_to_record_def make_report_def map_add_def split: option.splits)

text \<open>The record that reports a successful attachment is made before the state of the process is changed: it says that the process is
  inspected, while the table says from then on that it is attached.\<close>

theorem success_report_has_old_state:
  assumes "operate_report R t S cmd p s = ((Inr (), Some (cmd, p'), s'), Some rec)"
    and "cmd_state cmd = ascii ''WAIT_ATTACH''" "pi_tracing_state p = Some INSPECTED"
  shows "rr_fields rec (ascii ''action'') = Some (ascii ''WAIT_ATTACH_success'') \<and>
    rr_fields rec (ascii ''tracing_state'') = Some (ascii ''INSPECTED'') \<and>
    map_option pi_tracing_state (finish md5 cmd p' ps (pi_pid p)) = Some (Some ATTACHED)"
proof -
  have op: "Operator_op S p (cmd_state cmd) (opt_bytes (cmd_probe_message cmd)) s = (Inr (), p', s')"
    and rec: "rec = report_record R t (make_report R p' (cmd_state cmd @ ascii ''_success'') [])"
    using assms(1) by (auto simp: operate_report_def split: prod.splits sum.splits failure.splits)
  have same: "pi_tracing_state p' = Some INSPECTED" "pi_pid p' = pi_pid p"
    using Operator_op_same[OF op] assms(3) by (simp_all add: same_process_def)
  have "map_option pi_tracing_state (finish md5 cmd p' ps (pi_pid p)) = Some (Some ATTACHED)"
    unfolding finish_def assms(2) using same(2) by (simp add: update_watched_def del: ascii_Cons)
  thus ?thesis unfolding rec report_fields same(1) assms(2) by simp
qed

definition sample_reports :: report_sys where
  "sample_reports = \<lparr>rs_now = 100, rs_ticks = Some 100, rs_boot_time = Some 60, f32_secs = (\<lambda>s t. of_nat (s div t)),
     env_items = (\<lambda>e. []), json_env = (\<lambda>e. []), json_os_env = (\<lambda>e. None), err_text = (\<lambda>e. [])\<rparr>"

theorem success_report_has_old_state_witness:
  "\<exists>p s rec. operate_report sample_reports 2440 sample_rasp_ns sample_command sample_watched sample_thread_rasp =
     ((Inr (), Some (sample_command, p), s), Some rec) \<and> rr_fields rec (ascii ''tracing_state'') = Some (ascii ''INSPECTED'')"
proof -
  obtain r pending s report where op: "operate_report sample_reports 2440 sample_rasp_ns sample_command sample_watched sample_thread_rasp =
      ((r, pending, s), report)" by (metis surj_pair)
  have "case operate_report sample_reports 2440 sample_rasp_ns sample_command sample_watched sample_thread_rasp of
      ((_, Some _, _), Some _) \<Rightarrow> True | _ \<Rightarrow> False" by code_simp
  then obtain cq rec where some: "pending = Some cq" "report = Some rec"
    unfolding op by (auto split: option.splits)
  have "operate sample_rasp_ns sample_command sample_watched sample_thread_rasp = (r, Some cq, s)"
    using operate_report_operate[of sample_reports 2440 sample_rasp_ns sample_command sample_watched sample_thread_rasp] op some by simp
  from operate_pending[OF this] op some
  have report: "operate_report sample_reports 2440 sample_rasp_ns sample_command sample_watched sample_thread_rasp =
      ((Inr (), Some (sample_command, snd cq), s), Some rec)" by (metis prod.collapse)
  have "cmd_state sample_command = ascii ''WAIT_ATTACH''" "pi_tracing_state sample_watched = Some INSPECTED" by code_simp+
  from success_report_has_old_state[OF report this] report show ?thesis by blast
qed

lemma word_diff_nat:
  fixes n x :: u64
  shows "n - x = (if unat x \<le> unat n then of_nat (unat n - unat x) else of_nat (2 ^ 64 - (unat x - unat n)))"
proof (cases "unat x \<le> unat n")
  case True
  hence "of_nat (unat n - unat x) = n - x" by (simp add: of_nat_diff)
  thus ?thesis using True by simp
next
  case False
  have le: "unat x - unat n \<le> 2 ^ 64" using unsigned_less[of x, where 'a = nat] by simp
  have zero: "(of_nat (2 ^ 64) :: u64) = 0" by (simp add: of_nat_eq_iff)
  have "(of_nat (2 ^ 64 - (unat x - unat n)) :: u64) = of_nat (2 ^ 64) - of_nat (unat x - unat n)" by (rule of_nat_diff[OF le])
  also have "\<dots> = n - x" unfolding zero using False by (simp add: of_nat_diff)
  finally show ?thesis using False by simp
qed

text \<open>The uptime of a process is exact when its start is not later than the clock, and wraps around to a huge number when
  the clock was set back behind the start.\<close>

theorem uptime_wraps:
  assumes "rs_ticks R = Some ticks" "rs_boot_time R = Some boot"
    and "unat (f32_secs R start ticks) + unat boot < 2 ^ 64"
  shows "count_uptime R start = Inr (if unat (f32_secs R start ticks) + unat boot \<le> unat (rs_now R)
    then of_nat (unat (rs_now R) - (unat (f32_secs R start ticks) + unat boot))
    else of_nat (2 ^ 64 - (unat (f32_secs R start ticks) + unat boot - unat (rs_now R))))"
proof -
  let ?s = "f32_secs R start ticks" and ?n = "rs_now R"
  have sum: "unat (?s + boot) = unat ?s + unat boot" using assms(3) by (simp add: unat_add_lem[THEN iffD1])
  have "?n - ?s - boot = ?n - (?s + boot)" by simp
  thus ?thesis using assms(1,2) word_diff_nat[of ?n "?s + boot"] unfolding sum by (simp add: count_uptime_def the_or_def)
qed

theorem uptime_wraps_witness:
  "count_uptime sample_reports 5000 = Inr (of_nat (2 ^ 64 - 10))"
  using uptime_wraps[of sample_reports 100 60 5000] by (simp add: sample_reports_def)

end
