(* ===== verification/Scanner_Update.thy ===== *)
theory Scanner_Update
  imports Rust_Std
begin

section \<open>The virus database of the scanner\<close>

text \<open>
  \<open>DBManager\<close> of \<^verbatim>\<open>src/plugins/scanner/src/model/engine/clamav/updater.rs\<close> and the hashes of files of
  \<^verbatim>\<open>src/plugins/scanner/src/lib.rs\<close>. The files are part of the state, as the checks depend on which file a step reads; the HTTP client,
  the archive format, the hashes and the failures of the file system are the fields of the record \<open>db_sys\<close>,
  whose world \<open>'w\<close> carries their effects. A write tells what the file holds afterwards (nothing when it
  could not be created) and whether all of create, write and sync succeeded. A streaming hash is the hash of the bytes
  fed to it. Log lines and waits are left out.
\<close>

subsection \<open>The system\<close>

record 'w db_sys =
  http_send :: "bytes \<Rightarrow> 'w \<Rightarrow> (nat \<times> bytes option) option \<times> 'w"
  build_client :: "'w \<Rightarrow> bool \<times> 'w"
  ensure_dir :: "bytes \<Rightarrow> 'w \<Rightarrow> bool \<times> 'w"
  remove_dir :: "bytes \<Rightarrow> 'w \<Rightarrow> (bytes \<Rightarrow> bool) \<times> 'w"
  write_file :: "bytes \<Rightarrow> bytes \<Rightarrow> 'w \<Rightarrow> (bytes option \<times> bool) \<times> 'w"
  read_string :: "bytes \<Rightarrow> 'w \<Rightarrow> bytes option \<times> 'w"
  can_open :: "bytes \<Rightarrow> 'w \<Rightarrow> bool \<times> 'w"
  read_chunks :: "bytes \<Rightarrow> 'w \<Rightarrow> bytes option list \<times> 'w"
  zip_entries :: "bytes \<Rightarrow> bytes \<Rightarrow> (bytes option \<times> bytes) option list option"
  sha256 :: "bytes \<Rightarrow> bytes"
  md5 :: "bytes \<Rightarrow> bytes"
  to_hex :: "bytes \<Rightarrow> bytes"
  hex_decode :: "bytes \<Rightarrow> bytes option"

record 'w host =
  files :: "bytes \<rightharpoonup> bytes"
  net :: 'w

type_synonym ('w, 'a) host_prog = "('w host, 'a) prog"

definition on_net :: "('w \<Rightarrow> 'a res \<times> 'w) \<Rightarrow> ('w, 'a) host_prog" where
  "on_net f = (\<lambda>s. case f (net s) of (r, w) \<Rightarrow> (r, s\<lparr>net := w\<rparr>))"

definition check_net :: "('w \<Rightarrow> bool \<times> 'w) \<Rightarrow> ('w, unit) host_prog" where
  "check_net f = on_net (\<lambda>w. case f w of (ok, w) \<Rightarrow> (if ok then Inr () else Inl (Err IoError), w))"

definition get_file :: "bytes \<Rightarrow> ('w, bytes option) host_prog" where
  "get_file path = (\<lambda>s. (Inr (files s path), s))"

definition in_dir :: "bytes \<Rightarrow> bytes \<Rightarrow> bool" where
  "in_dir dir path \<longleftrightarrow> starts_with path (dir @ ascii ''/'')"

text \<open>The callers ignore the result of \<open>std::fs::remove_dir_all\<close>: \<open>remove_dir\<close> tells which files are left when it fails, all others in the directory
  are gone.\<close>

definition remove_dir_all :: "'w db_sys \<Rightarrow> bytes \<Rightarrow> ('w, unit) host_prog" where
  "remove_dir_all S dir = (\<lambda>s. case remove_dir S dir (net s) of (left, w) \<Rightarrow>
     (Inr (), s\<lparr>files := (\<lambda>p. if in_dir dir p \<and> \<not> left p then None else files s p), net := w\<rparr>))"

definition put_file :: "'w db_sys \<Rightarrow> bytes \<Rightarrow> bytes \<Rightarrow> ('w, unit) host_prog" where
  "put_file S path contents = (\<lambda>s.
     case write_file S path contents (net s) of
       ((stored, ok), w) \<Rightarrow>
         (if ok then Inr () else Inl (Err IoError),
          s\<lparr>files := (case stored of None \<Rightarrow> files s | Some c \<Rightarrow> (files s)(path \<mapsto> c)), net := w\<rparr>))"

subsection \<open>Hashes of files\<close>

fun hash_loop :: "bytes option list \<Rightarrow> bytes \<Rightarrow> bytes option" where
  "hash_loop [] fed = Some fed"
| "hash_loop (None # reads) fed = None"
| "hash_loop (Some chunk # reads) fed = (if chunk = [] then Some fed else hash_loop reads (fed @ chunk))"

definition hash_file :: "'w db_sys \<Rightarrow> (bytes \<Rightarrow> bytes) \<Rightarrow> bytes \<Rightarrow> ('w, bytes) host_prog" where
  "hash_file S h path =
     bind_st (get_file path) (\<lambda>file.
     case file of
       None \<Rightarrow> return_st []
     | Some contents \<Rightarrow>
         on_net (\<lambda>w. case can_open S path w of
             (False, w) \<Rightarrow> (Inr [], w)
           | (True, w) \<Rightarrow>
               (case read_chunks S contents w of (reads, w) \<Rightarrow>
                  (Inr (case hash_loop reads [] of None \<Rightarrow> [] | Some fed \<Rightarrow> to_hex S (h fed)), w))))"

definition get_file_sha256 :: "'w db_sys \<Rightarrow> bytes \<Rightarrow> ('w, bytes) host_prog" where
  "get_file_sha256 S path = hash_file S (sha256 S) path"

definition get_file_md5 :: "'w db_sys \<Rightarrow> bytes \<Rightarrow> ('w, bytes) host_prog" where
  "get_file_md5 S path = hash_file S (md5 S) path"

definition get_file_md5_fast :: "'w db_sys \<Rightarrow> bytes \<Rightarrow> ('w, bytes) host_prog" where
  "get_file_md5_fast S path = hash_file S (md5 S) path"

subsection \<open>Downloading and extracting\<close>

definition DB_PATH :: bytes where
  "DB_PATH = ascii ''./dat''"

definition TMP_PATH :: bytes where
  "TMP_PATH = ascii ''./tmp''"

definition ARCHIVE_DB_VERSION_FILE :: bytes where
  "ARCHIVE_DB_VERSION_FILE = ascii ''version''"

text \<open>\<open>url.split('/').last()\<close>, which always exists.\<close>

definition url_name :: "bytes \<Rightarrow> bytes" where
  "url_name url = last (split_on 0x2f url)"

fun db_download_loop :: "'w db_sys \<Rightarrow> bytes \<Rightarrow> bytes list \<Rightarrow> ('w, unit) host_prog" where
  "db_download_loop S np [] = lift_res (Inl (Err (Message ''download failed'')))"
| "db_download_loop S np (url # urls) =
     bind_st (on_net (\<lambda>w. case http_send S (url @ ascii ''.zip'') w of (a, w) \<Rightarrow> (Inr a, w))) (\<lambda>db_response.
     case db_response of
       None \<Rightarrow> db_download_loop S np urls
     | Some (db_status, db_body) \<Rightarrow>
         bind_st (on_net (\<lambda>w. case http_send S (url @ ascii ''.sign'') w of (a, w) \<Rightarrow> (Inr a, w))) (\<lambda>sign_response.
         case sign_response of
           None \<Rightarrow> db_download_loop S np urls
         | Some (sign_status, sign_body) \<Rightarrow>
             if 200 \<le> db_status \<and> db_status < 300 \<and> 200 \<le> sign_status \<and> sign_status < 300
             then (case (db_body, sign_body) of
                     (Some db_bytes, Some sign_text) \<Rightarrow>
                       if sha256 S db_bytes = (case hex_decode S (trim sign_text) of None \<Rightarrow> [] | Some b \<Rightarrow> b)
                       then put_file S np db_bytes else db_download_loop S np urls
                   | _ \<Rightarrow> db_download_loop S np urls)
             else db_download_loop S np urls))"

definition db_download :: "'w db_sys \<Rightarrow> bytes \<Rightarrow> bytes list \<Rightarrow> ('w, unit) host_prog" where
  "db_download S dst urls =
     (case urls of
        [] \<Rightarrow> lift_res (Inl (Err (Message ''urls.len() == 0'')))
      | url # _ \<Rightarrow>
          bind_st (check_net (ensure_dir S dst)) (\<lambda>_.
          bind_st (check_net (build_client S)) (\<lambda>_.
          db_download_loop S (path_join dst (url_name url @ ascii ''.zip'')) urls)))"

fun extract_loop :: "'w db_sys \<Rightarrow> bytes \<Rightarrow> (bytes option \<times> bytes) option list \<Rightarrow> ('w, unit) host_prog" where
  "extract_loop S dst [] = return_st ()"
| "extract_loop S dst (None # entries) = lift_res (Inl (Err IoError))"
| "extract_loop S dst (Some (enclosed_name, contents) # entries) =
     (case Option.bind enclosed_name file_name of
        None \<Rightarrow> extract_loop S dst entries
      | Some zfilename \<Rightarrow>
          bind_st (check_net (ensure_dir S dst)) (\<lambda>_.
          bind_st (put_file S (dst @ ascii ''/'' @ zfilename) contents) (\<lambda>_.
          extract_loop S dst entries)))"

definition extract_db :: "'w db_sys \<Rightarrow> bytes \<Rightarrow> bytes \<Rightarrow> bytes \<Rightarrow> ('w, unit) host_prog" where
  "extract_db S src dst passwd =
     bind_st (get_file src) (\<lambda>file.
     case file of
       None \<Rightarrow> lift_res (Inl (Err (Message ''Err db path not found'')))
     | Some archive \<Rightarrow>
         bind_st (check_net (can_open S src)) (\<lambda>_.
         case zip_entries S archive passwd of
           None \<Rightarrow> lift_res (Inl (Err IoError))
         | Some entries \<Rightarrow> extract_loop S dst entries))"

subsection \<open>The manager\<close>

record DBManager =
  version :: bytes
  dbname :: bytes
  url :: "bytes list"
  db_sha256 :: bytes
  passwd :: bytes

definition DBManager_new :: "bytes \<Rightarrow> bytes \<Rightarrow> bytes \<Rightarrow> bytes list \<Rightarrow> DBManager res" where
  "DBManager_new ver sha pwd urls =
     (case urls of
        [] \<Rightarrow> Inl Panic
      | u # _ \<Rightarrow> Inr \<lparr>version = ver, dbname = url_name u, url = urls, db_sha256 = sha, passwd = pwd\<rparr>)"

definition archive_path :: "DBManager \<Rightarrow> bytes" where
  "archive_path m = TMP_PATH @ ascii ''/'' @ dbname m @ ascii ''.zip''"

text \<open>\<open>load\<close> and \<open>load_into\<close> remove \<open>DB_PATH\<close> and differ in the directory they extract into.\<close>

definition load_into :: "'w db_sys \<Rightarrow> DBManager \<Rightarrow> bytes \<Rightarrow> ('w, unit) host_prog" where
  "load_into S m db_path =
     bind_st (remove_dir_all S DB_PATH) (\<lambda>_.
     bind_st (extract_db S (archive_path m) db_path (passwd m)) (\<lambda>_.
     bind_st (get_file (db_path @ ascii ''/'' @ ARCHIVE_DB_VERSION_FILE)) (\<lambda>file.
     bind_st (lift_res (the_or file IoError)) (\<lambda>contents.
     bind_st (on_net (\<lambda>w. case read_string S contents w of (r, w) \<Rightarrow> (the_or r IoError, w))) (\<lambda>str.
     if trim str \<noteq> version m then lift_res (Inl (Err (Message ''version mismatch'')))
     else bind_st (get_file_sha256 S (archive_path m)) (\<lambda>sha256sum.
       if sha256sum \<noteq> db_sha256 m then lift_res (Inl (Err (Message ''sha256sum mismatch''))) else return_st ()))))))"

definition load :: "'w db_sys \<Rightarrow> DBManager \<Rightarrow> ('w, unit) host_prog" where
  "load S m = load_into S m DB_PATH"

definition DBManager_get :: "'w db_sys \<Rightarrow> DBManager \<Rightarrow> ('w, unit) host_prog" where
  "DBManager_get S m = (\<lambda>s.
     case load S m s of
       (Inr _, s) \<Rightarrow> (Inr (), s)
     | (Inl Panic, s) \<Rightarrow> (Inl Panic, s)
     | (Inl (Err _), s) \<Rightarrow>
         bind_st (remove_dir_all S TMP_PATH) (\<lambda>_.
         bind_st (db_download S TMP_PATH (url m)) (\<lambda>_.
         bind_st (remove_dir_all S DB_PATH) (\<lambda>_.
         extract_db S (archive_path m) DB_PATH (passwd m)))) s)"

definition DBManager_update :: "'w db_sys \<Rightarrow> DBManager \<Rightarrow> bytes \<Rightarrow> bytes \<Rightarrow> bytes \<Rightarrow> bytes list \<Rightarrow> ('w, DBManager) host_prog" where
  "DBManager_update S m ver sha pwd urls =
     (if ver = version m \<and> sha = db_sha256 m then return_st m
      else bind_st (remove_dir_all S TMP_PATH) (\<lambda>_.
           bind_st (db_download S TMP_PATH urls) (\<lambda>_.
           bind_st (remove_dir_all S DB_PATH) (\<lambda>_.
           bind_st (extract_db S (archive_path m) DB_PATH (passwd m)) (\<lambda>_.
           return_st (m\<lparr>url := urls, db_sha256 := sha, version := ver, passwd := pwd\<rparr>))))))"

subsection \<open>Which files a step changes\<close>

lemmas host_defs = bind_st_def lift_res_def return_st_def on_net_def check_net_def get_file_def

definition changes_only :: "(bytes \<Rightarrow> bool) \<Rightarrow> ('w, 'a) host_prog \<Rightarrow> bool" where
  "changes_only P m \<longleftrightarrow> (\<forall>s p. \<not> P p \<longrightarrow> files (snd (m s)) p = files s p)"

lemma changes_onlyD: "changes_only P m \<Longrightarrow> m s = (r, s') \<Longrightarrow> \<not> P p \<Longrightarrow> files s' p = files s p"
  unfolding changes_only_def by (metis snd_conv)

lemma changes_bind: "changes_only P m \<Longrightarrow> (\<And>x. changes_only P (f x)) \<Longrightarrow> changes_only P (bind_st m f)"
  by (auto simp: changes_only_def bind_st_def case_prod_beta split: sum.split)

lemma changes_if: "changes_only P m \<Longrightarrow> changes_only P n \<Longrightarrow> changes_only P (if b then m else n)"
  by simp

lemma changes_option: "changes_only P m \<Longrightarrow> (\<And>x. changes_only P (f x)) \<Longrightarrow> changes_only P (case y of None \<Rightarrow> m | Some x \<Rightarrow> f x)"
  by (cases y) simp_all

lemma changes_pair: "(\<And>x y. changes_only P (f x y)) \<Longrightarrow> changes_only P (case z of (x, y) \<Rightarrow> f x y)"
  by (cases z) simp

lemma changes_nothing:
  "changes_only P (lift_res r)" "changes_only P (return_st x)" "changes_only P (on_net f)" "changes_only P (check_net c)"
  "changes_only P (get_file path)"
  by (simp_all add: changes_only_def host_defs case_prod_beta)

lemma changes_put: "P path \<Longrightarrow> changes_only P (put_file S path contents)"
  by (auto simp: changes_only_def put_file_def case_prod_beta split: option.split)

lemma changes_remove: "(\<And>p. in_dir dir p \<Longrightarrow> P p) \<Longrightarrow> changes_only P (remove_dir_all S dir)"
  by (auto simp: changes_only_def remove_dir_all_def split: prod.splits)

lemmas changes = changes_bind changes_if changes_option changes_pair changes_nothing changes_put

text \<open>A file directly in a directory, with an ordinary name.\<close>

definition file_of :: "bytes \<Rightarrow> bytes \<Rightarrow> bool" where
  "file_of dir path \<longleftrightarrow> (\<exists>name. path = dir @ ascii ''/'' @ name \<and> 0x2f \<notin> set name \<and> name \<notin> {[], ascii ''.'', ascii ''..''})"

lemma split_on_no_sep: "f \<in> set (split_on sep s) \<Longrightarrow> sep \<notin> set f"
  by (induction s arbitrary: f) (auto split: if_splits list.splits)

lemma file_name_plain: "file_name p = Some name \<Longrightarrow> 0x2f \<notin> set name \<and> name \<notin> {[], ascii ''.'', ascii ''..''}"
proof -
  assume "file_name p = Some name"
  then have "components p \<noteq> []" "name = last (components p)" "name \<noteq> ascii ''..''"
    by (auto simp: file_name_def Let_def simp del: ascii_Cons split: if_splits)
  then have "name \<in> set (components p)" by simp
  then show ?thesis using split_on_no_sep \<open>name \<noteq> ascii ''..''\<close> by (auto simp: components_def simp del: ascii_Cons)
qed

lemma extract_loop_changes: "changes_only (file_of dst) (extract_loop S dst entries)"
proof (induction S dst entries rule: extract_loop.induct)
  case (3 S dst enclosed_name contents entries)
  show ?case
  proof (cases "Option.bind enclosed_name file_name")
    case None
    then show ?thesis using 3(1) by simp
  next
    case (Some name)
    then obtain e where "file_name e = Some name" by (auto simp: bind_eq_Some_conv)
    then have "file_of dst (dst @ ascii ''/'' @ name)" using file_name_plain unfolding file_of_def by blast
    then show ?thesis using Some 3(2)[OF Some] by (auto intro!: changes simp del: ascii_Cons)
  qed
qed (auto intro: changes)

lemma extract_db_changes: "changes_only (file_of dst) (extract_db S src dst pwd)"
  unfolding extract_db_def by (intro changes extract_loop_changes)

lemma db_download_loop_changes: "changes_only (\<lambda>p. p = np) (db_download_loop S np urls)"
proof (induction urls)
  case (Cons u urls)
  then show ?case unfolding db_download_loop.simps case_prod_conv by (intro changes) simp_all
qed (simp add: changes)

lemma db_download_changes: "changes_only (\<lambda>p. p = path_join dst (url_name u @ ascii ''.zip'')) (db_download S dst (u # us))"
  unfolding db_download_def list.case by (intro changes db_download_loop_changes)

text \<open>The two directories.\<close>

lemma archive_not_in_db: "\<not> in_dir DB_PATH (archive_path m)" "\<not> file_of DB_PATH (archive_path m)"
  by (auto simp: in_dir_def file_of_def archive_path_def starts_with_def TMP_PATH_def DB_PATH_def)

lemma file_of_in_dir: "file_of dir p \<Longrightarrow> in_dir dir p"
  by (auto simp: file_of_def in_dir_def starts_with_def)

lemma archive_in_tmp: "in_dir TMP_PATH (archive_path m)"
  by (simp add: in_dir_def archive_path_def starts_with_def TMP_PATH_def)

lemma archive_names: "path_join TMP_PATH (name @ ascii ''.zip'') = archive_path m \<longleftrightarrow> name = dbname m"
  by (simp add: path_join_def archive_path_def TMP_PATH_def)

subsection \<open>The checks of a load\<close>

text \<open>Reads that meet no error deliver the contents of the file.\<close>

definition reads_faithful :: "'w db_sys \<Rightarrow> bool" where
  "reads_faithful S \<longleftrightarrow>
     (\<forall>contents w fed. hash_loop (fst (read_chunks S contents w)) [] = Some fed \<longrightarrow> fed = contents) \<and>
     (\<forall>contents w str. fst (read_string S contents w) = Some str \<longrightarrow> str = contents)"

lemma get_file_sha256_result:
  assumes "reads_faithful S" "get_file_sha256 S path s = (Inr h, s')" "h \<noteq> []"
  obtains contents where "files s path = Some contents" "h = to_hex S (sha256 S contents)" "files s' = files s"
proof (cases "files s path")
  case None
  then show ?thesis using assms by (simp add: get_file_sha256_def hash_file_def host_defs)
next
  case (Some contents)
  obtain ok w where ok: "can_open S path (net s) = (ok, w)" by (meson surj_pair)
  obtain reads w' where reads: "read_chunks S contents w = (reads, w')" by (meson surj_pair)
  have "ok" "hash_loop reads [] \<noteq> None"
    using assms(2,3) Some ok reads by (auto simp: get_file_sha256_def hash_file_def host_defs split: bool.splits option.splits)
  then obtain fed where fed: "hash_loop reads [] = Some fed" by blast
  then have "fed = contents" using assms(1) reads unfolding reads_faithful_def by (metis fst_conv)
  then show ?thesis using that[OF Some] assms(2) Some ok reads fed \<open>ok\<close>
    by (auto simp: get_file_sha256_def hash_file_def host_defs)
qed

lemma remove_result:
  obtains s' where "remove_dir_all S dir s = (Inr (), s')" "\<And>p. files s' p = None \<or> files s' p = files s p"
    "\<And>p. \<not> in_dir dir p \<Longrightarrow> files s' p = files s p" "\<And>p. in_dir dir p \<Longrightarrow> \<not> fst (remove_dir S dir (net s)) p \<Longrightarrow> files s' p = None"
  by (cases "remove_dir S dir (net s)") (simp add: remove_dir_all_def)

lemma load_steps:
  assumes "load S m s = (Inr u, s')"
  obtains s1 s2 v str where
    "extract_db S (archive_path m) DB_PATH (passwd m) (snd (remove_dir_all S DB_PATH s)) = (Inr (), s1)"
    "files s1 (DB_PATH @ ascii ''/'' @ ARCHIVE_DB_VERSION_FILE) = Some v"
    "fst (read_string S v (net s1)) = Some str" "trim str = version m" "files s2 = files s1"
    "get_file_sha256 S (archive_path m) s2 = (Inr (db_sha256 m), s')"
proof -
  obtain s0 where remove: "remove_dir_all S DB_PATH s = (Inr (), s0)" by (rule remove_result)
  obtain r1 s1 where s1: "extract_db S (archive_path m) DB_PATH (passwd m) s0 = (r1, s1)" by (meson surj_pair)
  have r1: "r1 = Inr ()"
    using assms s1 by (cases r1) (simp_all add: load_def load_into_def bind_st_def remove)
  note run = assms[unfolded load_def load_into_def bind_st_def remove prod.case sum.case s1 r1]
  obtain v where v: "files s1 (DB_PATH @ ascii ''/'' @ ARCHIVE_DB_VERSION_FILE) = Some v"
    using run by (cases "files s1 (DB_PATH @ ascii ''/'' @ ARCHIVE_DB_VERSION_FILE)")
      (simp_all add: get_file_def lift_res_def the_or_def del: ascii_Cons)
  obtain t w where t: "read_string S v (net s1) = (t, w)" by (meson surj_pair)
  obtain str where str: "t = Some str"
    using run by (cases t) (simp_all add: get_file_def lift_res_def the_or_def on_net_def v t del: ascii_Cons)
  let ?s2 = "s1\<lparr>net := w\<rparr>"
  obtain r3 s3 where s3: "get_file_sha256 S (archive_path m) ?s2 = (r3, s3)" by (meson surj_pair)
  have "trim str = version m \<and> r3 = Inr (db_sha256 m) \<and> s3 = s'"
    using run by (cases r3) (auto simp: get_file_def lift_res_def return_st_def the_or_def on_net_def v t str s3 simp del: ascii_Cons split: if_splits)
  then show ?thesis using that[of s1 v str ?s2] remove s1 r1 v t str s3 by simp
qed

subsection \<open>A host\<close>

text \<open>Every call succeeds. An archive is its only file, \<open>version\<close>; a checksum is the str itself.\<close>

definition sample_db :: "unit db_sys" where
  "sample_db = \<lparr>http_send = (\<lambda>u w. (Some (200, Some (ascii ''1'')), w)), build_client = (\<lambda>w. (True, w)),
     ensure_dir = (\<lambda>d w. (True, w)), remove_dir = (\<lambda>d w. (\<lambda>p. False, w)), write_file = (\<lambda>p c w. ((Some c, True), w)), read_string = (\<lambda>c w. (Some c, w)),
     can_open = (\<lambda>p w. (True, w)), read_chunks = (\<lambda>c w. ([Some c], w)),
     zip_entries = (\<lambda>a p. Some [Some (Some ARCHIVE_DB_VERSION_FILE, a)]), sha256 = id, md5 = id, to_hex = id, hex_decode = Some\<rparr>"

definition sample_dbm :: DBManager where
  "sample_dbm = \<lparr>version = ascii ''1'', dbname = ascii ''a'', url = [ascii ''h/a''], db_sha256 = ascii ''1'', passwd = []\<rparr>"

definition sample_host :: "unit host" where
  "sample_host = \<lparr>files = [archive_path sample_dbm \<mapsto> ascii ''1''], net = ()\<rparr>"

lemma sample_reads: "reads_faithful sample_db"
  by (auto simp: reads_faithful_def sample_db_def split: if_splits)

subsection \<open>Properties\<close>

text \<open>C6: a database that is loaded was verified: its archive has the configured checksum, the version file that was
  extracted names the configured version, and no file outside the directory of the database was
  changed. The reads of a file deliver its contents.\<close>

theorem load_accepts_only_verified:
  assumes "reads_faithful S" "load S m s = (Inr u, s')" "db_sha256 m \<noteq> []"
  shows "\<exists>archive v. files s (archive_path m) = Some archive \<and> to_hex S (sha256 S archive) = db_sha256 m \<and>
    files s' (DB_PATH @ ascii ''/'' @ ARCHIVE_DB_VERSION_FILE) = Some v \<and> trim v = version m \<and>
    (\<forall>p. files s' p \<noteq> files s p \<longrightarrow> in_dir DB_PATH p)"
proof -
  obtain s1 s2 v str where run:
      "extract_db S (archive_path m) DB_PATH (passwd m) (snd (remove_dir_all S DB_PATH s)) = (Inr (), s1)"
      "files s1 (DB_PATH @ ascii ''/'' @ ARCHIVE_DB_VERSION_FILE) = Some v"
      "fst (read_string S v (net s1)) = Some str" "trim str = version m" "files s2 = files s1"
      "get_file_sha256 S (archive_path m) s2 = (Inr (db_sha256 m), s')"
    using assms(2) by (rule load_steps) blast
  obtain archive where archive: "files s2 (archive_path m) = Some archive" "db_sha256 m = to_hex S (sha256 S archive)"
      "files s' = files s2"
    using get_file_sha256_result[OF assms(1) run(6) assms(3)] by blast
  have kept: "files s1 p = files s p" if "\<not> in_dir DB_PATH p" for p
    using changes_onlyD[OF extract_db_changes run(1), of p] file_of_in_dir[of DB_PATH p] that
    by (auto simp: remove_dir_all_def case_prod_beta)
  have "files s (archive_path m) = Some archive" using kept[OF archive_not_in_db(1)] archive(1) run(5) by simp
  moreover have "str = v" using assms(1) run(3) unfolding reads_faithful_def by blast
  ultimately show ?thesis using archive run(2,4,5) kept by metis
qed

theorem load_accepts_only_verified_witness:
  "\<exists>s' archive v. load sample_db sample_dbm sample_host = (Inr (), s') \<and>
    files sample_host (archive_path sample_dbm) = Some archive \<and> archive = ascii ''1'' \<and>
    files s' (DB_PATH @ ascii ''/'' @ ARCHIVE_DB_VERSION_FILE) = Some v \<and> trim v = ascii ''1''"
proof -
  have "case load sample_db sample_dbm sample_host of (Inr _, _) \<Rightarrow> True | _ \<Rightarrow> False" by code_simp
  then obtain s' where s': "load sample_db sample_dbm sample_host = (Inr (), s')"
    by (auto split: prod.splits sum.splits)
  have "db_sha256 sample_dbm \<noteq> []" by (simp add: sample_dbm_def)
  from load_accepts_only_verified[OF sample_reads s' this] s' show ?thesis
    by (auto simp: sample_dbm_def sample_db_def)
qed

text \<open>C21: an archive cannot write outside the directory it is extracted into: whatever its entries are called,
  the files that change are directly in the directory and have ordinary names.\<close>

theorem extract_stays_inside:
  "files (snd (extract_db S src dst pwd s)) p \<noteq> files s p \<Longrightarrow>
   \<exists>name. p = dst @ ascii ''/'' @ name \<and> 0x2f \<notin> set name \<and> name \<notin> {[], ascii ''.'', ascii ''..''}"
  using extract_db_changes[of dst S src pwd] unfolding changes_only_def file_of_def by blast

theorem extract_stays_inside_witness:
  "\<exists>name. DB_PATH @ ascii ''/'' @ ARCHIVE_DB_VERSION_FILE = DB_PATH @ ascii ''/'' @ name \<and> 0x2f \<notin> set name \<and>
    name \<notin> {[], ascii ''.'', ascii ''..''}"
proof (rule extract_stays_inside[of sample_db "archive_path sample_dbm" DB_PATH "[]" sample_host])
  show "files (snd (extract_db sample_db (archive_path sample_dbm) DB_PATH [] sample_host))
      (DB_PATH @ ascii ''/'' @ ARCHIVE_DB_VERSION_FILE) \<noteq> files sample_host (DB_PATH @ ascii ''/'' @ ARCHIVE_DB_VERSION_FILE)"
    by code_simp
qed

text \<open>An update to a database whose archive has another name fails, and it takes the scanner with it: the archive
  is stored under its own name and looked for under the name of the old one, which has been removed (where the system lets it be removed), and
  the database cannot be loaded afterwards.\<close>

theorem update_needs_same_name:
  assumes "url_name u \<noteq> dbname m" "\<not> (ver = version m \<and> sha = db_sha256 m)" "\<not> fst (remove_dir S TMP_PATH (net s)) (archive_path m)"
    and "DBManager_update S m ver sha pwd (u # us) s = (r, s')"
  shows "(\<forall>m'. r \<noteq> Inr m') \<and> files s' (archive_path m) = None \<and> (\<forall>v. fst (load S m s') \<noteq> Inr v)"
proof -
  obtain s0 where s0: "remove_dir_all S TMP_PATH s = (Inr (), s0)" "files s0 (archive_path m) = None"
    using remove_result[of S TMP_PATH s] assms(3) archive_in_tmp[of m] by metis
  obtain r1 s1 where s1: "db_download S TMP_PATH (u # us) s0 = (r1, s1)" by (meson surj_pair)
  have s1_none: "files s1 (archive_path m) = None"
    using changes_onlyD[OF db_download_changes s1, of "archive_path m"] archive_names[of "url_name u" m] assms(1) s0(2) by simp
  obtain s2 where s2: "remove_dir_all S DB_PATH s1 = (Inr (), s2)" "files s2 (archive_path m) = None"
    using remove_result[of S DB_PATH s1] s1_none by metis
  have fails: "extract_db S (archive_path m) dst pwd s = (Inl (Err (Message ''Err db path not found'')), s)"
    if "files s (archive_path m) = None" for dst pwd and s :: "'a host"
    using that by (simp add: extract_db_def host_defs)
  have r: "s' = s1 \<or> s' = s2" "\<forall>m'. r \<noteq> Inr m'"
    using assms(2,4) unfolding DBManager_update_def bind_st_def
    by (auto simp: s0(1) s1 s2(1) fails[OF s2(2)] split: sum.splits if_splits)
  then have none: "files s' (archive_path m) = None" using s1_none s2(2) by blast
  obtain s3 where s3: "remove_dir_all S DB_PATH s' = (Inr (), s3)" "files s3 (archive_path m) = None"
    using remove_result[of S DB_PATH s'] none by metis
  then have "fst (load S m s') = Inl (Err (Message ''Err db path not found''))"
    unfolding load_def load_into_def bind_st_def by (simp add: s3(1) fails)
  then show ?thesis using r(2) none by simp
qed

theorem update_needs_same_name_witness:
  "\<exists>r s'. DBManager_update sample_db sample_dbm (ascii ''2'') (ascii ''2'') [] [ascii ''h/b''] sample_host = (r, s') \<and>
    (\<forall>m'. r \<noteq> Inr m') \<and> (\<forall>v. fst (load sample_db sample_dbm s') \<noteq> Inr v)"
proof -
  obtain r s' where run: "DBManager_update sample_db sample_dbm (ascii ''2'') (ascii ''2'') [] [ascii ''h/b''] sample_host = (r, s')"
    by (meson surj_pair)
  have "url_name (ascii ''h/b'') \<noteq> dbname sample_dbm" by (simp add: url_name_def sample_dbm_def)
  from update_needs_same_name[OF this _ _ run] run show ?thesis by (simp add: sample_dbm_def sample_db_def)
qed

end
