(* ===== verification/Scanner_Detect.thy ===== *)
theory Scanner_Detect
  imports Scanner_Update
begin

section \<open>Scanning and reporting\<close>

text \<open>
  The configuration, the path filter, the reports and the classification of the scanner:
  \<^verbatim>\<open>configs.rs\<close>, \<^verbatim>\<open>filter.rs\<close>, \<open>scan_file\<close> of \<^verbatim>\<open>model/engine/clamav/mod.rs\<close> and the event types and \<open>Scanner\<close> of \<^verbatim>\<open>detector.rs\<close>, all under
  \<^verbatim>\<open>src/plugins/scanner/src\<close>. The engine itself, the JSON encoder and procfs are parameters. A path is given as the
  string that \<open>to_string_lossy\<close> makes of it. A set of the standard library is the list of its elements in the order of an
  iteration, which is arbitrary.
\<close>

subsection \<open>Configuration and the filter\<close>

record ScanConfig =
  fpath :: bytes
  max_depth :: nat

definition SCAN_DIR_CONFIG :: "ScanConfig list" where
  "SCAN_DIR_CONFIG = map (\<lambda>(p, d). \<lparr>fpath = ascii p, max_depth = d\<rparr>)
     [(''/root'', 3), (''/bin'', 2), (''/sbin'', 2), (''/usr/bin'', 2), (''/usr/sbin'', 2), (''/usr/local'', 3),
      (''/lib/systemd/system'', 1), (''/etc'', 2), (''/var/www/'', 20)]"

definition SCAN_DIR_FILTER :: "bytes list" where
  "SCAN_DIR_FILTER = map ascii
     [''/root/.debug'', ''/root/.vscode'', ''/root/.bash_history'',
      ''/usr/bin/killall'', ''/usr/bin/virt'', ''/usr/bin/upx'', ''/usr/bin/fim'', ''/usr/bin/nc'', ''/usr/bin/inputattach'',
      ''/usr/bin/clamdscan'', ''/usr/bin/clamconf'', ''/usr/bin/sigtool'', ''/usr/bin/clamdtop'', ''/usr/bin/clamsubmit'',
      ''/usr/bin/clambc'', ''/usr/bin/clamscan'', ''/usr/sbin/clamd'', ''/usr/sbin/clamonacc'',
      ''/bin/nc'', ''/bin/netcat'', ''/bin/upx'', ''/bin/inputattach'',
      ''/etc/alternatives/upx'', ''/etc/alternatives/nc'', ''/etc/alternatives/netcat'', ''/etc/dictionaries-common/words'',
      ''/dev'', ''/boot'', ''/sys'', ''/usr/src'']"

text \<open>The largest file of \<^verbatim>\<open>model/engine/clamav/config.rs\<close>.\<close>

definition CLAMAV_MAX_FILESIZE :: nat where
  "CLAMAV_MAX_FILESIZE = 1024 * 1024 * 18"

record Filter =
  filter_set :: "bytes list"

definition set_insert :: "'a \<Rightarrow> 'a list \<Rightarrow> 'a list" where
  "set_insert x xs = (if x \<in> set xs then xs else x # xs)"

definition Filter_new :: "bytes option \<Rightarrow> Filter" where
  "Filter_new agent_path =
     \<lparr>filter_set = fold set_insert SCAN_DIR_FILTER (case agent_path of None \<Rightarrow> [] | Some p \<Rightarrow> [p])\<rparr>"

fun catch_loop :: "bytes \<Rightarrow> bytes list \<Rightarrow> nat" where
  "catch_loop c [] = 0"
| "catch_loop c (each # rest) =
     (if starts_with c each
      then if length (split_on 0x2f each) < length (split_on 0x2f c) then 2 else 1
      else catch_loop c rest)"

definition catch :: "Filter \<Rightarrow> bytes \<Rightarrow> nat" where
  "catch f k = catch_loop k (filter_set f)"

definition Filter_add :: "Filter \<Rightarrow> bytes \<Rightarrow> Filter" where
  "Filter_add f k = f\<lparr>filter_set := set_insert k (filter_set f)\<rparr>"

subsection \<open>Records\<close>

record agent_record =
  rec_type :: nat
  rec_time :: int
  rec_fields :: "bytes \<rightharpoonup> bytes"

text \<open>Insertions into a \<open>HashMap\<close>, in order.\<close>

definition insert_all :: "(bytes \<times> bytes) list \<Rightarrow> bytes \<rightharpoonup> bytes" where
  "insert_all kvs = map_of (rev kvs)"

definition hit_data :: "(bytes list \<Rightarrow> bytes) \<Rightarrow> bytes list option \<Rightarrow> (bytes \<times> bytes) list" where
  "hit_data json matched = (case matched of None \<Rightarrow> [] | Some d \<Rightarrow> [(ascii ''hit_data'', json d)])"

definition token_field :: "bytes \<Rightarrow> (bytes \<times> bytes) list" where
  "token_field token = [(ascii ''token'', token)]"

record DetectFileEvent =
  df_types :: bytes
  df_class :: bytes
  df_name :: bytes
  df_exe :: bytes
  df_exe_size :: bytes
  df_exe_hash :: bytes
  df_md5_hash :: bytes
  df_create_at :: bytes
  df_modify_at :: bytes
  df_matched :: "bytes list option"

definition file_fields :: "DetectFileEvent \<Rightarrow> (bytes \<times> bytes) list" where
  "file_fields e = [(ascii ''types'', df_types e), (ascii ''class'', df_class e), (ascii ''name'', df_name e),
     (ascii ''exe'', df_exe e), (ascii ''exe_size'', df_exe_size e), (ascii ''exe_hash'', df_exe_hash e),
     (ascii ''md5_hash'', df_md5_hash e), (ascii ''create_at'', df_create_at e), (ascii ''modify_at'', df_modify_at e)]"

definition file_to_record :: "(bytes list \<Rightarrow> bytes) \<Rightarrow> int \<Rightarrow> DetectFileEvent \<Rightarrow> agent_record" where
  "file_to_record json now e =
     \<lparr>rec_type = 6001, rec_time = now, rec_fields = insert_all (file_fields e @ hit_data json (df_matched e))\<rparr>"

definition file_to_record_token :: "(bytes list \<Rightarrow> bytes) \<Rightarrow> int \<Rightarrow> bytes \<Rightarrow> DetectFileEvent \<Rightarrow> agent_record" where
  "file_to_record_token json now token e =
     \<lparr>rec_type = 6001, rec_time = now,
      rec_fields = insert_all (file_fields e @ token_field token @ hit_data json (df_matched e))\<rparr>"

record DetectProcEvent =
  dp_types :: bytes
  dp_class :: bytes
  dp_name :: bytes
  dp_pid :: bytes
  dp_exe_hash :: bytes
  dp_md5_hash :: bytes
  dp_exe_size :: bytes
  dp_exe :: bytes
  dp_create_at :: bytes
  dp_modify_at :: bytes
  dp_ppid :: bytes
  dp_pgid :: bytes
  dp_tgid :: bytes
  dp_argv :: bytes
  dp_comm :: bytes
  dp_sessionid :: bytes
  dp_uid :: bytes
  dp_pns :: bytes
  dp_matched :: "bytes list option"

text \<open>\<open>AntiRansomEvent\<close> has the same fields and two more.\<close>

record AntiRansomEvent = DetectProcEvent +
  ar_file_path :: bytes
  ar_file_hash :: bytes

definition proc_fields :: "'a DetectProcEvent_scheme \<Rightarrow> (bytes \<times> bytes) list" where
  "proc_fields e = [(ascii ''types'', dp_types e), (ascii ''class'', dp_class e), (ascii ''name'', dp_name e),
     (ascii ''exe'', dp_exe e), (ascii ''exe_size'', dp_exe_size e), (ascii ''exe_hash'', dp_exe_hash e),
     (ascii ''md5_hash'', dp_md5_hash e), (ascii ''create_at'', dp_create_at e), (ascii ''modify_at'', dp_modify_at e),
     (ascii ''pid'', dp_pid e), (ascii ''ppid'', dp_ppid e), (ascii ''pgid'', dp_pgid e), (ascii ''tgid'', dp_tgid e),
     (ascii ''argv'', dp_argv e), (ascii ''comm'', dp_comm e), (ascii ''sessionid'', dp_sessionid e),
     (ascii ''uid'', dp_uid e), (ascii ''pns'', dp_pns e)]"

definition honeypot_fields :: "AntiRansomEvent \<Rightarrow> (bytes \<times> bytes) list" where
  "honeypot_fields e = [(ascii ''file_path'', ar_file_path e), (ascii ''file_hash'', ar_file_hash e)]"

definition proc_to_record :: "(bytes list \<Rightarrow> bytes) \<Rightarrow> int \<Rightarrow> DetectProcEvent \<Rightarrow> agent_record" where
  "proc_to_record json now e =
     \<lparr>rec_type = 6002, rec_time = now, rec_fields = insert_all (proc_fields e @ hit_data json (dp_matched e))\<rparr>"

definition proc_to_record_token :: "(bytes list \<Rightarrow> bytes) \<Rightarrow> int \<Rightarrow> bytes \<Rightarrow> DetectProcEvent \<Rightarrow> agent_record" where
  "proc_to_record_token json now token e =
     \<lparr>rec_type = 6002, rec_time = now,
      rec_fields = insert_all (proc_fields e @ token_field token @ hit_data json (dp_matched e))\<rparr>"

definition ransom_to_record :: "(bytes list \<Rightarrow> bytes) \<Rightarrow> int \<Rightarrow> AntiRansomEvent \<Rightarrow> agent_record" where
  "ransom_to_record json now e =
     \<lparr>rec_type = 6005, rec_time = now,
      rec_fields = insert_all (proc_fields e @ honeypot_fields e @ hit_data json (dp_matched e))\<rparr>"

definition ransom_to_record_token :: "(bytes list \<Rightarrow> bytes) \<Rightarrow> int \<Rightarrow> bytes \<Rightarrow> AntiRansomEvent \<Rightarrow> agent_record" where
  "ransom_to_record_token json now token e =
     \<lparr>rec_type = 6005, rec_time = now,
      rec_fields = insert_all (proc_fields e @ token_field token @ honeypot_fields e @ hit_data json (dp_matched e))\<rparr>"

record DetectOneTaskEvent =
  do_types :: bytes
  do_class :: bytes
  do_name :: bytes
  do_exe :: bytes
  do_exe_size :: bytes
  do_exe_hash :: bytes
  do_md5_hash :: bytes
  do_create_at :: bytes
  do_modify_at :: bytes
  do_error :: bytes
  do_token :: bytes
  do_matched :: "bytes list option"

definition task_fields :: "DetectOneTaskEvent \<Rightarrow> (bytes \<times> bytes) list" where
  "task_fields e = [(ascii ''types'', do_types e), (ascii ''class'', do_class e), (ascii ''name'', do_name e),
     (ascii ''exe'', do_exe e), (ascii ''exe_size'', do_exe_size e), (ascii ''exe_hash'', do_exe_hash e),
     (ascii ''md5_hash'', do_md5_hash e), (ascii ''create_at'', do_create_at e), (ascii ''modify_at'', do_modify_at e)]"

definition task_to_record_token :: "(bytes list \<Rightarrow> bytes) \<Rightarrow> int \<Rightarrow> bytes \<Rightarrow> DetectOneTaskEvent \<Rightarrow> agent_record" where
  "task_to_record_token json now token e =
     \<lparr>rec_type = 6003, rec_time = now,
      rec_fields = insert_all (task_fields e @ [(ascii ''error'', do_error e)] @ token_field token @ hit_data json (do_matched e))\<rparr>"

definition task_to_record :: "(bytes list \<Rightarrow> bytes) \<Rightarrow> int \<Rightarrow> DetectOneTaskEvent \<Rightarrow> agent_record" where
  "task_to_record json now e = task_to_record_token json now (do_token e) e"

text \<open>The pairs of the request are inserted over the classification, and under the error and the token.\<close>

definition task_to_record_with_add_on :: "(bytes list \<Rightarrow> bytes) \<Rightarrow> int \<Rightarrow> (bytes \<rightharpoonup> bytes) \<Rightarrow> DetectOneTaskEvent \<Rightarrow> agent_record" where
  "task_to_record_with_add_on json now addons e =
     \<lparr>rec_type = 6003, rec_time = now,
      rec_fields = insert_all (task_fields e) ++ addons ++
        insert_all ([(ascii ''error'', do_error e)] @ token_field (do_token e) @ hit_data json (do_matched e))\<rparr>"

definition RegReport_to_record :: "int \<Rightarrow> bytes \<Rightarrow> bytes \<Rightarrow> agent_record" where
  "RegReport_to_record now ver sha =
     \<lparr>rec_type = 6010, rec_time = now, rec_fields = insert_all [(ascii ''version'', ver), (ascii ''exe_hash'', sha)]\<rparr>"

definition RegReport_to_record_token :: "int \<Rightarrow> bytes \<Rightarrow> bytes \<Rightarrow> bytes \<Rightarrow> agent_record" where
  "RegReport_to_record_token now token ver sha =
     \<lparr>rec_type = 6010, rec_time = now,
      rec_fields = insert_all ([(ascii ''version'', ver), (ascii ''exe_hash'', sha)] @ token_field token)\<rparr>"

definition FulllScanFinished_to_record :: "int \<Rightarrow> agent_record" where
  "FulllScanFinished_to_record now =
     \<lparr>rec_type = 6000, rec_time = now, rec_fields = insert_all [(ascii ''data'', ascii ''FullScan Finished'')]\<rparr>"

definition FulllScanFinished_to_record_token :: "int \<Rightarrow> bytes \<Rightarrow> agent_record" where
  "FulllScanFinished_to_record_token now token =
     \<lparr>rec_type = 6000, rec_time = now,
      rec_fields = insert_all (token_field token @ [(ascii ''data'', ascii ''FullScan Finished'')])\<rparr>"

subsection \<open>Events of processes\<close>

text \<open>What procfs tells of a process: the name, parent, real user and thread group of its status, the link of
  its process namespace, the group and session of its stat, and its command line.\<close>

record proc_info =
  proc_status :: "(bytes \<times> int \<times> nat \<times> int) option"
  proc_pidns :: "bytes option"
  proc_stat :: "(int \<times> int) option"
  proc_cmdline :: "bytes list option"

definition proc_default :: DetectProcEvent where
  "proc_default = \<lparr>dp_types = [], dp_class = [], dp_name = [], dp_pid = [], dp_exe_hash = [], dp_md5_hash = [],
     dp_exe_size = [], dp_exe = [], dp_create_at = [], dp_modify_at = [], dp_ppid = [], dp_pgid = [], dp_tgid = [],
     dp_argv = [], dp_comm = [], dp_sessionid = [], dp_uid = [], dp_pns = [], dp_matched = None\<rparr>"

definition unknown :: bytes where
  "unknown = ascii ''-3''"

definition pns_of :: "bytes \<Rightarrow> bytes" where
  "pns_of link = trim_end_matches (ascii '']'') (trim_start_matches (ascii ''pid:['') link)"

definition DetectProcEvent_new :: "proc_info option \<Rightarrow> int \<Rightarrow> bytes \<Rightarrow> bytes \<Rightarrow> bytes \<Rightarrow> bytes \<Rightarrow> bytes \<Rightarrow> bytes \<Rightarrow>
  nat \<Rightarrow> nat \<Rightarrow> nat \<Rightarrow> bytes list option \<Rightarrow> DetectProcEvent res" where
  "DetectProcEvent_new process pid ftype fclass fname exe xhash md5sum fsize create_at modify_at matched =
     bind_res (the_or process IoError) (\<lambda>p.
     Inr \<lparr>dp_types = ftype, dp_class = fclass, dp_name = fname, dp_pid = show_int pid, dp_exe_hash = xhash,
       dp_md5_hash = md5sum, dp_exe_size = show_nat fsize, dp_exe = exe, dp_create_at = show_nat create_at,
       dp_modify_at = show_nat modify_at,
       dp_ppid = (case proc_status p of None \<Rightarrow> unknown | Some (_, ppid, _, _) \<Rightarrow> show_int ppid),
       dp_pgid = (case proc_stat p of None \<Rightarrow> unknown | Some (pgrp, _) \<Rightarrow> show_int pgrp),
       dp_tgid = (case proc_status p of None \<Rightarrow> unknown | Some (_, _, _, tgid) \<Rightarrow> show_int tgid),
       dp_argv = (case proc_cmdline p of None \<Rightarrow> unknown | Some args \<Rightarrow> join_with 0x20 args),
       dp_comm = (case proc_status p of None \<Rightarrow> unknown | Some (name, _, _, _) \<Rightarrow> name),
       dp_sessionid = (case proc_stat p of None \<Rightarrow> unknown | Some (_, session) \<Rightarrow> show_int session),
       dp_uid = (case proc_status p of None \<Rightarrow> unknown | Some (_, _, ruid, _) \<Rightarrow> show_nat ruid),
       dp_pns = (case (proc_status p, proc_pidns p) of (Some _, Some link) \<Rightarrow> pns_of link | _ \<Rightarrow> unknown),
       dp_matched = matched\<rparr>)"

definition ransom_of :: "bytes \<Rightarrow> bytes \<Rightarrow> DetectProcEvent \<Rightarrow> AntiRansomEvent" where
  "ransom_of path hash e = DetectProcEvent.extend e (AntiRansomEvent.fields path hash)"

definition AntiRansomEvent_new :: "proc_info option \<Rightarrow> int \<Rightarrow> bytes \<Rightarrow> bytes \<Rightarrow> bytes \<Rightarrow> bytes \<Rightarrow> bytes \<Rightarrow> bytes \<Rightarrow>
  nat \<Rightarrow> nat \<Rightarrow> nat \<Rightarrow> bytes \<Rightarrow> bytes \<Rightarrow> bytes list option \<Rightarrow> AntiRansomEvent res" where
  "AntiRansomEvent_new process pid ftype fclass fname exe xhash md5sum fsize create_at modify_at file_path file_hash matched =
     bind_res (DetectProcEvent_new process pid ftype fclass fname exe xhash md5sum fsize create_at modify_at matched)
       (\<lambda>e. Inr (ransom_of file_path file_hash e))"

subsection \<open>The engine\<close>

datatype cl_result = CL_CLEAN | CL_VIRUS bytes "bytes list" | CL_ERROR

record 'w scan_sys =
  db :: "'w db_sys"
  path_exists :: "bytes \<Rightarrow> 'w \<Rightarrow> bool \<times> 'w"
  path_is_file :: "bytes \<Rightarrow> 'w \<Rightarrow> bool \<times> 'w"
  cl_scan :: "bool \<Rightarrow> bytes \<Rightarrow> 'w \<Rightarrow> cl_result \<times> 'w"
  cl_engine :: "bytes \<Rightarrow> 'w \<Rightarrow> bool \<times> 'w"
  file_stat :: "bytes \<Rightarrow> 'w \<Rightarrow> nat option \<times> 'w"
  read_head :: "bytes \<Rightarrow> 'w \<Rightarrow> (bytes \<times> bool option) \<times> 'w"
  xxhash :: "nat \<Rightarrow> bytes \<Rightarrow> bytes"
  json :: "bytes list \<Rightarrow> bytes"

text \<open>\<open>scan_file\<close>: a name with a zero byte cannot be passed to C, and the name of a virus has to be UTF-8.
  The hits are popped off the end of the vector.\<close>

definition scan_file :: "'w scan_sys \<Rightarrow> bytes \<Rightarrow> ('w, bytes \<times> bytes list option) host_prog" where
  "scan_file S path =
     bind_st (on_net (\<lambda>w. case path_exists S path w of (b, w) \<Rightarrow> (Inr b, w))) (\<lambda>there.
     if \<not> there then lift_res (Inl (Err (Message ''scan target is not exists!'')))
     else bind_st (on_net (\<lambda>w. case path_is_file S path w of (b, w) \<Rightarrow> (Inr b, w))) (\<lambda>regular.
     if \<not> regular then lift_res (Inl (Err (Message ''scan target is not a regular file!'')))
     else if 0 \<in> set path then lift_res (Inl Panic)
     else let php_flag = ends_with path (ascii ''.php'') in
     bind_st (on_net (\<lambda>w. case cl_scan S php_flag path w of (r, w) \<Rightarrow> (Inr r, w))) (\<lambda>r.
     case r of
       CL_CLEAN \<Rightarrow> return_st (ascii ''OK'', None)
     | CL_VIRUS virus hits \<Rightarrow>
         if \<not> valid_utf8 virus then lift_res (Inl Panic)
         else return_st (virus, if php_flag \<and> hits \<noteq> [] then Some (rev hits) else None)
     | CL_ERROR \<Rightarrow> lift_res (Inl (Err (Message ''clamav::cl_scanfile err''))))))"

definition get_file_xhash :: "'w scan_sys \<Rightarrow> bytes \<Rightarrow> ('w, bytes) host_prog" where
  "get_file_xhash S path =
     bind_st (get_file path) (\<lambda>file.
     case file of
       None \<Rightarrow> return_st unknown
     | Some contents \<Rightarrow>
         bind_st (on_net (\<lambda>w. case can_open (db S) path w of (b, w) \<Rightarrow> (Inr b, w))) (\<lambda>opened.
         if \<not> opened then return_st unknown
         else bind_st (on_net (\<lambda>w. case file_stat S path w of (n, w) \<Rightarrow> (Inr n, w))) (\<lambda>len.
         case len of
           None \<Rightarrow> return_st unknown
         | Some len \<Rightarrow>
             bind_st (on_net (\<lambda>w. case read_head S contents w of (r, w) \<Rightarrow> (Inr r, w))) (\<lambda>(buffer, failed).
             case failed of
               Some unexpected_eof \<Rightarrow> if unexpected_eof then return_st (xxhash S len buffer) else return_st unknown
             | None \<Rightarrow> return_st (xxhash S len buffer)))))"

subsection \<open>The scanner\<close>

definition not_detected :: bytes where
  "not_detected = ascii ''not_detected''"

definition split_result :: "bytes \<Rightarrow> bytes list" where
  "split_result result =
     (if starts_with result (ascii ''YARA.'')
      then splitn 3 0x5f (trim_end_matches (ascii ''.UNOFFICIAL'') (trim_start_matches (ascii ''YARA.'') result))
      else splitn 3 0x2e (trim_end_matches (ascii ''.UNOFFICIAL'') result))"

definition misplaced_webshell :: "bytes \<Rightarrow> bytes \<Rightarrow> bytes \<Rightarrow> bool" where
  "misplaced_webshell ftype fclass path \<longleftrightarrow>
     starts_with ftype (ascii ''Php'') \<and> starts_with fclass (ascii ''Webshell'') \<and> \<not> ends_with path (ascii ''.php'') \<or>
     starts_with ftype (ascii ''Jsp'') \<and> starts_with fclass (ascii ''Webshell'') \<and> \<not> ends_with path (ascii ''.jsp'')"

definition classify :: "bytes \<Rightarrow> bytes \<Rightarrow> bytes \<times> bytes \<times> bytes" where
  "classify path result =
     (case (case split_result result of [a, b, c] \<Rightarrow> (a, b, c) | _ \<Rightarrow> ([], [], result)) of
        (ftype, fclass, name) \<Rightarrow>
          if misplaced_webshell ftype fclass path then (not_detected, [], []) else (ftype, fclass, name))"

type_synonym scan_result = "bytes \<times> bytes \<times> bytes \<times> bytes \<times> bytes \<times> bytes list option"

text \<open>\<open>scan\<close> and \<open>scan_fast\<close> differ in the hash they take.\<close>

definition scan_with :: "'w scan_sys \<Rightarrow> (bytes \<Rightarrow> ('w, bytes) host_prog) \<Rightarrow> bytes \<Rightarrow> ('w, scan_result) host_prog" where
  "scan_with S md5_of path =
     bind_st (scan_file S path) (\<lambda>(result, matched).
     bind_st (get_file_xhash S path) (\<lambda>xhash.
     bind_st (md5_of path) (\<lambda>md5sum.
     if result = ascii ''OK'' then return_st (not_detected, [], [], xhash, md5sum, None)
     else case classify path result of (ftype, fclass, name) \<Rightarrow>
       return_st (ftype, fclass, name, xhash, md5sum, matched))))"

definition scan :: "'w scan_sys \<Rightarrow> bytes \<Rightarrow> ('w, scan_result) host_prog" where
  "scan S = scan_with S (get_file_md5 (db S))"

definition scan_fast :: "'w scan_sys \<Rightarrow> bytes \<Rightarrow> ('w, scan_result) host_prog" where
  "scan_fast S = scan_with S (get_file_md5_fast (db S))"

subsection \<open>Names of rules\<close>

lemma starts_with_append [simp]: "starts_with (p @ s) p"
  by (simp add: starts_with_def)

lemma trim_end_once: "p \<noteq> [] \<Longrightarrow> trim_end_matches p (s @ p) = trim_end_matches p s"
  by (simp add: trim_end_matches_def trim_start_matches.simps[of "rev p" "rev p @ rev s"])

lemma trim_end_none: "\<not> ends_with s p \<Longrightarrow> trim_end_matches p s = s"
  by (simp add: trim_end_matches_def trim_start_matches.simps ends_with_def)

lemma splitn_1: "splitn (Suc 0) sep s = [s]"
  by (induction s) simp_all

lemma splitn_field: "sep \<notin> set f \<Longrightarrow> 1 < n \<Longrightarrow> splitn n sep (f @ sep # s) = f # splitn (n - 1) sep s"
  by (induction f) auto

lemma splitn_three:
  assumes "sep \<notin> set a" "sep \<notin> set b"
  shows "splitn 3 sep (a @ sep # b @ sep # c) = [a, b, c]"
  using splitn_field[OF assms(1), of 3 "b @ sep # c"] splitn_field[OF assms(2), of 2 c] by (simp add: splitn_1)

subsection \<open>Properties\<close>

text \<open>The name of a rule is taken apart as it was put together: a rule \<open>T.C.N\<close>, with or without the suffix of
  unofficial rules, is reported as type T, class C and name N, unless it is the rule for a web shell and the
  file has another extension.\<close>

theorem rule_name_is_taken_apart:
  assumes "0x2e \<notin> set t" "0x2e \<notin> set c" "\<not> ends_with (t @ 0x2e # c @ 0x2e # n) (ascii ''.UNOFFICIAL'')"
    and "sfx = [] \<or> sfx = ascii ''.UNOFFICIAL''" "\<not> starts_with (t @ 0x2e # c @ 0x2e # n @ sfx) (ascii ''YARA.'')"
  shows "classify path (t @ 0x2e # c @ 0x2e # n @ sfx) =
    (if misplaced_webshell t c path then (not_detected, [], []) else (t, c, n))"
proof -
  let ?name = "t @ 0x2e # c @ 0x2e # n"
  have "trim_end_matches (ascii ''.UNOFFICIAL'') (?name @ sfx) = ?name"
    using assms(3,4) trim_end_none trim_end_once[of "ascii ''.UNOFFICIAL''" ?name] by auto
  then have "split_result (?name @ sfx) = [t, c, n]"
    using assms(5) splitn_three[OF assms(1,2)] by (simp add: split_result_def del: ascii_Cons)
  then show ?thesis by (simp add: classify_def)
qed

theorem rule_name_is_taken_apart_witness:
  "classify (ascii ''/a.php'') (ascii ''Php'' @ 0x2e # ascii ''Webshell'' @ 0x2e # ascii ''x.y'' @ ascii ''.UNOFFICIAL'') =
    (ascii ''Php'', ascii ''Webshell'', ascii ''x.y'')"
proof -
  have "\<not> misplaced_webshell (ascii ''Php'') (ascii ''Webshell'') (ascii ''/a.php'')"
    by (simp add: misplaced_webshell_def starts_with_def ends_with_def)
  then show ?thesis
    by (subst rule_name_is_taken_apart) (simp_all add: starts_with_def ends_with_def)
qed

end
