(* ===== verification/Scanner_Honeypot.thy ===== *)
theory Scanner_Honeypot
  imports Scanner_Update
begin

section \<open>The honeypots of the scanner\<close>

text \<open>
  \<^verbatim>\<open>anti_ransom.rs\<close> and the marks of \<^verbatim>\<open>fmonitor.rs\<close> under \<^verbatim>\<open>src/plugins/scanner/src/model/functional\<close>: files that only ransomware would change are copied
  into the homes of the users and watched. The calls of the system are parameters; the marks that are set are state. Log lines are
  left out.
\<close>

subsection \<open>Masks and targets\<close>

definition FAN_MODIFY :: u64 where "FAN_MODIFY = 0x2"
definition FAN_CLOSE_WRITE :: u64 where "FAN_CLOSE_WRITE = 0x8"
definition FAN_MOVED_FROM :: u64 where "FAN_MOVED_FROM = 0x40"
definition FAN_MOVED_TO :: u64 where "FAN_MOVED_TO = 0x80"
definition FAN_ONDIR :: u64 where "FAN_ONDIR = 0x40000000"
definition FAN_EVENT_ON_CHILD :: u64 where "FAN_EVENT_ON_CHILD = 0x08000000"
definition FAN_CREATE :: u64 where "FAN_CREATE = 0x100"
definition FAN_DELETE :: u64 where "FAN_DELETE = 0x200"
definition FAN_DELETE_SELF :: u64 where "FAN_DELETE_SELF = 0x400"
definition FAN_MOVE_SELF :: u64 where "FAN_MOVE_SELF = 0x800"

unbundle bit_operations_syntax

definition LOW_FILE_MATCH_MASK :: u64 where
  "LOW_FILE_MATCH_MASK = FAN_MODIFY OR FAN_CLOSE_WRITE"

definition H51_FILE_MATCH_MASK :: u64 where
  "H51_FILE_MATCH_MASK = FAN_MODIFY OR FAN_CLOSE_WRITE OR FAN_DELETE_SELF OR FAN_MOVE_SELF"

definition H51_DIRS_MATCH_MASK :: u64 where
  "H51_DIRS_MATCH_MASK = FAN_ONDIR OR FAN_EVENT_ON_CHILD OR FAN_CREATE OR FAN_DELETE OR FAN_DELETE_SELF OR
     FAN_MOVE_SELF OR FAN_MOVED_FROM OR FAN_MOVED_TO"

definition HONEYPOTSSHA256 :: "bytes \<rightharpoonup> bytes" where
  "HONEYPOTSSHA256 = map_of (map (\<lambda>(k, v). (ascii k, ascii v))
     [(''0_elkeid_hids_anti_ransom.csv'', ''668f23ce53e38f964564ecdc3e5f1a646169ed779d774fda1009d23f9e52bce0''),
      (''0_elkeid_hids_anti_ransom.doc'', ''4974f533cbc6bb6df5d5a99c3ef94240d9e3076a227fde44fc00a240d70bc71b''),
      (''0_elkeid_hids_anti_ransom.pdf'', ''20b3b1d7d0440fbe57f9f5e6998d660890892c9c7703de787c9de66fc2368636''),
      (''0_elkeid_hids_anti_ransom.png'', ''86dbc28537142e8fba1bb58b801889cb6a61d50ba60f1e6ca9ba879cb297cfa7''),
      (''0_elkeid_hids_anti_ransom.txt'', ''55ccb1e3b83ca0bfbccd9c2cc1cd1b8ac3d04c21853a6209f23e2592e63f9f65''),
      (''0_elkeid_hids_anti_ransom.xls'', ''5d9d6e5ed89989c44e50a1bd8d3722869d4ffb8b7e9b0dbb1a30a242dfb727b4'')])"

definition HONEYPOTS :: "bytes list" where
  "HONEYPOTS = map ascii [''0_elkeid_hids_anti_ransom.csv'', ''0_elkeid_hids_anti_ransom.png'', ''0_elkeid_hids_anti_ransom.txt'',
     ''0_elkeid_hids_anti_ransom.xls'', ''0_elkeid_hids_anti_ransom.doc'', ''0_elkeid_hids_anti_ransom.pdf'']"

subsection \<open>The homes of the users\<close>

text \<open>A line of \<^verbatim>\<open>/etc/passwd\<close> that could not be read is skipped. The fields are taken by index.\<close>

definition nth_res :: "'a list \<Rightarrow> nat \<Rightarrow> 'a res" where
  "nth_res xs i = (if i < length xs then Inr (xs ! i) else Inl Panic)"

definition parse_id :: "bytes \<Rightarrow> u32" where
  "parse_id s = (case parse_u32 s of None \<Rightarrow> 0 | Some n \<Rightarrow> n)"

definition passwd_line :: "bytes \<Rightarrow> (bytes \<rightharpoonup> u32 \<times> u32 \<times> bytes) \<Rightarrow> (bytes \<rightharpoonup> u32 \<times> u32 \<times> bytes) res" where
  "passwd_line line homes =
     (let lvec = split_on 0x3a line in
      bind_res (nth_res lvec 2) (\<lambda>uid.
      bind_res (nth_res lvec 3) (\<lambda>gid.
      bind_res (nth_res lvec 6) (\<lambda>shell.
      if ends_with shell (ascii ''sh'')
      then bind_res (nth_res lvec 5) (\<lambda>home.
           if starts_with home (ascii ''/root'') \<or> starts_with home (ascii ''/home'')
           then Inr (homes(lvec ! 0 \<mapsto> (parse_id uid, parse_id gid, home))) else Inr homes)
      else Inr homes))))"

fun user_homes :: "bytes option list \<Rightarrow> (bytes \<rightharpoonup> u32 \<times> u32 \<times> bytes) \<Rightarrow> (bytes \<rightharpoonup> u32 \<times> u32 \<times> bytes) res" where
  "user_homes [] homes = Inr homes"
| "user_homes (None # rest) homes = user_homes rest homes"
| "user_homes (Some line # rest) homes = bind_res (passwd_line line homes) (user_homes rest)"

subsection \<open>The honeypots\<close>

text \<open>The marks of the fanotify descriptor are state; \<open>homes_order\<close> is the order in which the map of the homes is iterated. A directory
  entry is its name with its type, where either may not be readable.\<close>

record 'w honey_sys =
  kernel_version :: "nat \<times> nat \<times> nat"
  read_passwd :: "'w \<Rightarrow> bytes option list option \<times> 'w"
  fanotify_init :: "'w \<Rightarrow> bool \<times> 'w"
  fanotify_mark :: "u64 \<Rightarrow> bytes \<Rightarrow> 'w \<Rightarrow> bool \<times> 'w"
  fanotify_flush :: "'w \<Rightarrow> bool \<times> 'w"
  hp_exists :: "bytes \<Rightarrow> 'w \<Rightarrow> bool \<times> 'w"
  hp_is_dir :: "bytes \<Rightarrow> 'w \<Rightarrow> bool \<times> 'w"
  create_dir_all :: "bytes \<Rightarrow> 'w \<Rightarrow> bool \<times> 'w"
  chown :: "bytes \<Rightarrow> u32 \<Rightarrow> u32 \<Rightarrow> 'w \<Rightarrow> bool \<times> 'w"
  read_dir :: "bytes \<Rightarrow> 'w \<Rightarrow> (bytes \<times> bool option) option list option \<times> 'w"
  copy_file :: "bytes \<Rightarrow> bytes \<Rightarrow> 'w \<Rightarrow> bool \<times> 'w"
  remove_tree :: "bytes \<Rightarrow> 'w \<Rightarrow> 'w"
  homes_order :: "(bytes \<rightharpoonup> u32 \<times> u32 \<times> bytes) \<Rightarrow> (bytes \<times> u32 \<times> u32 \<times> bytes) list"

record 'w monitor =
  marks :: "(bytes \<times> u64) list"
  hp_world :: 'w

type_synonym ('w, 'a) hp_prog = "('w monitor, 'a) prog"

definition ask_hp :: "('w \<Rightarrow> 'a \<times> 'w) \<Rightarrow> ('w, 'a) hp_prog" where
  "ask_hp f = (\<lambda>s. case f (hp_world s) of (a, w) \<Rightarrow> (Inr a, s\<lparr>hp_world := w\<rparr>))"

definition check_hp :: "('w \<Rightarrow> bool \<times> 'w) \<Rightarrow> ('w, unit) hp_prog" where
  "check_hp f = bind_st (ask_hp f) (\<lambda>ok. lift_res (if ok then Inr () else Inl (Err IoError)))"

definition older :: "nat \<times> nat \<times> nat \<Rightarrow> nat \<times> nat \<times> nat \<Rightarrow> bool" where
  "older v v' =
     (case (v, v') of ((a, b, c), (a', b', c')) \<Rightarrow> a < a' \<or> (a = a' \<and> (b < b' \<or> (b = b' \<and> c < c'))))"

definition H51_KERNEL_VERSION :: "nat \<times> nat \<times> nat" where
  "H51_KERNEL_VERSION = (5, 1, 0)"

definition H26_KERNEL_VERSION :: "nat \<times> nat \<times> nat" where
  "H26_KERNEL_VERSION = (2, 6, 37)"

definition mark_path :: "'w honey_sys \<Rightarrow> bytes \<Rightarrow> u64 \<Rightarrow> ('w, unit) hp_prog" where
  "mark_path S path mask_set =
     bind_st (check_hp (fanotify_mark S mask_set path)) (\<lambda>_ s. (Inr (), s\<lparr>marks := marks s @ [(path, mask_set)]\<rparr>))"

definition FileMonitor_add :: "'w honey_sys \<Rightarrow> bytes \<Rightarrow> ('w, unit) hp_prog" where
  "FileMonitor_add S path =
     bind_st (ask_hp (hp_exists S path)) (\<lambda>ex.
     if \<not> ex then return_st ()
     else if 0 \<in> set path then lift_res (Inl Panic)
     else
       bind_st (if older (kernel_version S) H51_KERNEL_VERSION then return_st LOW_FILE_MATCH_MASK
                else bind_st (ask_hp (hp_is_dir S path)) (\<lambda>dir.
                  return_st (if dir then H51_DIRS_MATCH_MASK else H51_FILE_MATCH_MASK))) (mark_path S path))"

definition FileMonitor_flush :: "'w honey_sys \<Rightarrow> ('w, unit) hp_prog" where
  "FileMonitor_flush S =
     bind_st (ask_hp (fanotify_flush S)) (\<lambda>ok s. (Inr (), if ok then s\<lparr>marks := []\<rparr> else s))"

fun copy_loop :: "'w honey_sys \<Rightarrow> bytes \<Rightarrow> u32 \<Rightarrow> u32 \<Rightarrow> (bytes \<times> bool option) option list \<Rightarrow> ('w, unit) hp_prog" where
  "copy_loop S dst uid gid [] = return_st ()"
| "copy_loop S dst uid gid (entry # entries) =
     (case entry of
        Some (name, Some dir) \<Rightarrow>
          if dir then copy_loop S dst uid gid entries
          else bind_st (check_hp (copy_file S (path_join (ascii ''./elkeid_targets'') name) (path_join dst name))) (\<lambda>_.
               bind_st (check_hp (chown S (path_join dst name) uid gid)) (\<lambda>_.
               copy_loop S dst uid gid entries))
      | _ \<Rightarrow> lift_res (Inl (Err IoError)))"

definition copy_elkeid_targets :: "'w honey_sys \<Rightarrow> bytes \<Rightarrow> u32 \<Rightarrow> u32 \<Rightarrow> ('w, unit) hp_prog" where
  "copy_elkeid_targets S dst uid gid =
     bind_st (ask_hp (hp_exists S dst)) (\<lambda>ex.
     bind_st (if ex then return_st () else check_hp (create_dir_all S dst)) (\<lambda>_.
     bind_st (check_hp (chown S dst uid gid)) (\<lambda>_.
     bind_st (ask_hp (read_dir S (ascii ''./elkeid_targets''))) (\<lambda>entries.
     case entries of
       None \<Rightarrow> lift_res (Inl (Err IoError))
     | Some entries \<Rightarrow> copy_loop S dst uid gid entries))))"

text \<open>An error of \<open>add\<close> is only logged.\<close>

fun add_targets :: "'w honey_sys \<Rightarrow> bytes \<Rightarrow> bytes list \<Rightarrow> ('w, unit) hp_prog" where
  "add_targets S dst [] = return_st ()"
| "add_targets S dst (each_target # rest) =
     (\<lambda>s. case FileMonitor_add S (dst @ ascii ''/'' @ each_target) s of
            (Inl Panic, s) \<Rightarrow> (Inl Panic, s)
          | (_, s) \<Rightarrow> add_targets S dst rest s)"

definition targets_dir :: "bytes \<Rightarrow> bytes" where
  "targets_dir home_path = home_path @ ascii ''/elkeid_targets''"

fun place_targets :: "'w honey_sys \<Rightarrow> (bytes \<times> u32 \<times> u32 \<times> bytes) list \<Rightarrow> ('w, unit) hp_prog" where
  "place_targets S [] = return_st ()"
| "place_targets S ((_, uid, gid, home_path) # rest) =
     bind_st (copy_elkeid_targets S (targets_dir home_path) uid gid) (\<lambda>_.
     bind_st (add_targets S (targets_dir home_path) HONEYPOTS) (\<lambda>_.
     place_targets S rest))"

text \<open>On failure the new monitor is dropped, which closes its descriptor.\<close>

definition HoneyPot_new :: "'w honey_sys \<Rightarrow> ('w, bytes \<rightharpoonup> u32 \<times> u32 \<times> bytes) hp_prog" where
  "HoneyPot_new S =
     (if older (kernel_version S) H26_KERNEL_VERSION then lift_res (Inl (Err (Message ''kernel version unsupported'')))
      else
        bind_st (ask_hp (read_passwd S)) (\<lambda>etc_passwd.
        bind_st (lift_res (the_or etc_passwd IoError)) (\<lambda>passwd_lines.
        bind_st (lift_res (user_homes passwd_lines Map.empty)) (\<lambda>homes.
        bind_st (check_hp (fanotify_init S)) (\<lambda>_ s.
        case place_targets S (homes_order S homes) s of
          (Inl e, s) \<Rightarrow> (Inl e, s\<lparr>marks := []\<rparr>)
        | (Inr _, s) \<Rightarrow> (Inr homes, s))))))"

definition HoneyPot_reset :: "'w honey_sys \<Rightarrow> (bytes \<rightharpoonup> u32 \<times> u32 \<times> bytes) \<Rightarrow> ('w, unit) hp_prog" where
  "HoneyPot_reset S homes = bind_st (FileMonitor_flush S) (\<lambda>_. place_targets S (homes_order S homes))"

definition HoneyPot_drop :: "'w honey_sys \<Rightarrow> (bytes \<rightharpoonup> u32 \<times> u32 \<times> bytes) \<Rightarrow> ('w, unit) hp_prog" where
  "HoneyPot_drop S homes =
     bind_st (FileMonitor_flush S) (\<lambda>_ s.
       (Inr (), s\<lparr>marks := [],
         hp_world := fold (\<lambda>(_, _, _, home_path). remove_tree S (targets_dir home_path)) (homes_order S homes) (hp_world s)\<rparr>))"

subsection \<open>What is guaranteed\<close>

text \<open>The lines of \<^verbatim>\<open>/etc/passwd\<close>: a login is a line whose shell ends in \<^verbatim>\<open>sh\<close> and whose home is under \<^verbatim>\<open>/root\<close> or \<^verbatim>\<open>/home\<close>.\<close>

definition login_entry :: "bytes \<Rightarrow> (bytes \<times> u32 \<times> u32 \<times> bytes) option" where
  "login_entry line = (let fs = split_on 0x3a line in
     if ends_with (fs ! 6) (ascii ''sh'') \<and> (starts_with (fs ! 5) (ascii ''/root'') \<or> starts_with (fs ! 5) (ascii ''/home''))
     then Some (fs ! 0, parse_id (fs ! 2), parse_id (fs ! 3), fs ! 5) else None)"

lemma passwd_line_eq:
  "passwd_line line homes =
     (if length (split_on 0x3a line) < 7 then Inl Panic
      else Inr (case login_entry line of None \<Rightarrow> homes | Some (u, e) \<Rightarrow> homes(u \<mapsto> e)))"
  by (auto simp: passwd_line_def nth_res_def login_entry_def Let_def bind_res_def simp del: ascii_Cons)

lemma user_homes_eq:
  "user_homes ls homes =
     (if \<exists>line. Some line \<in> set ls \<and> length (split_on 0x3a line) < 7 then Inl Panic
      else Inr (homes ++ map_of (rev (List.map_filter (\<lambda>l. Option.bind l login_entry) ls))))"
proof (induction ls homes rule: user_homes.induct)
  case (3 line rest homes)
  show ?case
  proof (cases "length (split_on 0x3a line) < 7")
    case False
    then have "user_homes (Some line # rest) homes =
        user_homes rest (case login_entry line of None \<Rightarrow> homes | Some (u, e) \<Rightarrow> homes(u \<mapsto> e))"
      by (simp add: passwd_line_eq)
    then show ?thesis
      using 3 False by (auto simp: passwd_line_eq List.map_filter_def split: option.splits)
  qed (auto simp: passwd_line_eq)
qed (simp_all add: List.map_filter_def)

text \<open>Reading the homes panics exactly when some readable line of \<^verbatim>\<open>/etc/passwd\<close> has fewer than seven fields, such as an empty line;
  otherwise every user has the entry of the last login line with that name, and no other user has one.\<close>

theorem user_homes_of_passwd:
  "user_homes ls Map.empty =
     (if \<exists>line. Some line \<in> set ls \<and> length (split_on 0x3a line) < 7 then Inl Panic
      else Inr (map_of (rev (List.map_filter (\<lambda>l. Option.bind l login_entry) ls))))"
  by (simp add: user_homes_eq)

text \<open>Whether \<open>add\<close> sets a mark on a path, asked in the world in which it is called: the file exists, and the kernel accepts the mark.\<close>

definition accepts :: "'w honey_sys \<Rightarrow> bytes \<Rightarrow> 'w \<Rightarrow> bool" where
  "accepts S path w =
     (case hp_exists S path w of (ex, w) \<Rightarrow> ex \<and>
       (if older (kernel_version S) H51_KERNEL_VERSION then fst (fanotify_mark S LOW_FILE_MATCH_MASK path w)
        else case hp_is_dir S path w of (dir, w) \<Rightarrow>
          fst (fanotify_mark S (if dir then H51_DIRS_MATCH_MASK else H51_FILE_MATCH_MASK) path w)))"

text \<open>The paths that are tried, with the worlds in which it happens.\<close>

fun targets_tried :: "'w honey_sys \<Rightarrow> bytes \<Rightarrow> bytes list \<Rightarrow> 'w monitor \<Rightarrow> (bytes \<times> 'w) list" where
  "targets_tried S dst [] s = []"
| "targets_tried S dst (t # ts) s = (let path = dst @ ascii ''/'' @ t in
     (path, hp_world s) # targets_tried S dst ts (snd (FileMonitor_add S path s)))"

fun homes_tried :: "'w honey_sys \<Rightarrow> (bytes \<times> u32 \<times> u32 \<times> bytes) list \<Rightarrow> 'w monitor \<Rightarrow> (bytes \<times> 'w) list" where
  "homes_tried S [] s = []"
| "homes_tried S ((_, uid, gid, home_path) # rest) s =
     (let s = snd (copy_elkeid_targets S (targets_dir home_path) uid gid s) in
      targets_tried S (targets_dir home_path) HONEYPOTS s @
      homes_tried S rest (snd (add_targets S (targets_dir home_path) HONEYPOTS s)))"

definition marked :: "'w monitor \<Rightarrow> bytes set" where
  "marked s = fst ` set (marks s)"

lemma add_marked:
  assumes "FileMonitor_add S path s = (r, s')" "r \<noteq> Inl Panic"
  shows "marked s' = marked s \<union> {p. p = path \<and> accepts S path (hp_world s)}"
proof -
  have mark: "marked s2 = marked s1 \<union> {p. p = path \<and> fst (fanotify_mark S m path (hp_world s1))}"
    if "mark_path S path m s1 = (r2, s2)" for m s1 r2 s2
  proof -
    obtain ok w where "fanotify_mark S m path (hp_world s1) = (ok, w)" by fastforce
    then show ?thesis
      using that by (cases ok) (auto simp: mark_path_def check_hp_def ask_hp_def bind_st_def lift_res_def marked_def image_Un)
  qed
  have world: "marked (s\<lparr>hp_world := w\<rparr>) = marked s" for w by (simp add: marked_def)
  show ?thesis
    using assms mark by (auto simp: FileMonitor_add_def accepts_def bind_st_def ask_hp_def return_st_def lift_res_def world
        split: prod.splits if_splits)
qed

lemma add_targets_marked:
  "add_targets S dst ts s = (Inr u, s') \<Longrightarrow> marked s' = marked s \<union> {p. \<exists>w. (p, w) \<in> set (targets_tried S dst ts s) \<and> accepts S p w}"
proof (induction ts arbitrary: s)
  case (Cons t ts)
  obtain r s1 where a: "FileMonitor_add S (dst @ ascii ''/'' @ t) s = (r, s1)" by fastforce
  have rest: "r \<noteq> Inl Panic" "add_targets S dst ts s1 = (Inr u, s')"
    using Cons.prems a by (auto simp del: ascii_Cons split: sum.splits failure.splits)
  show ?case using add_marked[OF a rest(1)] Cons.IH[OF rest(2)] a by (auto simp: Let_def simp del: ascii_Cons)
qed (simp add: return_st_def)

text \<open>Copying sets no mark.\<close>

definition keeps_marks :: "('w, 'a) hp_prog \<Rightarrow> bool" where
  "keeps_marks m \<longleftrightarrow> (\<forall>s. marks (snd (m s)) = marks s)"

lemma keeps_marks_bind: "keeps_marks m \<Longrightarrow> (\<And>x. keeps_marks (f x)) \<Longrightarrow> keeps_marks (bind_st m f)"
  unfolding keeps_marks_def bind_st_def by (auto split: prod.splits sum.splits) (metis snd_conv)+

lemma keeps_marks_basic: "keeps_marks (return_st x)" "keeps_marks (lift_res r)" "keeps_marks (ask_hp f)" "keeps_marks (check_hp g)"
  by (auto simp: keeps_marks_def return_st_def lift_res_def ask_hp_def check_hp_def bind_st_def split: prod.splits)

lemma keeps_marks_copy: "keeps_marks (copy_elkeid_targets S dst uid gid)"
proof -
  have "keeps_marks (copy_loop S dst uid gid entries)" for entries
    by (induction entries) (simp_all add: keeps_marks_bind keeps_marks_basic split: option.split)
  then show ?thesis
    unfolding copy_elkeid_targets_def by (simp add: keeps_marks_bind keeps_marks_basic split: option.split)
qed

lemma place_targets_marked:
  "place_targets S homes s = (Inr u, s') \<Longrightarrow> marked s' = marked s \<union> {p. \<exists>w. (p, w) \<in> set (homes_tried S homes s) \<and> accepts S p w}"
proof (induction homes arbitrary: s)
  case (Cons e homes)
  obtain user uid gid home where e: "e = (user, uid, gid, home)" by (metis prod_cases4)
  obtain r1 s1 where s1: "copy_elkeid_targets S (targets_dir home) uid gid s = (r1, s1)" by fastforce
  obtain r2 s2 where s2: "add_targets S (targets_dir home) HONEYPOTS s1 = (r2, s2)" by fastforce
  have rest: "r2 = Inr ()" "place_targets S homes s2 = (Inr u, s')"
    using Cons.prems e s1 s2 by (cases r1; cases r2; simp add: bind_st_def)+
  have "marked s1 = marked s"
    using keeps_marks_copy[of S "targets_dir home" uid gid] s1 unfolding keeps_marks_def marked_def by (metis snd_conv)
  then show ?case
    using add_targets_marked[OF s2[unfolded rest(1)]] Cons.IH[OF rest(2)] e s1 s2 by (auto simp: Let_def)
qed (simp add: return_st_def)

lemma targets_tried_paths: "map fst (targets_tried S dst ts s) = map (\<lambda>t. dst @ ascii ''/'' @ t) ts"
  by (induction ts arbitrary: s) (simp_all add: Let_def del: ascii_Cons)

lemma homes_tried_paths:
  "map fst (homes_tried S homes s) = concat (map (\<lambda>(_, _, _, home). map (\<lambda>t. targets_dir home @ ascii ''/'' @ t) HONEYPOTS) homes)"
  by (induction S homes s rule: homes_tried.induct) (simp_all add: Let_def targets_tried_paths del: ascii_Cons)


definition sample_honey :: "unit honey_sys" where
  "sample_honey = \<lparr>kernel_version = (5, 10, 0), read_passwd = (\<lambda>w. (Some [], w)), fanotify_init = (\<lambda>w. (True, w)),
     fanotify_mark = (\<lambda>m p w. (True, w)), fanotify_flush = (\<lambda>w. (True, w)), hp_exists = (\<lambda>p w. (True, w)),
     hp_is_dir = (\<lambda>p w. (False, w)), create_dir_all = (\<lambda>p w. (True, w)), chown = (\<lambda>p u g w. (True, w)),
     read_dir = (\<lambda>p w. (Some [Some (ascii ''t'', Some False)], w)), copy_file = (\<lambda>p q w. (True, w)), remove_tree = (\<lambda>p w. w),
     homes_order = (\<lambda>m. case m [] of None \<Rightarrow> [] | Some e \<Rightarrow> [([], e)])\<rparr>"

lemma sample_honey_sel:
  "kernel_version sample_honey = (5, 10, 0)" "fanotify_mark sample_honey m p w = (True, w)" "fanotify_flush sample_honey w = (True, w)"
  "hp_exists sample_honey p w = (True, w)" "hp_is_dir sample_honey p w = (False, w)" "chown sample_honey p u g w = (True, w)"
  "read_dir sample_honey p w = (Some [Some (ascii ''t'', Some False)], w)" "copy_file sample_honey p q w = (True, w)"
  "homes_order sample_honey h = (case h [] of None \<Rightarrow> [] | Some e \<Rightarrow> [([], e)])"
  by (simp_all add: sample_honey_def)

lemma sample_targets:
  assumes "list_all (\<lambda>t. 0 \<notin> set t) ts" "0 \<notin> set dst"
  shows "\<exists>s'. add_targets sample_honey dst ts s = (Inr (), s')"
  using assms(1)
proof (induction ts arbitrary: s)
  case (Cons t ts)
  then show ?case using assms(2)
    by (simp add: FileMonitor_add_def mark_path_def sample_honey_sel older_def H51_KERNEL_VERSION_def
        check_hp_def ask_hp_def bind_st_def return_st_def lift_res_def)
qed (simp add: return_st_def)


text \<open>The keys of the table of hashes are file names, and the link that is looked up is an absolute path.\<close>

lemma honeypots_relative: "HONEYPOTSSHA256 (0x2f # path) = None"
  by (simp add: HONEYPOTSSHA256_def)

end
