(* ===== verification/Scanner_Work.thy ===== *)
theory Scanner_Work
  imports Scanner_Detect Scanner_Honeypot
begin

section \<open>The threads of the scanner\<close>

text \<open>
  \<open>Detector\<close> of \<^verbatim>\<open>src/plugins/scanner/src/detector.rs\<close>: the thread that receives the tasks of the agent (\<open>recv_task\<close>, one task) and the
  thread that carries them out (\<open>work_round\<close>, one turn of its \<open>select!\<close>); the limits of a full scan of
  \<^verbatim>\<open>model/functional/fulldiskscan.rs\<close>, whose threads are a parameter, with the worker \<open>SuperDetector\<close>. A message on the channel of \<open>s_locker\<close>, which ends the
  plugin, is counted. The main thread calls \<open>work\<close> again whenever it returns. Log lines and waits are left out.
\<close>

subsection \<open>Tasks\<close>

record DetectTask =
  task_type :: bytes
  task_pid :: int
  task_path :: bytes
  task_rpath :: bytes
  task_size :: nat
  task_btime :: nat
  task_mtime :: nat
  task_token :: bytes
  task_add_ons :: "(bytes \<rightharpoonup> bytes) option"

record agent_task =
  at_data_type :: int
  at_data :: bytes
  at_token :: bytes

text \<open>A control group is made with its limit, and the process is added to it; \<open>False\<close> where an \<open>unwrap\<close> of \<open>setup_cgroup\<close> fails.\<close>

record 'w cgroup_sys =
  memory_group :: "bytes \<Rightarrow> int \<Rightarrow> u32 \<Rightarrow> 'w \<Rightarrow> bool \<times> 'w"
  cpu_group :: "bytes \<Rightarrow> int \<Rightarrow> u32 \<Rightarrow> 'w \<Rightarrow> bool \<times> 'w"

definition setup_cgroup :: "'w cgroup_sys \<Rightarrow> u32 \<Rightarrow> int \<Rightarrow> int \<Rightarrow> 'w \<Rightarrow> unit res \<times> 'w" where
  "setup_cgroup S pid mem cpu = (\<lambda>w.
     case memory_group S (ascii ''clamav_mem'') mem pid w of
       (False, w) \<Rightarrow> (Inl Panic, w)
     | (True, w) \<Rightarrow>
         (case cpu_group S (ascii ''clamav_cpu'') cpu pid w of (False, w) \<Rightarrow> (Inl Panic, w) | (True, w) \<Rightarrow> (Inr (), w)))"

record 'w recv_sys =
  parse_map :: "bytes \<Rightarrow> (bytes \<rightharpoonup> bytes) option"
  honey :: "'w honey_sys"
  recv_cgroup :: "'w cgroup_sys"

record 'w receiver =
  queue :: "DetectTask list"
  arf_t :: "(bytes \<rightharpoonup> u32 \<times> u32 \<times> bytes) option"
  rules :: "bytes list"
  recv_monitor :: "'w monitor"
  recv_alive :: bool

definition QUEUE_BOUND :: nat where
  "QUEUE_BOUND = 256"

definition try_send :: "DetectTask \<Rightarrow> 'w receiver \<Rightarrow> bool \<times> 'w receiver" where
  "try_send task r = (if length (queue r) < QUEUE_BOUND then (True, r\<lparr>queue := queue r @ [task]\<rparr>) else (False, r))"

definition plain_task :: "bytes \<Rightarrow> DetectTask" where
  "plain_task ty = \<lparr>task_type = ty, task_pid = 0, task_path = [], task_rpath = [], task_size = 0, task_btime = 0,
     task_mtime = 0, task_token = [], task_add_ons = None\<rparr>"

definition MAX_SCAN_ENGINES :: u32 where
  "MAX_SCAN_ENGINES = 4"

definition MAX_SCAN_CPU_100 :: u32 where
  "MAX_SCAN_CPU_100 = 4"

definition MAX_SCAN_MEM_MB :: u32 where
  "MAX_SCAN_MEM_MB = 2048"

text \<open>A number of the request, unless it is missing, malformed or zero.\<close>

definition limit_of :: "(bytes \<rightharpoonup> bytes) \<Rightarrow> bytes \<Rightarrow> u32 \<Rightarrow> u32" where
  "limit_of m key dflt =
     (case m key of
        None \<Rightarrow> dflt
      | Some c \<Rightarrow> (let n = (case parse_u32 c of None \<Rightarrow> 0 | Some n \<Rightarrow> n) in if n \<noteq> 0 then n else dflt))"

definition recv_task :: "'w recv_sys \<Rightarrow> u32 \<Rightarrow> agent_task \<Rightarrow> 'w receiver \<Rightarrow> 'w receiver" where
  "recv_task S ppid t r =
     (if at_data_type t = 6053 then
        if 250 \<le> length (queue r) then r
        else (case parse_map S (at_data t) of
                None \<Rightarrow> r
              | Some task_map \<Rightarrow>
                  (case task_map (ascii ''exe'') of
                     None \<Rightarrow> r
                   | Some exe \<Rightarrow>
                       if \<not> starts_with exe (ascii ''/'') then r
                       else snd (try_send ((plain_task (ascii ''6053''))\<lparr>task_path := exe, task_token := at_token t,
                              task_add_ons := Some task_map\<rparr>) r)))
      else if at_data_type t = 6050 then r\<lparr>rules := rules r @ [at_data t]\<rparr>
      else if at_data_type t = 6051 then
        (case arf_t r of
           Some _ \<Rightarrow> r
         | None \<Rightarrow>
             (case HoneyPot_new (honey S) (recv_monitor r) of
                (Inr hp, mon) \<Rightarrow> r\<lparr>arf_t := Some hp, recv_monitor := mon\<rparr>
              | (Inl (Err _), mon) \<Rightarrow> r\<lparr>recv_monitor := mon\<rparr>
              | (Inl Panic, mon) \<Rightarrow> r\<lparr>recv_monitor := mon, recv_alive := False\<rparr>))
      else if at_data_type t = 6052 then
        (case arf_t r of
           None \<Rightarrow> r
         | Some hp \<Rightarrow> r\<lparr>arf_t := None, recv_monitor := snd (HoneyPot_drop (honey S) hp (recv_monitor r))\<rparr>)
      else if at_data_type t = 6054 then
        (case arf_t r of
           None \<Rightarrow> r
         | Some hp \<Rightarrow>
             (case HoneyPot_reset (honey S) hp (recv_monitor r) of
                (Inl Panic, mon) \<Rightarrow> r\<lparr>recv_monitor := mon, recv_alive := False\<rparr>
              | (_, mon) \<Rightarrow> r\<lparr>recv_monitor := mon\<rparr>))
      else if at_data_type t = 6055 then snd (try_send (plain_task (ascii ''6055'')) r)
      else if at_data_type t = 6056 then
        (case try_send (plain_task (ascii ''6056'')) r of
           (False, r) \<Rightarrow> r
         | (True, r) \<Rightarrow>
             (case setup_cgroup (recv_cgroup S) ppid (1024 * 1024 * 180) 10000 (hp_world (recv_monitor r)) of
                (ok, w) \<Rightarrow> r\<lparr>recv_monitor := (recv_monitor r)\<lparr>hp_world := w\<rparr>, recv_alive := (recv_alive r \<and> ok = Inr ())\<rparr>))
      else if at_data_type t = 6057 then
        (case parse_map S (at_data t) of
           None \<Rightarrow> r
         | Some task_map \<Rightarrow>
             snd (try_send ((plain_task (ascii ''6057''))\<lparr>task_pid := sint (ppid :: u32), task_token := at_token t,
               task_btime := unat (limit_of task_map (ascii ''worker'') MAX_SCAN_ENGINES),
               task_mtime := unat (limit_of task_map (ascii ''cpu'') MAX_SCAN_CPU_100),
               task_size := unat (limit_of task_map (ascii ''mem'') MAX_SCAN_MEM_MB)\<rparr>) r))
      else r)"

subsection \<open>The detector\<close>

record meta =
  meta_len :: nat
  meta_created :: "int option"
  meta_modified :: "int option"

text \<open>The times in seconds since the epoch; 0 when a time is unknown or before it.\<close>

definition get_file_btime :: "meta \<Rightarrow> nat \<times> nat" where
  "get_file_btime m =
     (let secs = (\<lambda>t. case t of None \<Rightarrow> 0 | Some t \<Rightarrow> if t < 0 then 0 else nat t)
      in (secs (meta_created m), secs (meta_modified m)))"

record 'w work_sys =
  ss :: "'w scan_sys"
  parse_db :: "bytes \<Rightarrow> DBManager option"
  send_record :: "agent_record \<Rightarrow> 'w \<Rightarrow> bool \<times> 'w"
  now_secs :: "'w \<Rightarrow> int \<times> 'w"
  metadata :: "bytes \<Rightarrow> 'w \<Rightarrow> (bytes + meta) \<times> 'w"
  process_new :: "int \<Rightarrow> 'w \<Rightarrow> proc_info option \<times> 'w"
  cgroups :: "'w cgroup_sys"
  full_scan_jobs :: "u32 \<Rightarrow> 'w host \<Rightarrow> 'w host"

record 'w detector =
  det_host :: "'w host"
  db_manager :: DBManager
  db_path :: bytes
  scanner :: bool
  det_ppid :: u32
  supper_mode :: bool
  sent :: "agent_record list"
  signals :: nat

datatype work_exit = Again | Returned | Panicked

type_synonym 'w work = "'w detector \<Rightarrow> work_exit \<times> 'w detector"

definition stop_plugin :: "'w work" where
  "stop_plugin d = (Returned, d\<lparr>signals := signals d + 1\<rparr>)"

definition then_work :: "'w work \<Rightarrow> 'w work \<Rightarrow> 'w work" where
  "then_work m n = (\<lambda>d. case m d of (Again, d) \<Rightarrow> n d | (e, d) \<Rightarrow> (e, d))"

text \<open>A call of the host: its result decides how the turn goes on.\<close>

definition host_call :: "('w, 'a) host_prog \<Rightarrow> (error \<Rightarrow> 'w work) \<Rightarrow> ('a \<Rightarrow> 'w work) \<Rightarrow> 'w work" where
  "host_call m err f = (\<lambda>d.
     case m (det_host d) of
       (Inl Panic, h) \<Rightarrow> (Panicked, d\<lparr>det_host := h\<rparr>)
     | (Inl (Err e), h) \<Rightarrow> err e (d\<lparr>det_host := h\<rparr>)
     | (Inr x, h) \<Rightarrow> f x (d\<lparr>det_host := h\<rparr>))"

definition net_call :: "('w \<Rightarrow> 'a \<times> 'w) \<Rightarrow> ('a \<Rightarrow> 'w work) \<Rightarrow> 'w work" where
  "net_call f g = host_call (on_net (\<lambda>w. case f w of (x, w) \<Rightarrow> (Inr x, w))) (\<lambda>_. Pair Again) g"

text \<open>Sending a record; when it fails, the detector ends the plugin and a worker of a full scan just returns.\<close>

definition report :: "'w work_sys \<Rightarrow> 'w work \<Rightarrow> (int \<Rightarrow> agent_record) \<Rightarrow> 'w work" where
  "report S failed rec =
     net_call (now_secs S) (\<lambda>now.
     net_call (send_record S (rec now)) (\<lambda>ok d.
       if ok then (Again, d\<lparr>sent := sent d @ [rec now]\<rparr>) else failed d))"

definition load_engine :: "'w work_sys \<Rightarrow> 'w work" where
  "load_engine S = (\<lambda>d.
     host_call (load (db (ss S)) (db_manager d)) (\<lambda>_. stop_plugin) (\<lambda>_.
     net_call (cl_engine (ss S) (db_path d)) (\<lambda>ok d.
       if ok then (Again, d\<lparr>scanner := True\<rparr>) else stop_plugin d)) d)"

subsection \<open>A turn\<close>

definition work_rules :: "'w work_sys \<Rightarrow> bytes option \<Rightarrow> 'w work" where
  "work_rules S data =
     (let reload = (\<lambda>d. load_engine S (d\<lparr>scanner := False\<rparr>)) in
      case data of
        None \<Rightarrow> reload
      | Some rdata \<Rightarrow>
          (case parse_db S rdata of
             None \<Rightarrow> Pair Again
           | Some dm \<Rightarrow>
               then_work
                 (then_work
                   (\<lambda>d. host_call (DBManager_update (db (ss S)) (db_manager d) (version dm) (db_sha256 dm) (passwd dm) (url dm))
                          (\<lambda>_. Pair Again) (\<lambda>m d. (Again, d\<lparr>db_manager := m\<rparr>)) d)
                   (report S stop_plugin (\<lambda>now. RegReport_to_record now (version dm) (db_sha256 dm))))
                 reload))"

definition file_event :: "DetectTask \<Rightarrow> scan_result \<Rightarrow> DetectFileEvent" where
  "file_event task r =
     (case r of (ftype, fclass, fname, xhash, md5sum, matched) \<Rightarrow>
        \<lparr>df_types = ftype, df_class = fclass, df_name = fname, df_exe = task_rpath task, df_exe_size = show_nat (task_size task),
         df_exe_hash = xhash, df_md5_hash = md5sum, df_create_at = show_nat (task_btime task),
         df_modify_at = show_nat (task_mtime task), df_matched = matched\<rparr>)"

definition work_file :: "'w work_sys \<Rightarrow> 'w work \<Rightarrow> (bytes \<Rightarrow> ('w, scan_result) host_prog) \<Rightarrow> DetectTask \<Rightarrow> 'w work" where
  "work_file S failed scanner_of task =
     host_call (scanner_of (task_path task)) (\<lambda>_. Pair Again) (\<lambda>r.
       if fst r \<noteq> not_detected then report S failed (\<lambda>now. file_to_record (json (ss S)) now (file_event task r)) else Pair Again)"

definition work_proc :: "'w work_sys \<Rightarrow> 'w work \<Rightarrow> (bytes \<Rightarrow> ('w, scan_result) host_prog) \<Rightarrow> DetectTask \<Rightarrow> 'w work" where
  "work_proc S failed scanner_of task =
     host_call (scanner_of (task_path task)) (\<lambda>_. Pair Again) (\<lambda>(ftype, fclass, fname, xhash, md5sum, matched).
     net_call (process_new S (task_pid task)) (\<lambda>p.
       let event = (case DetectProcEvent_new p (task_pid task) ftype fclass fname (task_rpath task) xhash md5sum
             (task_size task) (task_btime task) (task_mtime task) matched of Inl _ \<Rightarrow> proc_default | Inr e \<Rightarrow> e) in
       if ftype \<noteq> not_detected then report S failed (\<lambda>now. proc_to_record (json (ss S)) now event) else Pair Again))"

definition one_task_event :: "DetectTask \<Rightarrow> meta \<Rightarrow> scan_result \<Rightarrow> DetectOneTaskEvent" where
  "one_task_event task m r =
     (case (get_file_btime m, r) of ((created, modified), ftype, fclass, fname, xhash, md5sum, matched) \<Rightarrow>
        \<lparr>do_types = ftype, do_class = fclass, do_name = fname, do_exe = task_path task, do_exe_size = show_nat (meta_len m),
         do_exe_hash = xhash, do_md5_hash = md5sum, do_create_at = show_nat created, do_modify_at = show_nat modified,
         do_error = [], do_token = task_token task, do_matched = matched\<rparr>)"

definition one_task_error :: "DetectTask \<Rightarrow> bytes \<Rightarrow> DetectOneTaskEvent" where
  "one_task_error task e =
     \<lparr>do_types = [], do_class = [], do_name = [], do_exe = task_path task, do_exe_size = [], do_exe_hash = [], do_md5_hash = [],
      do_create_at = [], do_modify_at = [], do_error = e, do_token = task_token task, do_matched = None\<rparr>"

definition work_one_task :: "'w work_sys \<Rightarrow> DetectTask \<Rightarrow> 'w work" where
  "work_one_task S task =
     net_call (metadata S (task_path task)) (\<lambda>m.
     case m of
       Inl e \<Rightarrow>
         then_work (report S stop_plugin (\<lambda>now. task_to_record (json (ss S)) now (one_task_error task e))) (Pair Returned)
     | Inr m \<Rightarrow>
         host_call (scan (ss S) (task_path task)) (\<lambda>_. Pair Again) (\<lambda>r.
           let event = one_task_event task m r in
           case task_add_ons task of
             Some addons \<Rightarrow> report S stop_plugin (\<lambda>now. task_to_record_with_add_on (json (ss S)) now addons event)
           | None \<Rightarrow> report S stop_plugin (\<lambda>now. task_to_record (json (ss S)) now event)))"

definition work_ransom :: "'w work_sys \<Rightarrow> DetectTask \<Rightarrow> 'w work" where
  "work_ransom S task =
     host_call (scan (ss S) (task_path task)) (\<lambda>_. Pair Again) (\<lambda>(ftype, fclass, fname, xhash, md5sum, matched).
     net_call (process_new S (task_pid task)) (\<lambda>p.
       let event = (case AntiRansomEvent_new p (task_pid task) ftype (ascii ''anti_ransom'') fname (task_path task) xhash md5sum
             (task_size task) (task_btime task) (task_mtime task) (task_rpath task) (task_token task) matched of
               Inl _ \<Rightarrow> ransom_of [] [] proc_default | Inr e \<Rightarrow> e) in
       report S stop_plugin (\<lambda>now. ransom_to_record (json (ss S)) now event)))"

text \<open>The limits of \<open>FullScan\<close> are computed in 32 bits. Its threads run to their end.\<close>

definition full_scan_limits :: "u32 \<Rightarrow> u32 \<Rightarrow> int \<times> int" where
  "full_scan_limits cpu mem = (uint (1024 * 1024 * mem), uint (1000 * cpu))"

definition FullScan :: "'w work_sys \<Rightarrow> u32 \<Rightarrow> u32 \<Rightarrow> u32 \<Rightarrow> u32 \<Rightarrow> ('w, unit) host_prog" where
  "FullScan S pid worker_count cpu mem =
     (case full_scan_limits cpu mem of (mem_limit, cpu_limit) \<Rightarrow>
        bind_st (on_net (setup_cgroup (cgroups S) pid mem_limit cpu_limit)) (\<lambda>_ h. (Inr (), full_scan_jobs S worker_count h)))"

definition full_scan_finished :: "'w work_sys \<Rightarrow> DetectTask \<Rightarrow> 'w work" where
  "full_scan_finished S task =
     net_call (now_secs S) (\<lambda>now.
     let finished = FulllScanFinished_to_record_token now (task_token task) in
     net_call (send_record S finished) (\<lambda>ok d.
     host_call (on_net (setup_cgroup (cgroups S) (det_ppid d) (1024 * 1024 * 180) 10000)) (\<lambda>_. Pair Again) (\<lambda>_. Pair Again)
       (d\<lparr>sent := (if ok then sent d @ [finished] else sent d)\<rparr>)))"

definition work_full_scan :: "'w work_sys \<Rightarrow> DetectTask \<Rightarrow> 'w work" where
  "work_full_scan S task = (\<lambda>d.
     host_call (FullScan S (det_ppid d) (of_nat (task_btime task)) (of_nat (task_mtime task)) (of_nat (task_size task)))
       (\<lambda>_. Pair Again) (\<lambda>_ d. full_scan_finished S task (d\<lparr>scanner := False\<rparr>)) d)"

definition work_task :: "'w work_sys \<Rightarrow> DetectTask \<Rightarrow> 'w work" where
  "work_task S task =
     (if task_type task = ascii ''6051'' then work_file S stop_plugin (scan (ss S)) task
      else if task_type task = ascii ''6052'' then work_proc S stop_plugin (scan (ss S)) task
      else if task_type task = ascii ''6053'' then work_one_task S task
      else if task_type task = ascii ''6054'' then work_ransom S task
      else if task_type task = ascii ''6055'' then (\<lambda>d. (Again, d\<lparr>supper_mode := True\<rparr>))
      else if task_type task = ascii ''6056'' then (\<lambda>d. (Again, d\<lparr>supper_mode := False\<rparr>))
      else if task_type task = ascii ''6057'' then work_full_scan S task
      else Pair Again)"

datatype work_event = Rules "bytes option" | Task "DetectTask option" | Timeout

fun work_round :: "'w work_sys \<Rightarrow> work_event \<Rightarrow> 'w work" where
  "work_round S (Rules data) d = work_rules S data d"
| "work_round S (Task data) d =
     then_work (\<lambda>d. if scanner d then (Again, d) else load_engine S d)
       (case data of None \<Rightarrow> Pair Panicked | Some task \<Rightarrow> work_task S task) d"
| "work_round S Timeout d = (Again, d\<lparr>scanner := False\<rparr>)"

text \<open>A turn of a worker of the full scan.\<close>

definition super_round :: "'w work_sys \<Rightarrow> DetectTask option \<Rightarrow> 'w work" where
  "super_round S data =
     (case data of
        None \<Rightarrow> Pair Returned
      | Some task \<Rightarrow>
          if task_type task = ascii ''6051'' then work_file S (Pair Returned) (scan_fast (ss S)) task
          else if task_type task = ascii ''6052'' then work_proc S (Pair Returned) (scan_fast (ss S)) task
          else Pair Again)"

subsection \<open>What a turn keeps\<close>

text \<open>A step that does not start the engine.\<close>

definition off :: "'w work \<Rightarrow> bool" where
  "off m \<longleftrightarrow> (\<forall>d. scanner (snd (m d)) \<longrightarrow> scanner d)"

text \<open>A step after which the engine runs only with the files and the manager it had before.\<close>

definition steady :: "'w work \<Rightarrow> bool" where
  "steady m \<longleftrightarrow> (\<forall>d. scanner (snd (m d)) \<longrightarrow>
     scanner d \<and> files (det_host (snd (m d))) = files (det_host d) \<and> db_manager (snd (m d)) = db_manager d)"

lemma steady_off: "steady m \<Longrightarrow> off m"
  by (simp add: steady_def off_def)

lemma steady_exits: "steady (Pair e)" "steady stop_plugin"
  by (simp_all add: steady_def stop_plugin_def)

lemma host_call_cases:
  obtains (panic) h where "m (det_host d) = (Inl Panic, h)" "host_call m err f d = (Panicked, d\<lparr>det_host := h\<rparr>)"
  | (err) e h where "m (det_host d) = (Inl (Err e), h)" "host_call m err f d = err e (d\<lparr>det_host := h\<rparr>)"
  | (ok) x h where "m (det_host d) = (Inr x, h)" "host_call m err f d = f x (d\<lparr>det_host := h\<rparr>)"
proof -
  obtain r h where m: "m (det_host d) = (r, h)" by (meson surj_pair)
  show ?thesis
  proof (cases r)
    case (Inl e)
    then show ?thesis using m panic err by (cases e) (simp_all add: host_call_def)
  next
    case (Inr x)
    then show ?thesis using m ok by (simp add: host_call_def)
  qed
qed

lemma steadyD:
  "steady m \<Longrightarrow> scanner (snd (m d)) \<Longrightarrow> scanner d \<and> files (det_host (snd (m d))) = files (det_host d) \<and> db_manager (snd (m d)) = db_manager d"
  by (simp add: steady_def)

lemma steady_host_call:
  assumes "changes_only (\<lambda>_. False) m" "\<And>e. steady (err e)" "\<And>x. steady (f x)"
  shows "steady (host_call m err f)"
  unfolding steady_def
proof (intro allI impI)
  fix d :: "'a detector"
  assume on: "scanner (snd (host_call m err f d))"
  have same: "files h = files (det_host d)" if "m (det_host d) = (r, h)" for r h
    using changes_onlyD[OF assms(1) that] by auto
  show "scanner d \<and> files (det_host (snd (host_call m err f d))) = files (det_host d) \<and>
      db_manager (snd (host_call m err f d)) = db_manager d"
  proof (cases rule: host_call_cases[of m d err f])
    case (panic h)
    then show ?thesis using on same by simp
  next
    case (err e h)
    then show ?thesis using on same[OF err(1)] steadyD[OF assms(2), of e "d\<lparr>det_host := h\<rparr>"] by simp
  next
    case (ok x h)
    then show ?thesis using on same[OF ok(1)] steadyD[OF assms(3), of x "d\<lparr>det_host := h\<rparr>"] by simp
  qed
qed

lemma offD: "off m \<Longrightarrow> scanner (snd (m d)) \<Longrightarrow> scanner d"
  by (simp add: off_def)

lemma off_host_call:
  assumes "\<And>e. off (err e)" "\<And>x. off (f x)"
  shows "off (host_call m err f)"
  unfolding off_def
proof (intro allI impI)
  fix d :: "'a detector"
  assume on: "scanner (snd (host_call m err f d))"
  show "scanner d"
  proof (cases rule: host_call_cases[of m d err f])
    case (panic h)
    then show ?thesis using on by simp
  next
    case (err e h)
    then show ?thesis using on offD[OF assms(1), of e "d\<lparr>det_host := h\<rparr>"] by simp
  next
    case (ok x h)
    then show ?thesis using on offD[OF assms(2), of x "d\<lparr>det_host := h\<rparr>"] by simp
  qed
qed

lemma steady_net_call: "(\<And>x. steady (g x)) \<Longrightarrow> steady (net_call f g)"
  unfolding net_call_def by (intro steady_host_call changes steady_exits)

lemma then_work_cases:
  obtains d1 where "m d = (Again, d1)" "then_work m n d = n d1" | e d1 where "m d = (e, d1)" "e \<noteq> Again" "then_work m n d = (e, d1)"
proof -
  obtain e d1 where m: "m d = (e, d1)" by (meson surj_pair)
  then show ?thesis using that by (cases e) (simp_all add: then_work_def)
qed

lemma steady_then:
  assumes "steady m" "steady n"
  shows "steady (then_work m n)"
  unfolding steady_def
proof (intro allI impI)
  fix d :: "'a detector"
  assume "scanner (snd (then_work m n d))"
  then show "scanner d \<and> files (det_host (snd (then_work m n d))) = files (det_host d) \<and>
      db_manager (snd (then_work m n d)) = db_manager d"
    using steadyD[OF assms(1), of d] steadyD[OF assms(2)]
    by (cases rule: then_work_cases[of m d n]) (metis snd_conv)+
qed

lemma off_then: "off m \<Longrightarrow> off n \<Longrightarrow> off (then_work m n)"
  unfolding off_def by (metis snd_conv then_work_cases)

lemma steady_report: "steady failed \<Longrightarrow> steady (report S failed rec)"
  unfolding report_def by (intro steady_net_call) (auto simp: steady_def)

lemma steady_if: "steady m \<Longrightarrow> steady n \<Longrightarrow> steady (if b then m else n)"
  by simp

lemma scan_changes: "changes_only (\<lambda>_. False) (scan_with S md5_of path)"
  if "\<And>p. changes_only (\<lambda>_. False) (md5_of p)"
proof -
  have "changes_only (\<lambda>_. False) (scan_file S path)"
    unfolding scan_file_def Let_def by (intro changes) (auto intro: changes split: cl_result.split)
  moreover have "changes_only (\<lambda>_. False) (get_file_xhash S path)"
    unfolding get_file_xhash_def by (intro changes)
  ultimately show ?thesis using that unfolding scan_with_def by (auto intro!: changes)
qed

lemma scan_keeps: "changes_only (\<lambda>_. False) (scan S path)"
  unfolding scan_def by (intro scan_changes) (auto simp: get_file_md5_def hash_file_def intro!: changes)

lemma off_net_call: "(\<And>x. off (g x)) \<Longrightarrow> off (net_call f g)"
  unfolding net_call_def by (intro off_host_call) (simp_all add: off_def)

lemma FullScan_fails:
  assumes "FullScan S pid n cpu mem h = (Inl e, h')"
  shows "files h' = files h"
proof -
  obtain r w where "setup_cgroup (cgroups S) pid (uint (1024 * 1024 * mem)) (uint (1000 * cpu)) (net h) = (r, w)" by fastforce
  then show ?thesis
    using assms by (cases r) (auto simp: FullScan_def full_scan_limits_def bind_st_def on_net_def)
qed

lemma off_finished: "off (full_scan_finished S task)"
proof -
  have "off (\<lambda>d :: 'a detector. host_call (on_net (f d)) (\<lambda>_. Pair Again) (\<lambda>_. Pair Again) (d\<lparr>sent := g d\<rparr>))" for f and g :: "'a detector \<Rightarrow> _"
    by (auto simp: off_def host_call_def on_net_def split: prod.splits sum.splits failure.splits)
  then show ?thesis unfolding full_scan_finished_def Let_def by (intro off_net_call)
qed

lemma full_scan_steady: "steady (work_full_scan S task)"
  unfolding steady_def
proof (intro allI impI)
  fix d :: "'a detector"
  let ?run = "FullScan S (det_ppid d) (of_nat (task_btime task)) (of_nat (task_mtime task)) (of_nat (task_size task))"
  let ?rest = "\<lambda>_ d. full_scan_finished S task (d\<lparr>scanner := False\<rparr>)"
  assume on: "scanner (snd (work_full_scan S task d))"
  show "scanner d \<and> files (det_host (snd (work_full_scan S task d))) = files (det_host d) \<and>
      db_manager (snd (work_full_scan S task d)) = db_manager d"
  proof (cases rule: host_call_cases[of ?run d "\<lambda>_. Pair Again" ?rest])
    case (panic h)
    then show ?thesis using on FullScan_fails[OF panic(1)] by (simp add: work_full_scan_def)
  next
    case (err e h)
    then show ?thesis using on FullScan_fails[OF err(1)] by (simp add: work_full_scan_def)
  next
    case (ok x h)
    then show ?thesis using on offD[OF off_finished, of S task "d\<lparr>det_host := h, scanner := False\<rparr>"] by (simp add: work_full_scan_def)
  qed
qed

lemma work_task_steady: "steady (work_task S task)"
proof -
  have "steady (work_file S stop_plugin (scan (ss S)) task)"
    unfolding work_file_def by (intro steady_host_call scan_keeps steady_exits steady_if steady_report)
  moreover have "steady (work_proc S stop_plugin (scan (ss S)) task)"
    unfolding work_proc_def Let_def case_prod_beta
    by (intro steady_host_call scan_keeps steady_exits steady_net_call steady_if steady_report)
  moreover have "steady (work_one_task S task)"
    unfolding work_one_task_def Let_def
    by (intro steady_net_call, auto split: sum.split intro!: steady_then steady_exits steady_report steady_host_call scan_keeps)
       (auto split: option.split intro!: steady_exits steady_report)
  moreover have "steady (work_ransom S task)"
    unfolding work_ransom_def Let_def case_prod_beta
    by (intro steady_host_call scan_keeps steady_exits steady_net_call steady_report)
  moreover have "steady (work_full_scan S task)" by (rule full_scan_steady)
  moreover have "steady (\<lambda>d. (Again, d\<lparr>supper_mode := b\<rparr>))" for b :: bool by (simp add: steady_def)
  ultimately show ?thesis unfolding work_task_def by (intro steady_if steady_exits)
qed

lemma load_archive:
  assumes "reads_faithful S" "load S m s = (Inr u, s')" "db_sha256 m \<noteq> []"
  shows "\<exists>archive. files s' (archive_path m) = Some archive \<and> to_hex S (sha256 S archive) = db_sha256 m"
proof -
  obtain s2 where "get_file_sha256 S (archive_path m) s2 = (Inr (db_sha256 m), s')"
    using assms(2) by (rule load_steps) blast
  from get_file_sha256_result[OF assms(1) this assms(3)] show ?thesis by metis
qed

definition verified :: "'w work_sys \<Rightarrow> 'w detector \<Rightarrow> bool" where
  "verified S d \<longleftrightarrow> (\<exists>archive. files (det_host d) (archive_path (db_manager d)) = Some archive \<and>
     to_hex (db (ss S)) (sha256 (db (ss S)) archive) = db_sha256 (db_manager d))"

lemma load_engine_verified:
  assumes "reads_faithful (db (ss S))" "load_engine S d = (e, d')" "\<not> scanner d" "scanner d'"
    and "db_sha256 (db_manager d') \<noteq> []"
  shows "verified S d'"
proof -
  obtain r h where l: "load (db (ss S)) (db_manager d) (det_host d) = (r, h)" by (meson surj_pair)
  obtain ok w where ok: "cl_engine (ss S) (db_path d) (net h) = (ok, w)" by (meson surj_pair)
  have on: "\<exists>u. r = Inr u" "ok"
    using assms(2-4) l ok
    by (auto simp: load_engine_def host_call_def net_call_def on_net_def stop_plugin_def split: sum.splits failure.splits if_splits)
  then have d': "d' = d\<lparr>det_host := h\<lparr>net := w\<rparr>, scanner := True\<rparr>"
    using assms(2) l ok by (auto simp: load_engine_def host_call_def net_call_def on_net_def)
  then show ?thesis using load_archive[OF assms(1), of "db_manager d" "det_host d"] l on(1) assms(5) by (auto simp: verified_def)
qed

lemma work_rules_parts:
  assumes "work_rules S data d = (e, d')" "\<not> scanner d" "scanner d'"
  obtains d1 where "load_engine S (d1\<lparr>scanner := False\<rparr>) = (e, d')"
proof (cases data)
  case None
  then show ?thesis using assms(1) that by (auto simp: work_rules_def)
next
  case (Some rdata)
  show ?thesis
  proof (cases "parse_db S rdata")
    case None
    then show ?thesis using assms Some by (simp add: work_rules_def)
  next
    case (Some dm)
    let ?m = "then_work
      (\<lambda>d. host_call (DBManager_update (db (ss S)) (db_manager d) (version dm) (db_sha256 dm) (passwd dm) (url dm))
             (\<lambda>_. Pair Again) (\<lambda>m d. (Again, d\<lparr>db_manager := m\<rparr>)) d)
      (report S stop_plugin (\<lambda>now. RegReport_to_record now (version dm) (db_sha256 dm)))"
    have exits: "off (Pair e)" for e by (rule steady_off[OF steady_exits(1)])
    have gen: "off (host_call m (\<lambda>_. Pair Again) (\<lambda>m d. (Again, d\<lparr>db_manager := m\<rparr>)))" for m :: "('a, DBManager) host_prog"
      by (rule off_host_call) (rule exits, simp add: off_def)
    have "off (\<lambda>d. host_call (DBManager_update (db (ss S)) (db_manager d) (version dm) (db_sha256 dm) (passwd dm) (url dm))
             (\<lambda>_. Pair Again) (\<lambda>m d. (Again, d\<lparr>db_manager := m\<rparr>)) d)"
      using gen unfolding off_def by blast
    then have off: "off ?m" by (rule off_then) (intro steady_off steady_report steady_exits)
    have run: "then_work ?m (\<lambda>d. load_engine S (d\<lparr>scanner := False\<rparr>)) d = (e, d')"
      using assms(1) \<open>data = Some rdata\<close> Some by (simp add: work_rules_def Let_def)
    show ?thesis
    proof (cases rule: then_work_cases[of ?m d "\<lambda>d. load_engine S (d\<lparr>scanner := False\<rparr>)"])
      case (1 d1)
      then show ?thesis using run that by simp
    next
      case (2 e1 d1)
      then have "scanner (snd (?m d))" using run assms(3) by simp
      then show ?thesis using offD[OF off] assms(2) by blast
    qed
  qed
qed

subsection \<open>Sending\<close>

definition sends_ok :: "'w work_sys \<Rightarrow> bool" where
  "sends_ok S \<longleftrightarrow> (\<forall>r w. fst (send_record S r w))"

lemma report_sent:
  assumes "sends_ok S"
  shows "\<exists>now d'. report S failed rec d = (Again, d') \<and> sent d' = sent d @ [rec now]"
proof -
  obtain now w where now: "now_secs S (net (det_host d)) = (now, w)" by (meson surj_pair)
  obtain ok w' where ok: "send_record S (rec now) w = (ok, w')" by (meson surj_pair)
  then have "ok" using assms unfolding sends_ok_def by (metis fst_conv)
  then show ?thesis using now ok by (auto simp: report_def net_call_def host_call_def on_net_def)
qed

lemma task_record_fields:
  "rec_fields (task_to_record j now e) (ascii ''error'') = Some (do_error e)"
  "rec_fields (task_to_record j now e) (ascii ''token'') = Some (do_token e)"
  "rec_fields (task_to_record_with_add_on j now addons e) (ascii ''error'') = Some (do_error e)"
  "rec_fields (task_to_record_with_add_on j now addons e) (ascii ''token'') = Some (do_token e)"
  by (auto simp: task_to_record_def task_to_record_token_def task_to_record_with_add_on_def insert_all_def token_field_def
      hit_data_def map_add_def split: option.splits)

subsection \<open>A system\<close>

text \<open>The engine finds \<open>A.B.C\<close> in every file; no process is left when it is asked for.\<close>

definition sample_scan :: "unit scan_sys" where
  "sample_scan = \<lparr>db = sample_db, path_exists = (\<lambda>p w. (True, w)), path_is_file = (\<lambda>p w. (True, w)),
     cl_scan = (\<lambda>php p w. (CL_VIRUS (ascii ''A.B.C'') [], w)), cl_engine = (\<lambda>p w. (True, w)),
     file_stat = (\<lambda>p w. (Some 1, w)), read_head = (\<lambda>c w. ((c, None), w)), xxhash = (\<lambda>n b. b), json = concat\<rparr>"

definition sample_work :: "unit work_sys" where
  "sample_work = \<lparr>ss = sample_scan, parse_db = (\<lambda>b. None), send_record = (\<lambda>r w. (True, w)), now_secs = (\<lambda>w. (0, w)),
     metadata = (\<lambda>p w. (Inr \<lparr>meta_len = 1, meta_created = Some 5, meta_modified = None\<rparr>, w)),
     process_new = (\<lambda>p w. (None, w)), cgroups = \<lparr>memory_group = (\<lambda>n l p w. (True, w)), cpu_group = (\<lambda>n l p w. (True, w))\<rparr>, full_scan_jobs = (\<lambda>n h. h)\<rparr>"

definition sample_detector :: "bool \<Rightarrow> unit detector" where
  "sample_detector on = \<lparr>det_host = sample_host, db_manager = sample_dbm, db_path = DB_PATH, scanner = on, det_ppid = 1,
     supper_mode = False, sent = [], signals = 0\<rparr>"

definition sample_task :: "bytes \<Rightarrow> DetectTask" where
  "sample_task ty = (plain_task ty)\<lparr>task_path := ascii ''/x'', task_token := ascii ''t''\<rparr>"

subsection \<open>Properties\<close>

text \<open>C4: the engine is started only on a verified database: after a turn that started it, whether for a task or
  for new rules, the archive of the database has the checksum of the manager. The reads of a file deliver its
  contents.\<close>

theorem engine_uses_verified_db:
  assumes "reads_faithful (db (ss S))" "work_round S ev d = (e, d')" "\<not> scanner d" "scanner d'"
    and "db_sha256 (db_manager d') \<noteq> []"
  shows "\<exists>archive. files (det_host d') (archive_path (db_manager d')) = Some archive \<and>
    to_hex (db (ss S)) (sha256 (db (ss S)) archive) = db_sha256 (db_manager d')"
proof -
  have "verified S d'"
  proof (cases ev)
    case (Rules data)
    then have "work_rules S data d = (e, d')" using assms(2) by simp
    then obtain d1 where "load_engine S (d1\<lparr>scanner := False\<rparr>) = (e, d')" using assms(3,4) by (rule work_rules_parts)
    then show ?thesis by (rule load_engine_verified[OF assms(1)]) (use assms(4,5) in simp_all)
  next
    case (Task data)
    let ?m = "\<lambda>d. if scanner d then (Again, d) else load_engine S d"
    let ?n = "case data of None \<Rightarrow> Pair Panicked | Some task \<Rightarrow> work_task S task"
    have run: "then_work ?m ?n d = (e, d')" using assms(2) Task by simp
    show ?thesis
    proof (cases rule: then_work_cases[of ?m d ?n])
      case (1 d1)
      have steady: "steady ?n" by (cases data) (simp_all add: steady_exits work_task_steady)
      have n: "?n d1 = (e, d')" using 1(2) run by simp
      have "scanner d1" "files (det_host d') = files (det_host d1)" "db_manager d' = db_manager d1"
        using steadyD[OF steady, of d1, unfolded n snd_conv] assms(4) by simp_all
      moreover have "load_engine S d = (Again, d1)" using 1(1) assms(3) by simp
      ultimately show ?thesis
        using load_engine_verified[OF assms(1), of d Again d1] assms(3,5) by (simp add: verified_def)
    next
      case (2 e1 d1)
      then have "load_engine S d = (e, d')" using run assms(3) by simp
      then show ?thesis by (rule load_engine_verified[OF assms(1) _ assms(3,4,5)])
    qed
  next
    case Timeout
    then show ?thesis using assms(2,4) by auto
  qed
  then show ?thesis by (simp add: verified_def)
qed

theorem engine_uses_verified_db_witness:
  "\<exists>e d' archive. work_round sample_work (Task (Some (sample_task (ascii ''6055'')))) (sample_detector False) = (e, d') \<and>
    scanner d' \<and> files (det_host d') (archive_path (db_manager d')) = Some archive \<and> archive = db_sha256 (db_manager d')"
proof -
  obtain e d' where run: "work_round sample_work (Task (Some (sample_task (ascii ''6055'')))) (sample_detector False) = (e, d')"
    by (meson surj_pair)
  have "case work_round sample_work (Task (Some (sample_task (ascii ''6055'')))) (sample_detector False) of
      (e, d') \<Rightarrow> scanner d' \<and> db_sha256 (db_manager d') \<noteq> []" by code_simp
  then have on: "scanner d'" "db_sha256 (db_manager d') \<noteq> []" using run by (simp_all del: work_round.simps)
  have "reads_faithful (db (ss sample_work))" using sample_reads by (simp add: sample_work_def sample_scan_def)
  from engine_uses_verified_db[OF this run _ on] run on(1) show ?thesis
    by (auto simp: sample_detector_def sample_work_def sample_scan_def sample_db_def simp del: work_round.simps)
qed

text \<open>C25: a task of the agent to scan one file is answered by exactly one record, with the token of the task: with the
  error when the file cannot be looked at, and with an empty error when the scan succeeded. It is not
  answered only when the scan itself fails. The engine is loaded, and sending succeeds.\<close>

theorem one_time_task_is_answered:
  assumes "sends_ok S" "scanner d" "task_type task = ascii ''6053''"
    and "metadata S (task_path task) (net (det_host d)) = (found, w)"
    and "scan (ss S) (task_path task) ((det_host d)\<lparr>net := w\<rparr>) = (r, h)"
    and "work_round S (Task (Some task)) d = (e, d')"
  shows "case (found, r) of
      (Inl err, _) \<Rightarrow> e = Returned \<and> (\<exists>a. sent d' = sent d @ [a] \<and> rec_type a = 6003 \<and>
        rec_fields a (ascii ''token'') = Some (task_token task) \<and> rec_fields a (ascii ''error'') = Some err)
    | (Inr _, Inr _) \<Rightarrow> e = Again \<and> (\<exists>a. sent d' = sent d @ [a] \<and> rec_type a = 6003 \<and>
        rec_fields a (ascii ''token'') = Some (task_token task) \<and> rec_fields a (ascii ''error'') = Some [])
    | (Inr _, Inl _) \<Rightarrow> sent d' = sent d"
proof -
  have "work_task S task = work_one_task S task" using assms(3) by (simp add: work_task_def)
  then have run: "work_one_task S task d = (e, d')" using assms(2,6) by (simp add: then_work_def)
  have types: "rec_type (task_to_record j now ev) = 6003" "rec_type (task_to_record_with_add_on j now addons ev) = 6003" for j now addons ev
    by (simp_all add: task_to_record_def task_to_record_token_def task_to_record_with_add_on_def)
  show ?thesis
  proof (cases found)
    case (Inl err)
    obtain now d1 where d1: "report S stop_plugin (\<lambda>now. task_to_record (json (ss S)) now (one_task_error task err)) (d\<lparr>det_host := (det_host d)\<lparr>net := w\<rparr>\<rparr>) = (Again, d1)"
        "sent d1 = sent d @ [task_to_record (json (ss S)) now (one_task_error task err)]"
      using report_sent[OF assms(1)] by force
    have "(e, d') = (Returned, d1)"
      using run assms(4) Inl d1(1) by (simp add: work_one_task_def net_call_def host_call_def on_net_def then_work_def)
    then show ?thesis using Inl d1(2) by (simp add: types task_record_fields one_task_error_def del: ascii_Cons)
  next
    case (Inr m)
    let ?d = "d\<lparr>det_host := h\<rparr>" and ?j = "json (ss S)"
    show ?thesis
    proof (cases r)
      case (Inl f)
      then show ?thesis using run assms(4,5) Inr
        by (cases f) (auto simp: work_one_task_def net_call_def host_call_def on_net_def)
    next
      case ok: (Inr x)
      have error: "do_error (one_task_event task m x) = []" "do_token (one_task_event task m x) = task_token task"
        by (simp_all add: one_task_event_def case_prod_beta)
      obtain a where a: "e = Again" "sent d' = sent d @ [a]" "rec_type a = 6003"
          "rec_fields a (ascii ''token'') = Some (task_token task)" "rec_fields a (ascii ''error'') = Some []"
      proof (cases "task_add_ons task")
        case None
        obtain now d1 where d1: "report S stop_plugin (\<lambda>now. task_to_record ?j now (one_task_event task m x)) ?d = (Again, d1)"
            "sent d1 = sent d @ [task_to_record ?j now (one_task_event task m x)]"
          using report_sent[OF assms(1)] by force
        then show ?thesis using that[of "task_to_record ?j now (one_task_event task m x)"] run assms(4,5) Inr ok None
          by (auto simp: work_one_task_def net_call_def host_call_def on_net_def types task_record_fields error simp del: ascii_Cons)
      next
        case (Some addons)
        obtain now d1 where d1: "report S stop_plugin (\<lambda>now. task_to_record_with_add_on ?j now addons (one_task_event task m x)) ?d = (Again, d1)"
            "sent d1 = sent d @ [task_to_record_with_add_on ?j now addons (one_task_event task m x)]"
          using report_sent[OF assms(1)] by force
        then show ?thesis using that[of "task_to_record_with_add_on ?j now addons (one_task_event task m x)"] run assms(4,5) Inr ok Some
          by (auto simp: work_one_task_def net_call_def host_call_def on_net_def types task_record_fields error simp del: ascii_Cons)
      qed
      then show ?thesis using Inr ok by (auto simp del: ascii_Cons)
    qed
  qed
qed

theorem one_time_task_is_answered_witness:
  "\<exists>e d'. work_round sample_work (Task (Some (sample_task (ascii ''6053'')))) (sample_detector True) = (e, d') \<and> e = Again \<and>
    (\<exists>a. sent d' = [a] \<and> rec_type a = 6003 \<and> rec_fields a (ascii ''token'') = Some (ascii ''t'') \<and>
      rec_fields a (ascii ''error'') = Some [])"
proof -
  let ?task = "sample_task (ascii ''6053'')" and ?d = "sample_detector True"
  obtain e d' where run: "work_round sample_work (Task (Some ?task)) ?d = (e, d')" by (meson surj_pair)
  obtain found w where found: "metadata sample_work (task_path ?task) (net (det_host ?d)) = (found, w)" by (meson surj_pair)
  obtain r h where r: "scan (ss sample_work) (task_path ?task) ((det_host ?d)\<lparr>net := w\<rparr>) = (r, h)" by (meson surj_pair)
  have "case scan (ss sample_work) (task_path ?task) ((det_host ?d)\<lparr>net := ()\<rparr>) of (Inr _, _) \<Rightarrow> True | _ \<Rightarrow> False" by code_simp
  then obtain x where x: "r = Inr x" using r by (cases r) simp_all
  obtain m where m: "found = Inr m" using found by (auto simp: sample_work_def)
  have "sends_ok sample_work" by (simp add: sends_ok_def sample_work_def)
  moreover have "scanner ?d" "task_type ?task = ascii ''6053''" by (simp_all add: sample_detector_def sample_task_def plain_task_def)
  ultimately show ?thesis using one_time_task_is_answered[OF _ _ _ found r run] run m x
    by (simp add: sample_detector_def sample_task_def plain_task_def del: work_round.simps ascii_Cons)
qed

text \<open>When a process has ended before its executable was found to be infected, the finding is lost: the record that is
  sent has nothing but empty fields.\<close>

theorem finding_of_ended_process_is_lost:
  assumes "sends_ok S" "scanner d" "task_type task = ascii ''6052''"
    and "scan (ss S) (task_path task) (det_host d) = (Inr (ftype, fclass, fname, xhash, md5sum, matched), h)"
    and "ftype \<noteq> not_detected" "process_new S (task_pid task) (net h) = (None, w)"
    and "work_round S (Task (Some task)) d = (e, d')"
  shows "\<exists>a. sent d' = sent d @ [a] \<and> rec_type a = 6002 \<and> ran (rec_fields a) = {[]}"
proof -
  have "work_task S task = work_proc S stop_plugin (scan (ss S)) task" using assms(3) by (simp add: work_task_def)
  then have run: "work_proc S stop_plugin (scan (ss S)) task d = (e, d')" using assms(2,7) by (simp add: then_work_def)
  let ?rec = "\<lambda>now. proc_to_record (json (ss S)) now proc_default" and ?d = "d\<lparr>det_host := h\<lparr>net := w\<rparr>\<rparr>"
  obtain now d1 where d1: "report S stop_plugin ?rec ?d = (Again, d1)" "sent d1 = sent d @ [?rec now]"
    using report_sent[OF assms(1)] by force
  have "d' = d1"
    using run assms(4-6) d1(1)
    by (simp add: work_proc_def host_call_def net_call_def on_net_def DetectProcEvent_new_def the_or_def)
  moreover have "ran (rec_fields (?rec now)) = {[]}"
    by (auto simp: proc_to_record_def proc_fields_def proc_default_def hit_data_def insert_all_def ran_def split: if_splits)
  ultimately show ?thesis using d1(2) by (simp add: proc_to_record_def)
qed

theorem finding_of_ended_process_is_lost_witness:
  "\<exists>d' a. snd (work_round sample_work (Task (Some (sample_task (ascii ''6052'')))) (sample_detector True)) = d' \<and>
    sent d' = [a] \<and> ran (rec_fields a) = {[]}"
proof -
  let ?task = "sample_task (ascii ''6052'')" and ?d = "sample_detector True"
  obtain e d' where run: "work_round sample_work (Task (Some ?task)) ?d = (e, d')" by (meson surj_pair)
  obtain r h where r: "scan (ss sample_work) (task_path ?task) (det_host ?d) = (r, h)" by (meson surj_pair)
  have "case scan (ss sample_work) (task_path ?task) (det_host ?d) of (Inr x, _) \<Rightarrow> fst x \<noteq> not_detected | _ \<Rightarrow> False" by code_simp
  then obtain ftype fclass fname xhash md5sum matched where x: "r = Inr (ftype, fclass, fname, xhash, md5sum, matched)" "ftype \<noteq> not_detected"
    using r by (cases r) auto
  have "sends_ok sample_work" by (simp add: sends_ok_def sample_work_def)
  moreover have "scanner ?d" "task_type ?task = ascii ''6052''" "sent ?d = []"
    by (simp_all add: sample_detector_def sample_task_def plain_task_def)
  moreover have "process_new sample_work (task_pid ?task) (net h) = (None, net h)" by (simp add: sample_work_def)
  ultimately show ?thesis using finding_of_ended_process_is_lost[OF _ _ _ r[unfolded x(1)] x(2) _ run] run
    by (simp del: work_round.simps ascii_Cons) blast
qed

text \<open>The memory limit of a full scan is computed in 32 bits: a request for 4096 megabytes or more is
  reduced modulo 4096, and a multiple of 4096 gives the limit 0.\<close>

theorem full_scan_limit_wraps:
  "fst (full_scan_limits cpu mem) = 1024 * 1024 * (uint mem mod 4096)"
proof -
  have "fst (full_scan_limits cpu mem) = (1048576 * uint mem) mod (1048576 * 4096)"
    by (simp add: full_scan_limits_def uint_word_ariths take_bit_eq_mod)
  also have "\<dots> = 1048576 * (uint mem mod 4096)" by (rule mod_mult_mult1)
  finally show ?thesis by simp
qed

end
