(* ===== verification/Scanner_Jobs.thy ===== *)
theory Scanner_Jobs
  imports Scanner_Work Scanner_Honeypot
begin

section \<open>The jobs of the scanner\<close>

text \<open>
  What gives the scanner its own tasks: \<^verbatim>\<open>cronjob.rs\<close> and the producer of \<^verbatim>\<open>fulldiskscan.rs\<close>, which walk directories and
  \<^verbatim>\<open>/proc\<close>, and the thread of \<^verbatim>\<open>fmonitor.rs\<close> that reads what happens to the honeypots, all under
  \<^verbatim>\<open>src/plugins/scanner/src/model/functional\<close>. The iterator over a directory tree, the links of \<^verbatim>\<open>/proc\<close>, the calls of fanotify and the clock are
  parameters. The waits for a shorter queue are left out, log lines as well.
\<close>

subsection \<open>Entries of directories and processes\<close>

record file_meta = meta +
  is_dir :: bool
  is_file :: bool

definition file_task :: "bytes \<Rightarrow> file_meta \<Rightarrow> DetectTask" where
  "file_task path m = \<lparr>task_type = ascii ''6051'', task_pid = -1, task_path = path, task_rpath = path, task_size = meta_len m,
     task_btime = fst (get_file_btime (meta.truncate m)), task_mtime = snd (get_file_btime (meta.truncate m)),
     task_token = [], task_add_ons = None\<rparr>"

definition proc_task :: "int \<Rightarrow> bytes \<Rightarrow> file_meta \<Rightarrow> DetectTask" where
  "proc_task pid exe_real m = (file_task exe_real m)\<lparr>task_type := ascii ''6052'', task_pid := pid,
     task_path := ascii ''/proc/'' @ show_int pid @ ascii ''/exe''\<rparr>"

datatype walk_action = Skip | SkipDir | Scan DetectTask

definition filtered :: "Filter \<Rightarrow> bytes \<Rightarrow> walk_action \<Rightarrow> walk_action" where
  "filtered f path otherwise =
     (let filter_flag = catch f path in if filter_flag = 1 then Skip else if filter_flag = 2 then SkipDir else otherwise)"

text \<open>An entry of a configured directory, and one of the full disk.\<close>

definition cron_dir_entry :: "Filter \<Rightarrow> bytes \<Rightarrow> file_meta option \<Rightarrow> walk_action" where
  "cron_dir_entry f path md =
     filtered f path
       (case md of
          None \<Rightarrow> Skip
        | Some m \<Rightarrow>
            if is_dir m then Skip
            else if meta_len m \<le> 1 \<or> CLAMAV_MAX_FILESIZE < meta_len m then Skip else Scan (file_task path m))"

definition disk_entry :: "Filter \<Rightarrow> bytes \<Rightarrow> file_meta option \<Rightarrow> walk_action" where
  "disk_entry f path md =
     filtered f path
       (case md of
          None \<Rightarrow> Skip
        | Some m \<Rightarrow>
            if \<not> is_file m then Skip
            else if meta_len m \<le> 4 \<or> 1024 * 1024 * 100 < meta_len m then Skip else Scan (file_task path m))"

text \<open>An entry of \<^verbatim>\<open>/proc\<close>: its name, the link of its executable and the metadata of that.\<close>

definition proc_entry :: "nat \<Rightarrow> nat \<Rightarrow> Filter \<Rightarrow> bytes \<Rightarrow> bytes option \<Rightarrow> (bytes \<Rightarrow> file_meta option) \<Rightarrow> DetectTask option" where
  "proc_entry low high f name exe_link md =
     (case (parse_i32 name, exe_link) of
        (Some pid, Some exe_real) \<Rightarrow>
          if catch f exe_real \<noteq> 0 then None
          else (case md exe_real of
                  None \<Rightarrow> None
                | Some m \<Rightarrow>
                    if is_dir m then None
                    else if meta_len m \<le> low \<or> high < meta_len m then None else Some (proc_task pid exe_real m))
      | _ \<Rightarrow> None)"

definition cron_proc_entry :: "Filter \<Rightarrow> bytes \<Rightarrow> bytes option \<Rightarrow> (bytes \<Rightarrow> file_meta option) \<Rightarrow> DetectTask option" where
  "cron_proc_entry = proc_entry 0 CLAMAV_MAX_FILESIZE"

definition disk_proc_entry :: "Filter \<Rightarrow> bytes \<Rightarrow> bytes option \<Rightarrow> (bytes \<Rightarrow> file_meta option) \<Rightarrow> DetectTask option" where
  "disk_proc_entry = proc_entry 4 (1024 * 1024 * 100)"

subsection \<open>The walk\<close>

text \<open>The loop over the iterator: the end or an error ends it, and a filtered directory is skipped. It returns the tasks it
  sends; \<open>None\<close> means that it does not return.\<close>

partial_function (option) walk_loop ::
  "('i \<Rightarrow> (bytes option \<times> 'i) option) \<Rightarrow> ('i \<Rightarrow> 'i) \<Rightarrow> (bytes \<Rightarrow> walk_action) \<Rightarrow> 'i \<Rightarrow> DetectTask list \<Rightarrow> DetectTask list option" where
  "walk_loop next_entry skip_current_dir entry i tasks =
     (case next_entry i of
        None \<Rightarrow> Some tasks
      | Some (None, _) \<Rightarrow> Some tasks
      | Some (Some path, i) \<Rightarrow>
          (case entry path of
             Skip \<Rightarrow> walk_loop next_entry skip_current_dir entry i tasks
           | SkipDir \<Rightarrow> walk_loop next_entry skip_current_dir entry (skip_current_dir i) tasks
           | Scan task \<Rightarrow> walk_loop next_entry skip_current_dir entry i (tasks @ [task])))"

declare walk_loop.simps [code]

text \<open>One pass over \<^verbatim>\<open>/proc\<close>: an entry that cannot be read is skipped, a directory that cannot be opened panics.\<close>

definition proc_pass :: "(bytes \<Rightarrow> DetectTask option) \<Rightarrow> bytes option list option \<Rightarrow> DetectTask list res" where
  "proc_pass entry dir_p =
     (case dir_p of None \<Rightarrow> Inl Panic | Some each \<Rightarrow> Inr (List.map_filter (\<lambda>en. Option.bind en entry) each))"

text \<open>The producer of a full scan: first the processes, then the disk without \<^verbatim>\<open>/proc\<close>.\<close>

definition full_scan_job ::
  "Filter \<Rightarrow> bytes option list option \<Rightarrow> (bytes \<Rightarrow> bytes option) \<Rightarrow> (bytes \<Rightarrow> file_meta option) \<Rightarrow>
   ('i \<Rightarrow> (bytes option \<times> 'i) option) \<Rightarrow> ('i \<Rightarrow> 'i) \<Rightarrow> 'i \<Rightarrow> DetectTask list res option" where
  "full_scan_job f dir_p exe md next_entry skip_current_dir root =
     (case proc_pass (\<lambda>name. disk_proc_entry f name (exe name) md) dir_p of
        Inl e \<Rightarrow> Some (Inl e)
      | Inr tasks \<Rightarrow>
          map_option Inr (walk_loop next_entry skip_current_dir
            (\<lambda>path. disk_entry (Filter_add f (ascii ''/proc'')) path (md path)) root tasks))"

text \<open>When the directories of one round are walked: the pause after a directory lasts until a whole number of days have passed
  since the start of the round. \<open>costs\<close> are the durations of the walks, in seconds.\<close>

fun cron_dir_times :: "nat \<Rightarrow> nat \<Rightarrow> nat list \<Rightarrow> nat list" where
  "cron_dir_times start_timestap now [] = []"
| "cron_dir_times start_timestap now (cost # costs) =
     (let timecost = now + cost - start_timestap in
      now # cron_dir_times start_timestap (now + cost + (3600 * 24 - timecost mod (3600 * 24))) costs)"

subsection \<open>The file monitor\<close>

unbundle bit_operations_syntax

definition match_event_mask :: "u64 \<Rightarrow> u64 \<Rightarrow> bool" where
  "match_event_mask event mask_set \<longleftrightarrow> event AND mask_set \<noteq> 0"

definition skipped_endings :: "bytes list" where
  "skipped_endings = map ascii [''.swp'', ''(deleted)'', ''.swa'', ''.svz'', ''.swn'', ''.swo'', ''.tmp'', ''.bash_history'', ''.dpkg-new'']"

text \<open>The result of \<open>read_link\<close> is the string that \<open>to_string_lossy\<close> makes of a path, and whether the path is UTF-8. \<open>fan_queue\<close>
  collects the tasks that were sent, \<open>closed\<close> the descriptors that were closed.\<close>

record fan_event =
  ev_mask :: u64
  ev_fd :: int
  ev_pid :: int

record 'w fan_sys =
  fan_db :: "'w db_sys"
  read_link :: "bytes \<Rightarrow> 'w \<Rightarrow> (bytes \<times> bool) option \<times> 'w"
  fan_metadata :: "bytes \<times> bool \<Rightarrow> 'w \<Rightarrow> file_meta option \<times> 'w"
  fan_try_send :: "DetectTask \<Rightarrow> 'w \<Rightarrow> bool \<times> 'w"

record 'w fanotify =
  fan_host :: "'w host"
  closed :: "int list"
  fan_queue :: "DetectTask list"
  fan_signals :: nat

definition proc_link :: "int \<Rightarrow> bytes \<Rightarrow> bytes" where
  "proc_link pid rest = ascii ''/proc/'' @ show_int pid @ rest"

definition get_real_path_from_fd_link :: "'w fan_sys \<Rightarrow> u32 \<Rightarrow> int \<Rightarrow> ('w, bytes) host_prog" where
  "get_real_path_from_fd_link S pid fd =
     on_net (\<lambda>w. case read_link S (proc_link (uint pid) (ascii ''/fd/'' @ show_int fd)) w of
         (Some (path, is_utf8), w) \<Rightarrow> (Inr (if is_utf8 then path else ascii ''-1''), w)
       | (None, w) \<Rightarrow> (Inr (ascii ''-3''), w))"

definition safe_close :: "int \<Rightarrow> 'w fanotify \<Rightarrow> 'w fanotify" where
  "safe_close fd st = st\<lparr>closed := closed st @ [fd]\<rparr>"

text \<open>What becomes of an event: it is dropped, or a task is made of it.\<close>

definition event_task :: "'w fan_sys \<Rightarrow> u32 \<Rightarrow> fan_event \<Rightarrow> ('w, DetectTask option) host_prog" where
  "event_task S pid ev =
     bind_st (get_real_path_from_fd_link S pid (ev_fd ev)) (\<lambda>path.
     if list_ex (ends_with path) skipped_endings then return_st None
     else
       let pstr = proc_link (ev_pid ev) (ascii ''/exe'') in
       bind_st (on_net (\<lambda>w. case read_link S pstr w of (l, w) \<Rightarrow> (Inr l, w))) (\<lambda>rfp.
       case rfp of
         None \<Rightarrow> return_st None
       | Some rfp \<Rightarrow>
           bind_st (on_net (\<lambda>w. case read_link S pstr w of (l, w) \<Rightarrow> (Inr l, w))) (\<lambda>fpath.
           let fpath_real = (case fpath of None \<Rightarrow> [] | Some pf \<Rightarrow> fst pf) in
           bind_st (get_file_sha256 (fan_db S) fpath_real) (\<lambda>fpath_real_sha256.
           if HONEYPOTSSHA256 fpath_real = Some fpath_real_sha256 then return_st None
           else bind_st (on_net (\<lambda>w. case fan_metadata S rfp w of (m, w) \<Rightarrow> (Inr m, w))) (\<lambda>md.
           case md of
             None \<Rightarrow> return_st None
           | Some m \<Rightarrow>
               if is_dir m \<or> meta_len m \<le> 0 \<or> CLAMAV_MAX_FILESIZE < meta_len m then return_st None
               else return_st (Some \<lparr>task_type = ascii ''6054'', task_pid = sint pid, task_path = fst rfp, task_rpath = fpath_real,
                 task_size = meta_len m, task_btime = fst (get_file_btime (meta.truncate m)),
                 task_mtime = snd (get_file_btime (meta.truncate m)), task_token = fpath_real_sha256, task_add_ons = None\<rparr>))))))"

text \<open>One event of a batch; the result tells whether the batch goes on. A panic ends the thread.\<close>

definition handle_event :: "'w fan_sys \<Rightarrow> u32 \<Rightarrow> bool \<Rightarrow> fan_event \<Rightarrow> 'w fanotify \<Rightarrow> bool \<times> 'w fanotify" where
  "handle_event S pid h51 ev st =
     (case event_task S pid ev (fan_host st) of
        (Inl _, h) \<Rightarrow> (False, st\<lparr>fan_host := h\<rparr>)
      | (Inr None, h) \<Rightarrow> (True, safe_close (ev_fd ev) (st\<lparr>fan_host := h\<rparr>))
      | (Inr (Some task), h) \<Rightarrow>
          let default_mask_set = (if h51 then H51_DIRS_MATCH_MASK OR H51_FILE_MATCH_MASK else LOW_FILE_MATCH_MASK) in
          if match_event_mask (ev_mask ev) default_mask_set
          then (case fan_try_send S task (net h) of
                  (True, w) \<Rightarrow> (True, st\<lparr>fan_host := h\<lparr>net := w\<rparr>, fan_queue := fan_queue st @ [task]\<rparr>)
                | (False, w) \<Rightarrow> (False, (safe_close (ev_fd ev) (st\<lparr>fan_host := h\<lparr>net := w\<rparr>\<rparr>))\<lparr>fan_signals := fan_signals st + 1\<rparr>))
          else (True, st\<lparr>fan_host := h\<rparr>))"

fun handle_events :: "'w fan_sys \<Rightarrow> u32 \<Rightarrow> bool \<Rightarrow> fan_event list \<Rightarrow> 'w fanotify \<Rightarrow> 'w fanotify" where
  "handle_events S pid h51 [] st = st"
| "handle_events S pid h51 (ev # evs) st =
     (case handle_event S pid h51 ev st of (True, st) \<Rightarrow> handle_events S pid h51 evs st | (False, st) \<Rightarrow> st)"

subsection \<open>What the jobs guarantee\<close>

text \<open>A walk that ends is a walk with entries that run out, where skipping a directory adds none.\<close>

lemma walk_loop_returns:
  fixes left :: "'i \<Rightarrow> nat"
  assumes "\<And>i x i'. next_entry i = Some (x, i') \<Longrightarrow> left i' < left i" "\<And>i. left (skip i) \<le> left i"
  shows "\<exists>ts. walk_loop next_entry skip entry i tasks = Some (tasks @ ts) \<and> (\<forall>t \<in> set ts. \<exists>p. entry p = Scan t)"
proof (induction "left i" arbitrary: i tasks rule: less_induct)
  case less
  show ?case
  proof (cases "next_entry i")
    case (Some e)
    obtain x i' where e: "e = (x, i')" by fastforce
    have dec: "left i' < left i" "left (skip i') < left i"
      using assms(1)[of i x i'] assms(2)[of i'] Some e by auto
    show ?thesis
    proof (cases x)
      case (Some path)
      show ?thesis
      proof (cases "entry path")
        case Skip
        then show ?thesis
          using less[OF dec(1), of tasks] \<open>next_entry i = Some e\<close> e Some by (subst walk_loop.simps) simp
      next
        case SkipDir
        then show ?thesis
          using less[OF dec(2), of tasks] \<open>next_entry i = Some e\<close> e Some by (subst walk_loop.simps) simp
      next
        case (Scan t)
        obtain ts where "walk_loop next_entry skip entry i' (tasks @ [t]) = Some ((tasks @ [t]) @ ts)"
          "\<forall>t \<in> set ts. \<exists>p. entry p = Scan t"
          using less[OF dec(1), of "tasks @ [t]"] by blast
        then show ?thesis
          using \<open>next_entry i = Some e\<close> e Some Scan
          by (subst walk_loop.simps) (auto intro!: exI[of _ "t # ts"])
      qed
    qed (use \<open>next_entry i = Some e\<close> e in \<open>subst walk_loop.simps, simp\<close>)
  qed (subst walk_loop.simps, simp)
qed

lemma cron_dir_entry_Scan:
  assumes "cron_dir_entry f path md = Scan t"
  shows "catch f (task_path t) \<notin> {1, 2}" "1 < task_size t" "task_size t \<le> CLAMAV_MAX_FILESIZE"
    "task_type t = ascii ''6051''" "task_rpath t = task_path t"
  using assms by (auto simp: cron_dir_entry_def filtered_def file_task_def Let_def split: if_splits option.splits)

text \<open>C12: The walk of a configured directory ends when the entries of its iterator run out, whatever the filter skips, and every task
  it sends is for a file that the filter lets pass and whose size the engine accepts.\<close>

theorem cron_walk_terminates:
  fixes left :: "'i \<Rightarrow> nat"
  assumes "\<And>i x i'. next_entry i = Some (x, i') \<Longrightarrow> left i' < left i" "\<And>i. left (skip i) \<le> left i"
  shows "\<exists>ts. walk_loop next_entry skip (\<lambda>p. cron_dir_entry f p (md p)) i [] = Some ts \<and>
    (\<forall>t \<in> set ts. catch f (task_path t) \<notin> {1, 2} \<and> 1 < task_size t \<and> task_size t \<le> CLAMAV_MAX_FILESIZE)"
proof -
  obtain ts where ts: "walk_loop next_entry skip (\<lambda>p. cron_dir_entry f p (md p)) i [] = Some ([] @ ts)"
    "\<forall>t \<in> set ts. \<exists>p. cron_dir_entry f p (md p) = Scan t"
    using walk_loop_returns[of next_entry left skip "\<lambda>p. cron_dir_entry f p (md p)" i "[]"] assms by blast
  have "catch f (task_path t) \<notin> {1, 2} \<and> 1 < task_size t \<and> task_size t \<le> CLAMAV_MAX_FILESIZE" if "t \<in> set ts" for t
    using ts(2) that cron_dir_entry_Scan by blast
  with ts(1) show ?thesis by simp
qed

text \<open>The steps of the schedule are whole days.\<close>

lemma next_day:
  fixes t d :: nat
  assumes "0 < d"
  shows "t + (d - t mod d) = (t div d + 1) * d"
proof -
  have "t + (d - t mod d) = t div d * d + t mod d + (d - t mod d)" by (simp add: div_mult_mod_eq)
  also have "\<dots> = t div d * d + d" using assms mod_less_divisor[of d t] by linarith
  finally show ?thesis by simp
qed

lemma cron_dir_times_days:
  assumes "k * 86400 \<le> n" "i < length costs"
  shows "start + (k + i) * 86400 \<le> cron_dir_times start (start + n) costs ! i"
  using assms
proof (induction costs arbitrary: k n i)
  case (Cons cost costs)
  show ?case
  proof (cases i)
    case 0
    then show ?thesis using Cons.prems by (simp add: Let_def)
  next
    case (Suc j)
    define m where "m = ((n + cost) div 86400 + 1) * 86400"
    have step: "start + n + cost + (3600 * 24 - (start + n + cost - start) mod (3600 * 24)) = start + m"
      using next_day[of 86400 "n + cost"] by (simp add: m_def add.assoc)
    have "k \<le> (n + cost) div 86400"
      using Cons.prems(1) by (simp add: less_eq_div_iff_mult_less_eq)
    then have "Suc k * 86400 \<le> m" by (simp add: m_def)
    from Cons.IH[OF this, of j] show ?thesis
      using Cons.prems(2) Suc step by (simp add: Let_def)
  qed
qed simp

text \<open>In one round of the directory job, the directory at position \<open>i\<close> is not walked before \<open>i\<close> whole days have passed since the round began: the
  pause of a day is taken after each directory and not after the round.\<close>

theorem cron_dir_waits_a_day_each:
  assumes "i < length costs"
  shows "start + i * (3600 * 24) \<le> cron_dir_times start start costs ! i"
  using cron_dir_times_days[of 0 0 i costs start] assms by simp

text \<open>What an event may do.\<close>

definition yields :: "('a \<Rightarrow> bool) \<Rightarrow> ('s, 'a) prog \<Rightarrow> bool" where
  "yields P m \<longleftrightarrow> (\<forall>s x s'. m s = (Inr x, s') \<longrightarrow> P x)"

lemma yieldsD: "yields P m \<Longrightarrow> m s = (Inr x, s') \<Longrightarrow> P x"
  unfolding yields_def by blast

lemma yields_bind:
  assumes "\<And>x. yields P (f x)"
  shows "yields P (bind_st m f)"
proof (unfold yields_def, intro allI impI)
  fix s y s'
  assume run: "bind_st m f s = (Inr y, s')"
  obtain r s1 where m: "m s = (r, s1)" by fastforce
  show "P y"
    using run m yieldsD[OF assms] by (cases r) (auto simp: bind_st_def)
qed

lemma yields_return: "P x \<Longrightarrow> yields P (return_st x)"
  by (simp add: yields_def return_st_def)

lemma event_task_pid: "yields (\<lambda>x. \<forall>t. x = Some t \<longrightarrow> task_pid t = sint pid) (event_task S pid ev)"
  unfolding event_task_def Let_def
  by (intro yields_bind) (auto intro!: yields_bind yields_return split: option.split simp del: ascii_Cons)

lemma handle_event_effect:
  assumes "handle_event S pid h51 ev st = (go, st')"
  obtains (closes) "fan_queue st' = fan_queue st" "closed st' = closed st @ [ev_fd ev]"
  | (drops) "fan_queue st' = fan_queue st" "closed st' = closed st"
  | (queues) t where "fan_queue st' = fan_queue st @ [t]" "closed st' = closed st" "task_pid t = sint pid"
proof -
  obtain r h where e: "event_task S pid ev (fan_host st) = (r, h)" by fastforce
  show ?thesis
  proof (cases r)
    case (Inr x)
    then show ?thesis
    proof (cases x)
      case (Some t)
      then have "task_pid t = sint pid" using yieldsD[OF event_task_pid] e Inr by blast
      then show ?thesis
        using assms e Inr Some that
        by (auto simp: handle_event_def Let_def safe_close_def split: if_splits prod.splits bool.splits)
    qed (use assms e that in \<open>auto simp: handle_event_def safe_close_def\<close>)
  qed (use assms e that in \<open>auto simp: handle_event_def\<close>)
qed

text \<open>C34: Of a batch of events, every task that is sent names the scanner's own process, not the one that changed the file, and
  the descriptor of an event that becomes a task stays open: the descriptors closed and the tasks sent together are at most as many as the events.\<close>

theorem fanotify_blames_itself_and_leaks:
  "\<exists>ts fds. fan_queue (handle_events S pid h51 evs st) = fan_queue st @ ts \<and>
     closed (handle_events S pid h51 evs st) = closed st @ fds \<and>
     (\<forall>t \<in> set ts. task_pid t = sint pid) \<and> length ts + length fds \<le> length evs"
proof (induction evs arbitrary: st)
  case (Cons ev evs)
  obtain go st1 where e: "handle_event S pid h51 ev st = (go, st1)" by fastforce
  define st2 where "st2 = handle_events S pid h51 (ev # evs) st"
  have "\<exists>ts fds. fan_queue st2 = fan_queue st1 @ ts \<and> closed st2 = closed st1 @ fds \<and>
     (\<forall>t \<in> set ts. task_pid t = sint pid) \<and> length ts + length fds \<le> length evs"
    using Cons.IH[of st1] e by (cases go) (auto simp: st2_def)
  then obtain ts fds where rest: "fan_queue st2 = fan_queue st1 @ ts" "closed st2 = closed st1 @ fds"
    "\<forall>t \<in> set ts. task_pid t = sint pid" "length ts + length fds \<le> length evs" by blast
  from e show ?case
    unfolding st2_def[symmetric]
    by (cases rule: handle_event_effect) (use rest in force)+
qed simp

text \<open>Witnesses: a walk over a list of entries, and a round over three directories.\<close>

theorem cron_walk_terminates_witness:
  "\<exists>ts. walk_loop (\<lambda>ps. case ps of [] \<Rightarrow> None | p # ps \<Rightarrow> Some (Some p, ps)) (\<lambda>ps. ps)
      (\<lambda>p. cron_dir_entry \<lparr>filter_set = [ascii ''/dev'']\<rparr> p
        (Some \<lparr>meta_len = 9, meta_created = None, meta_modified = None, is_dir = False, is_file = True\<rparr>))
      [ascii ''/opt/a'', ascii ''/dev/b''] [] = Some ts \<and>
    (\<forall>t \<in> set ts. catch \<lparr>filter_set = [ascii ''/dev'']\<rparr> (task_path t) \<notin> {1, 2} \<and> 1 < task_size t \<and> task_size t \<le> CLAMAV_MAX_FILESIZE)"
  by (rule cron_walk_terminates[where left = length]) (auto split: list.splits)

theorem cron_dir_waits_a_day_each_witness:
  "7 + 2 * (3600 * 24) \<le> cron_dir_times 7 7 [10, 20, 30] ! 2"
  using cron_dir_waits_a_day_each[of 2 "[10, 20, 30]" 7] by simp

text \<open>A filter catches a path that begins with one of its strings.\<close>

lemma catch_loop_iff: "catch_loop k fs \<noteq> 0 \<longleftrightarrow> (\<exists>each \<in> set fs. starts_with k each)"
  by (induction fs) auto

lemma set_fold_insert: "set (fold set_insert xs ys) = set xs \<union> set ys"
  by (induction xs arbitrary: ys) (auto simp: set_insert_def)

text \<open>The entries of the filter are string prefixes, not paths: a process whose executable only has a name that begins like an
  entry is never scanned, neither by the job nor in a full scan.\<close>

theorem filter_exempts_by_prefix:
  assumes "each \<in> set SCAN_DIR_FILTER"
  shows "cron_proc_entry (Filter_new agent_path) name (Some (each @ rest)) md = None \<and>
    disk_proc_entry (Filter_new agent_path) name (Some (each @ rest)) md = None"
proof -
  have "each \<in> set (filter_set (Filter_new agent_path))" using assms by (simp add: Filter_new_def set_fold_insert)
  moreover have "starts_with (each @ rest) each" by (simp add: starts_with_def)
  ultimately have "catch (Filter_new agent_path) (each @ rest) \<noteq> 0"
    unfolding catch_def catch_loop_iff by blast
  then show ?thesis
    by (simp add: cron_proc_entry_def disk_proc_entry_def proc_entry_def split: option.splits)
qed

theorem filter_exempts_by_prefix_witness:
  "cron_proc_entry (Filter_new None) (ascii ''42'') (Some (ascii ''/usr/bin/ncrypt''))
     (\<lambda>_. Some \<lparr>meta_len = 9, meta_created = None, meta_modified = None, is_dir = False, is_file = True\<rparr>) = None"
proof -
  have exempt: "ascii ''/usr/bin/nc'' \<in> set SCAN_DIR_FILTER" by (simp add: SCAN_DIR_FILTER_def)
  have name: "ascii ''/usr/bin/ncrypt'' = ascii ''/usr/bin/nc'' @ ascii ''rypt''" by simp
  show ?thesis unfolding name by (rule conjunct1[OF filter_exempts_by_prefix[OF exempt]])
qed

definition sample_fan :: "unit fan_sys" where
  "sample_fan = \<lparr>fan_db = sample_db, read_link = (\<lambda>p w. (Some (ascii ''/x'', True), w)),
     fan_metadata = (\<lambda>p w. (Some \<lparr>meta_len = 9, meta_created = None, meta_modified = None, is_dir = False, is_file = True\<rparr>, w)),
     fan_try_send = (\<lambda>t w. (True, w))\<rparr>"

theorem fanotify_blames_itself_and_leaks_witness:
  "\<exists>t. fan_queue (handle_events sample_fan 7 True [\<lparr>ev_mask = 2, ev_fd = 5, ev_pid = 9\<rparr>]
       \<lparr>fan_host = \<lparr>files = Map.empty, net = ()\<rparr>, closed = [], fan_queue = [], fan_signals = 0\<rparr>) = [t] \<and> task_pid t = 7 \<and>
     closed (handle_events sample_fan 7 True [\<lparr>ev_mask = 2, ev_fd = 5, ev_pid = 9\<rparr>]
       \<lparr>fan_host = \<lparr>files = Map.empty, net = ()\<rparr>, closed = [], fan_queue = [], fan_signals = 0\<rparr>) = []"
proof -
  let ?st = "\<lparr>fan_host = \<lparr>files = Map.empty, net = ()\<rparr>, closed = [], fan_queue = [], fan_signals = 0\<rparr>"
  let ?st' = "handle_events sample_fan 7 True [\<lparr>ev_mask = 2, ev_fd = 5, ev_pid = 9\<rparr>] ?st"
  have "length (fan_queue ?st') = 1"
    by (simp add: handle_event_def event_task_def get_real_path_from_fd_link_def get_file_sha256_def hash_file_def sample_fan_def Let_def
        skipped_endings_def ends_with_def honeypots_relative host_defs match_event_mask_def H51_DIRS_MATCH_MASK_def
        H51_FILE_MATCH_MASK_def FAN_MODIFY_def FAN_CLOSE_WRITE_def FAN_DELETE_SELF_def FAN_MOVE_SELF_def FAN_ONDIR_def
        FAN_EVENT_ON_CHILD_def FAN_CREATE_def FAN_DELETE_def FAN_MOVED_FROM_def FAN_MOVED_TO_def CLAMAV_MAX_FILESIZE_def
        starts_with_def)
  moreover obtain ts fds where "fan_queue ?st' = ts" "closed ?st' = fds" "\<forall>t \<in> set ts. task_pid t = sint (7 :: u32)"
      "length ts + length fds \<le> 1"
    using fanotify_blames_itself_and_leaks[of sample_fan 7 True "[\<lparr>ev_mask = 2, ev_fd = 5, ev_pid = 9\<rparr>]" ?st] by auto
  ultimately show ?thesis by (cases ts) auto
qed

end
