(* ===== verification/Spec2Isabelle.thy ===== *)
theory Spec2Isabelle
  imports Driver_Main Agent_Plugin Driver_Filters Driver_Locks Driver_Install Plugin_Logger Journal_Watcher Rasp_Attach Rasp_Report Scanner_Jobs
begin

text \<open>
  A verification development for the plugins of Elkeid, a host intrusion detection system. An agent
  starts plugins as child processes and talks with them over pipes; a plugin reads events of the
  system and sends records to the agent. The parts that are modelled:

  \<^descr>[driver plugin] (\<^verbatim>\<open>src/plugins/driver/src\<close>) installs a kernel module, reads its event stream, completes each
  event with the command line, user, pod and hash of a process, filters noisy executables, also in the
  kernel, and encodes the result as a length-prefixed protobuf frame.
  \<^descr>[kernel allowlists] (\<^verbatim>\<open>src/driver/LKM/src/filter.c\<close>) the control device through which the driver plugin filters.
  \<^descr>[client library] (\<^verbatim>\<open>src/plugins/lib/rust/src\<close>) the buffered pipe to the agent, its messages, and the logger.
  \<^descr>[agent] (\<^verbatim>\<open>src/agent/plugin\<close>) the other end of the pipes: it receives records and sends tasks.
  \<^descr>[journal watcher] (\<^verbatim>\<open>src/plugins/journal_watcher/src\<close>) turns the lines of sshd into records.
  \<^descr>[scanner] (\<^verbatim>\<open>src/plugins/scanner/src\<close>) updates a database of signatures, scans files and processes on command, on a schedule and as a
  whole, and watches honeypots in the homes of the users.
  \<^descr>[RASP] (\<^verbatim>\<open>src/rasp\<close>) finds processes with a known runtime, attaches a probe to them, and keeps a communication
  channel for each, a thread of the plugin or a server process in each mount namespace.

  \<^bold>\<open>Theories.\<close>
  \<^item> \<open>Elkeid_Prelude\<close>: bytes, words, the result type \<open>'a res\<close> (\<open>Inl Panic\<close>, \<open>Inl (Err e)\<close> or \<open>Inr x\<close>) and the
    state-error programs \<open>prog\<close>. \<open>Rust_Std\<close>: what the sources use of the standard library.
  \<^item> \<open>Driver_Wire\<close>: \<open>encode_varint\<close> and \<open>protobuf_encode\<close> of \<^verbatim>\<open>transformer.rs\<close>, written backwards into the buffer as the
    code does; a decoder as the reference. \<open>Driver_Schema\<close>: the table of \<^verbatim>\<open>schema.rs\<close>.
  \<^item> \<open>Driver_Cache\<close>: \<^verbatim>\<open>cache.rs\<close>; the locale \<open>memo_cache\<close> is the contract of its four caches.
  \<^item> \<open>Kernel_Filter\<close>: \<open>device_write\<close> with the red-black trees as sets. \<open>Driver_Kmod\<close>: the filter requests and the expiry
    thread of \<^verbatim>\<open>kmod.rs\<close>, with the locale \<open>filter_queue\<close>. \<open>Driver_Locks\<close>: the order in which the threads of \<^verbatim>\<open>kmod.rs\<close> take
    their locks. \<open>Driver_Install\<close>: \<open>check_crash\<close>, \<open>install\<close> and \<open>download\<close> of \<^verbatim>\<open>utils.rs\<close>.
  \<^item> \<open>Driver_Transformer\<close>, \<open>Driver_Arms\<close>: \<open>Transformer::new\<close> and every arm of \<open>Transformer::transform\<close>. \<open>Driver_Outcome\<close>: their
    results; the locale \<open>driver_invariant\<close> carries an invariant through all arms. \<open>Driver_Filters\<close>: what the arms and the expiry thread do
    to the filters. \<open>Driver_Main\<close>: the thread \<open>record_send\<close> of \<^verbatim>\<open>main.rs\<close>.
  \<^item> \<open>Plugin_Client\<close>: \<^verbatim>\<open>lib.rs\<close>, with the locale \<open>framing\<close>. \<open>Plugin_Bridge\<close>: records, payloads and tasks of \<^verbatim>\<open>bridge.rs\<close> over the protobuf crate. \<open>Agent_Plugin\<close>: \<open>readVarint\<close>,
    \<open>ReceiveData\<close> and the goroutines that receive and send of \<^verbatim>\<open>plugin_linux.go\<close>, the encoder of tasks of \<^verbatim>\<open>grpc.pb.go\<close>, and the theorems on both directions. \<open>Plugin_Logger\<close>: \<^verbatim>\<open>logger.rs\<close>. \<open>Journal_Watcher\<close>: the grammar \<^verbatim>\<open>sshd.pest\<close> and
    the loop of \<^verbatim>\<open>main.rs\<close>.
  \<^item> \<open>Scanner_Update\<close>: \<^verbatim>\<open>updater.rs\<close>. \<open>Scanner_Detect\<close>: the filter, the events and records, and the classification of findings. \<open>Scanner_Honeypot\<close>: \<^verbatim>\<open>anti_ransom.rs\<close>
    and the marks of \<^verbatim>\<open>fmonitor.rs\<close>. \<open>Scanner_Work\<close>: both threads of \<^verbatim>\<open>detector.rs\<close> and the limits of \<^verbatim>\<open>fulldiskscan.rs\<close>. \<open>Scanner_Jobs\<close>: what \<^verbatim>\<open>cronjob.rs\<close>, the
    full scan and the file monitor send.
  \<^item> \<open>Rasp_Process\<close>: \<^verbatim>\<open>librasp/src/process.rs\<close>, \<^verbatim>\<open>librasp/src/runtime.rs\<close> and \<open>collect\<close> of the plugin. \<open>Rasp_Manager\<close>: \<^verbatim>\<open>librasp/src/manager.rs\<close> and
    \<^verbatim>\<open>librasp/src/comm.rs\<close>; the locale \<open>pid_registry\<close> is the contract of the namespace tracer. \<open>Rasp_Operation\<close>: \<^verbatim>\<open>plugin/src/operation.rs\<close>.
    \<open>Rasp_Monitor\<close>: the threads of \<^verbatim>\<open>plugin/src/monitor.rs\<close> as a step relation.
  \<^item> \<open>Rasp_Command\<close>: \<open>run_async_process\<close> of \<^verbatim>\<open>librasp/src/lib.rs\<close> with its threads. \<open>Rasp_Probes\<close>: \<^verbatim>\<open>settings.rs\<close>, \<^verbatim>\<open>jvm.rs\<close>, \<^verbatim>\<open>cpython.rs\<close>, \<^verbatim>\<open>golang.rs\<close>, \<^verbatim>\<open>nodejs.rs\<close> and
    \<^verbatim>\<open>php.rs\<close> of \<^verbatim>\<open>librasp/src\<close>, the files of \<^verbatim>\<open>manager.rs\<close> and \<open>read_nspid\<close>; \<open>with_probes\<close> and \<open>detectors_of\<close> give them to \<open>Rasp_Manager\<close> and \<open>Rasp_Process\<close> for their
    parameters. \<open>Rasp_Attach\<close>: the theorems on them.
  \<^item> \<open>Rasp_Server\<close>: the crate \<^verbatim>\<open>rasp_server\<close>, with the tasks of its socket server as a step relation. \<open>Rasp_Report\<close>: \<^verbatim>\<open>utils.rs\<close>, \<^verbatim>\<open>report.rs\<close>, \<^verbatim>\<open>message.rs\<close> and \<^verbatim>\<open>config.rs\<close> of the
    plugin and the threads of \<^verbatim>\<open>monitor.rs\<close> that talk with the agent.

  The step relations share the locale \<open>step_invariant\<close> of \<open>Elkeid_Prelude\<close>, which carries an invariant to every reachable state; it is interpreted
  for the monitor, the server and the runner of commands.

  \<^bold>\<open>Correspondence.\<close> A struct is a record, an enum a datatype, and a function or method a definition with the name of
  the source, prefixed with the type where names clash. A \<open>&mut self\<close> is a state that is returned updated;
  \<open>?\<close> is \<open>bind_res\<close> or \<open>bind_st\<close>; an index out of range, an \<open>unwrap\<close> of a missing value and an underflow that the code
  would hit are \<open>Inl Panic\<close>. Integers whose width matters are words. Of an error text the constant part is
  kept. Code that is not in the repository (the crates for LRU caches, rate limits, IP ranges, HTTP, JSON
  and procfs), clocks and the system are fields of a record that the definitions take as an argument; the
  laws that a theorem needs of them are its premises, and its witness gives an instance.

  \<^bold>\<open>What is shown.\<close> Encoding: frames decode to what was encoded, and records of known types become frames, are
  dropped by a filter or reported as too large; the main loop sends only whole frames. Filtering: the
  kernel filters only what the plugin still has queued, the queues stay within the limits of the
  kernel, a request takes effect after any records and expiry rounds, and filters expire after their time. The kernel's allocations are taken to succeed. Pipes: the agent
  passes on the records that a plugin sends, in order, and a plugin receives the tasks of the agent, in order; the frames of the driver's own encoder are received too. Download: only modules with the served checksum are stored. Logger: bounds of the
  log file, and no line is lost in a rotation. Journal: a login line is reported with its parts. Scanner: the engine only
  starts on a database with the configured checksum, extraction stays in its directory, walks end, a one-time task is answered, and
  a reset tries every honeypot and watches those the kernel accepts. RASP: in
  thread mode the tracer implements a set, and a watched process in the state attached is served under every
  interleaving of the threads, up to the moment in which a missing process is on its way out of the table; in server mode servers and tracer agree; probes get their own messages in order; a command is answered with
  its own status; probes are copied once; what the plugin collects is sent in order. Further theorems show
  behaviour that the code hardly intends: deadlocking locks, filters that never act or are never removed,
  panics, a field that is always false, a logger that falls silent, servers that are ended too early, a
  command that is lost, a configuration that is never written, connections that a cleaner closes, and records that the agent misreads or fills up with the
  bytes of others.

  \<^bold>\<open>Loops and bounds.\<close> The loops of the sources are structural recursion over the data they consume, or
  functions with a termination proof. Only the parser of tasks, whose readers are parameters, counts its turns with fuel: the length of the message, which is enough as
  each turn takes a byte, and the theorem on it shows a result. The loop of \<open>install\<close> that waits for a module to be published
  may run for ever by design; it is the partial function \<open>fetch_loop\<close>, where \<open>None\<close> means that it does not return, and
  the theorem tells which answer ends it. Endless threads are given as one round, or as a step relation whose reachable states are studied.
  A buffer index, a queue bound and a counter are the ones of the source.

  \<^bold>\<open>Not modelled.\<close> The start-up of the plugins (command line, control groups of the driver and RASP, locks, logger set-up) and the start and join of their
  threads, which only call libraries; the tasks of the driver and journal watcher; the record that the heartbeat of the driver
  sends; the debug encodings of the driver and the client; the accessors and the unused parsers and encoders of \<^verbatim>\<open>bridge.rs\<close>; the rest of the kernel module; the
  ClamAV engine, the iterator over directories and the reading of the fanotify descriptor; the binding of the socket, the
  frame codec and the forking of \<^verbatim>\<open>rasp_server\<close>; the programs that inject a probe; the rest of the agent, the collector and the server, which are Go programs.
  Most of the Rust lines that remain are in \<^verbatim>\<open>src/plugins/scanner/src/model/engine/clamav/clamav.rs\<close>, the generated bindings of
  a C library, which have no behaviour of their own.
\<close>

end
